theory Spec2Isabelle
  imports Complex_Main "HOL-Library.AList"
begin

section \<open>Python values\<close>

text \<open>
  The server (\<^verbatim>\<open>cloud_server_plus.py\<close>) handles the values that \<^verbatim>\<open>json.loads\<close> returns:
  \<^verbatim>\<open>None\<close>, booleans, unbounded integers, floats, strings, lists and dictionaries with string
  keys. A Python \<^verbatim>\<open>str\<close> is represented by its UTF-8 bytes, so the \<^verbatim>\<open>'\n'\<close> of the framing
  is the byte 10 and the emoji of the event texts are four bytes each. A Python \<^verbatim>\<open>float\<close>
  is represented by the rational number it denotes; the rounding of its arithmetic is a
  parameter of the runtime (\<open>round_double\<close> below), and the non-standard JSON literals
  \<^verbatim>\<open>NaN\<close> and \<^verbatim>\<open>Infinity\<close> have no counterpart. A dictionary is an association list with distinct keys, in insertion order.
\<close>

datatype pyval =
    PNone
  | PBool bool
  | PInt int
  | PFloat rat
  | PStr string
  | PList "pyval list"
  | PDict "(string \<times> pyval) list"

text \<open>The exceptions that the modelled code can raise or meet.\<close>

datatype pyexc =
    JSONDecodeError
  | AttributeError
  | TypeError
  | KeyError
  | ValueError
  | OverflowError
  | RecursionError
  | OSError

text \<open>The number a Python numeric value denotes (\<^verbatim>\<open>True\<close> is 1, \<^verbatim>\<open>False\<close> is 0).\<close>

fun num_val :: "pyval \<Rightarrow> rat option" where
  "num_val (PBool b) = Some (if b then 1 else 0)"
| "num_val (PInt n) = Some (of_int n)"
| "num_val (PFloat r) = Some r"
| "num_val _ = None"

text \<open>
  Python's \<^verbatim>\<open>==\<close> on these values: numbers compare by value across \<^verbatim>\<open>bool\<close>, \<^verbatim>\<open>int\<close> and
  \<^verbatim>\<open>float\<close>, lists element by element, dictionaries as mappings, everything else only
  with its own kind.
\<close>

fun py_eq :: "pyval \<Rightarrow> pyval \<Rightarrow> bool" where
  "py_eq PNone y = (y = PNone)"
| "py_eq (PStr s) y = (y = PStr s)"
| "py_eq (PList xs) y = (case y of PList ys \<Rightarrow> list_all2 py_eq xs ys | _ \<Rightarrow> False)"
| "py_eq (PDict d) y =
     (case y of
        PDict e \<Rightarrow> length d = length e \<and>
          list_all (\<lambda>(k, v). case map_of e k of None \<Rightarrow> False | Some w \<Rightarrow> py_eq v w) d
      | _ \<Rightarrow> False)"
| "py_eq x y = (case num_val y of None \<Rightarrow> False | Some b \<Rightarrow> num_val x = Some b)"

text \<open>\<^verbatim>\<open>d.get(k, default)\<close> on a dictionary.\<close>

definition dict_get :: "(string \<times> pyval) list \<Rightarrow> string \<Rightarrow> pyval \<Rightarrow> pyval" where
  "dict_get d k dflt = (case map_of d k of None \<Rightarrow> dflt | Some v \<Rightarrow> v)"

section \<open>Bounded sample sequences: \<^verbatim>\<open>deque(maxlen=n)\<close>\<close>

record 'a deque =
  maxlen :: nat
  items :: "'a list"

definition deque_new :: "nat \<Rightarrow> 'a deque" where
  "deque_new n = \<lparr>maxlen = n, items = []\<rparr>"

text \<open>
  \<^verbatim>\<open>deque.append\<close>: the element goes to the right end; a deque that is then longer than
  its \<^verbatim>\<open>maxlen\<close> drops its leftmost element.
\<close>

definition dq_append :: "'a deque \<Rightarrow> 'a \<Rightarrow> 'a deque" where
  "dq_append q x =
     (let ys = items q @ [x]
      in q\<lparr>items := (if maxlen q < length ys then tl ys else ys)\<rparr>)"

section \<open>\<^verbatim>\<open>class SensorData\<close>\<close>

definition MAX_DATA_POINTS :: nat where
  "MAX_DATA_POINTS = 100"

definition ALARM_THRESHOLD :: rat where
  "ALARM_THRESHOLD = 60"

definition SPRINKLER_THRESHOLD :: rat where
  "SPRINKLER_THRESHOLD = 65"

record SensorData =
  timestamps :: "rat deque"
  smoke :: "rat deque"
  co2 :: "rat deque"
  fire :: "rat deque"
  car_temp :: "rat deque"
  car_status :: pyval
  alarm_status :: bool
  sprinkler_status :: bool

text \<open>\<^verbatim>\<open>SensorData.__init__(self, max_points=MAX_DATA_POINTS)\<close>\<close>

definition SensorData_init :: "nat \<Rightarrow> SensorData" where
  "SensorData_init max_points =
     \<lparr>timestamps = deque_new max_points,
      smoke = deque_new max_points,
      co2 = deque_new max_points,
      fire = deque_new max_points,
      car_temp = deque_new max_points,
      car_status = PStr ''UNKNOWN'',
      alarm_status = False,
      sprinkler_status = False\<rparr>"

text \<open>
  \<^verbatim>\<open>add_room(self, ts, smoke=None, co2=None, fire=None)\<close>: every caller passes floats or
  \<^verbatim>\<open>None\<close>, so \<^verbatim>\<open>float(x)\<close> is the identity on what is passed.
\<close>

definition or_zero :: "rat option \<Rightarrow> rat" where
  "or_zero v = (case v of None \<Rightarrow> 0 | Some x \<Rightarrow> x)"

definition add_room :: "rat \<Rightarrow> rat option \<Rightarrow> rat option \<Rightarrow> rat option \<Rightarrow> SensorData \<Rightarrow> SensorData" where
  "add_room ts sm c f d =
     d\<lparr>timestamps := dq_append (timestamps d) ts,
       smoke := dq_append (smoke d) (or_zero sm),
       co2 := dq_append (co2 d) (or_zero c),
       fire := dq_append (fire d) (or_zero f)\<rparr>"

text \<open>\<^verbatim>\<open>add_car(self, ts, temp=None, status=None)\<close>; \<open>PNone\<close> is Python's \<^verbatim>\<open>None\<close>.\<close>

definition add_car :: "rat \<Rightarrow> rat option \<Rightarrow> pyval \<Rightarrow> SensorData \<Rightarrow> SensorData" where
  "add_car ts temp status d =
     (let d1 = d\<lparr>timestamps := dq_append (timestamps d) ts,
                 car_temp := dq_append (car_temp d) (or_zero temp)\<rparr>
      in if status \<noteq> PNone then d1\<lparr>car_status := status\<rparr> else d1)"

section \<open>The runtime the server calls\<close>

text \<open>
  Library functions and inputs that are not code of the repository are parameters of the
  model: \<^verbatim>\<open>json.loads\<close> (\<open>Inl\<close> is the exception it raises), \<^verbatim>\<open>json.dumps\<close>, \<^verbatim>\<open>float\<close>
  applied to a string (\<open>None\<close> is \<^verbatim>\<open>ValueError\<close>), the wall clock (\<open>time_at env i\<close> is what the
  \<open>i\<close>-th reading of \<^verbatim>\<open>time.time()\<close> or \<^verbatim>\<open>datetime.now()\<close> returns), the outcome of
  \<^verbatim>\<open>sock.sendall\<close> (\<open>Some e\<close> when it raises) and \<^verbatim>\<open>random.choice\<close>.
\<close>

type_synonym sock = nat
type_synonym addr = "string \<times> nat"

record pyenv =
  json_loads :: "string \<Rightarrow> pyexc + pyval"
  json_dumps :: "pyval \<Rightarrow> string"
  float_str :: "string \<Rightarrow> rat option"
  time_at :: "nat \<Rightarrow> rat"
  sendall_raises :: "sock \<Rightarrow> string \<Rightarrow> pyexc option"
  random_choice :: "nat \<Rightarrow> nat"
  round_double :: "rat \<Rightarrow> rat"

text \<open>
  \<^verbatim>\<open>float(v)\<close>. An integer of magnitude \<open>2^1024 - 2^970\<close> or more does not fit a double
  (\<^verbatim>\<open>OverflowError\<close>); a smaller one is rounded to a double. A \<^verbatim>\<open>float\<close> is returned as
  it is.
\<close>

definition py_float :: "pyenv \<Rightarrow> pyval \<Rightarrow> pyexc + rat" where
  "py_float env v =
     (case v of
        PNone \<Rightarrow> Inl TypeError
      | PBool b \<Rightarrow> Inr (if b then 1 else 0)
      | PInt n \<Rightarrow> (if 2 ^ 1024 - 2 ^ 970 \<le> \<bar>n\<bar> then Inl OverflowError
                    else Inr (round_double env (of_int n)))
      | PFloat r \<Rightarrow> Inr r
      | PStr s \<Rightarrow> (case float_str env s of None \<Rightarrow> Inl ValueError | Some r \<Rightarrow> Inr r)
      | PList xs \<Rightarrow> Inl TypeError
      | PDict d \<Rightarrow> Inl TypeError)"

text \<open>A UTF-8 continuation byte; the code points of a text are its other bytes.\<close>

definition is_cont :: "char \<Rightarrow> bool" where
  "is_cont c = (128 \<le> (of_char c :: nat) \<and> (of_char c :: nat) < 192)"

text \<open>\<^verbatim>\<open>s[:n]\<close>: the first \<open>n\<close> code points of a text.\<close>

fun py_prefix :: "nat \<Rightarrow> string \<Rightarrow> string" where
  "py_prefix n [] = []"
| "py_prefix n (c # cs) =
     (if is_cont c then c # py_prefix n cs
      else (case n of 0 \<Rightarrow> [] | Suc m \<Rightarrow> c # py_prefix m cs))"

text \<open>\<^verbatim>\<open>k in s\<close> for two strings: \<open>k\<close> occurs in \<open>s\<close> as a substring.\<close>

fun substring :: "string \<Rightarrow> string \<Rightarrow> bool" where
  "substring k [] = (k = [])"
| "substring k (c # cs) = (take (length k) (c # cs) = k \<or> substring k cs)"

text \<open>\<^verbatim>\<open>len(v)\<close>, \<^verbatim>\<open>k in v\<close> and \<^verbatim>\<open>v.get(k, default)\<close> on an arbitrary decoded value.\<close>

definition py_len :: "pyval \<Rightarrow> pyexc + nat" where
  "py_len v =
     (case v of
        PStr s \<Rightarrow> Inr (length (filter (\<lambda>c. \<not> is_cont c) s))
      | PList xs \<Rightarrow> Inr (length xs)
      | PDict d \<Rightarrow> Inr (length d)
      | _ \<Rightarrow> Inl TypeError)"

definition py_in :: "string \<Rightarrow> pyval \<Rightarrow> pyexc + bool" where
  "py_in k v =
     (case v of
        PStr s \<Rightarrow> Inr (substring k s)
      | PList xs \<Rightarrow> Inr (PStr k \<in> set xs)
      | PDict d \<Rightarrow> Inr (map_of d k \<noteq> None)
      | _ \<Rightarrow> Inl TypeError)"

definition py_get :: "pyval \<Rightarrow> string \<Rightarrow> pyval \<Rightarrow> pyexc + pyval" where
  "py_get v k dflt = (case v of PDict d \<Rightarrow> Inr (dict_get d k dflt) | _ \<Rightarrow> Inl AttributeError)"

text \<open>
  \<^verbatim>\<open>max(a, b)\<close> is \<open>b\<close> when \<^verbatim>\<open>b > a\<close> and \<open>a\<close> otherwise. The server calls it with
  \<^verbatim>\<open>self.last_seq\<close>, which is a number from the start (0) on, so the comparison raises
  \<^verbatim>\<open>TypeError\<close> exactly when the other argument is not a number.
\<close>

definition py_max :: "pyval \<Rightarrow> pyval \<Rightarrow> pyexc + pyval" where
  "py_max a b =
     (case (num_val a, num_val b) of
        (Some x, Some y) \<Rightarrow> Inr (if x < y then b else a)
      | _ \<Rightarrow> Inl TypeError)"

text \<open>
  \<^verbatim>\<open>bytes.decode('utf-8', errors='ignore')\<close>: well-formed sequences are kept, and of an
  ill-formed one CPython drops the bytes up to the first byte that cannot continue it
  (an incomplete sequence at the end of the input is dropped whole).
\<close>

definition second_ok3 :: "nat \<Rightarrow> char \<Rightarrow> bool" where
  "second_ok3 n c =
     (is_cont c \<and> \<not> (if (of_char c :: nat) < 160 then n = 224 else n = 237))"

definition second_ok4 :: "nat \<Rightarrow> char \<Rightarrow> bool" where
  "second_ok4 n c =
     (is_cont c \<and> \<not> (if (of_char c :: nat) < 144 then n = 240 else n = 244))"

fun utf8_ignore :: "string \<Rightarrow> string" where
  "utf8_ignore [] = []"
| "utf8_ignore (b # bs) =
     (let n = (of_char b :: nat) in
      if n < 128 then b # utf8_ignore bs
      else if n < 194 then utf8_ignore bs
      else if n < 224 then
        (case bs of
           [] \<Rightarrow> []
         | c # cs \<Rightarrow> if is_cont c then b # c # utf8_ignore cs else utf8_ignore bs)
      else if n < 240 then
        (case bs of
           [] \<Rightarrow> []
         | c # cs \<Rightarrow>
             if \<not> second_ok3 n c then utf8_ignore bs
             else (case cs of
                     [] \<Rightarrow> []
                   | d # ds \<Rightarrow>
                       if is_cont d then b # c # d # utf8_ignore ds else utf8_ignore cs))
      else if n < 245 then
        (case bs of
           [] \<Rightarrow> []
         | c # cs \<Rightarrow>
             if \<not> second_ok4 n c then utf8_ignore bs
             else (case cs of
                     [] \<Rightarrow> []
                   | d # ds \<Rightarrow>
                       if \<not> is_cont d then utf8_ignore cs
                       else (case ds of
                               [] \<Rightarrow> []
                             | e # es \<Rightarrow>
                                 if is_cont e then b # c # d # e # utf8_ignore es
                                 else utf8_ignore ds)))
      else utf8_ignore bs)"

section \<open>Events and the operational record\<close>

text \<open>
  An event text is kept as the parts of the f-string that builds it: literal text, and
  the interpolated values. An interpolated string is its own text, so \<open>fstr\<close> joins it
  with the literal text around it; only a value of another kind stays symbolic.
\<close>

datatype part = Lit string | Val pyval

fun lit_of :: "part \<Rightarrow> string option" where
  "lit_of (Lit s) = Some s"
| "lit_of (Val (PStr s)) = Some s"
| "lit_of (Val v) = None"

fun fstr :: "part list \<Rightarrow> part list" where
  "fstr [] = []"
| "fstr (p # ps) =
     (case lit_of p of
        None \<Rightarrow> p # fstr ps
      | Some s \<Rightarrow> (case fstr ps of Lit t # r \<Rightarrow> Lit (s @ t) # r | r \<Rightarrow> Lit s # r))"

text \<open>The emoji that open the event texts, as UTF-8 bytes.\<close>

definition bell :: string where
  "bell = [CHR 0xF0, CHR 0x9F, CHR 0x94, CHR 0x94]"

definition drops :: string where
  "drops = [CHR 0xF0, CHR 0x9F, CHR 0x92, CHR 0xA6]"

definition car_red :: string where
  "car_red = [CHR 0xF0, CHR 0x9F, CHR 0x9A, CHR 0x97]"

definition car_blue :: string where
  "car_blue = [CHR 0xF0, CHR 0x9F, CHR 0x9A, CHR 0x99]"

text \<open>One constructor for each \<^verbatim>\<open>logger.info\<close> call of the modelled code.\<close>

datatype logline =
    LogConnected addr
  | LogClientError addr pyexc
  | LogClosed addr
  | LogInvalidJSON addr string
  | LogHeartbeat pyval pyval
  | LogData pyval pyval nat
  | LogProcessDataError pyexc
  | LogSent string addr "(string \<times> pyval) list"
  | LogSendFailed string addr pyexc
  | LogStopping
  | LogStopped

section \<open>\<^verbatim>\<open>class CloudServer\<close>: the state\<close>

text \<open>
  The attributes of the server that the modelled methods read or write. \<open>clock\<close> counts
  the readings of the wall clock so far, \<open>wire\<close> lists what \<^verbatim>\<open>sendall\<close> has delivered (socket
  and text, oldest first), \<open>closed_socks\<close> the sockets closed so far and \<open>logged\<close> the log.
  \<^verbatim>\<open>wait_for_step\<close> is never set to true anywhere in the source and is left out.
\<close>

record server =
  running :: bool
  clients :: "(addr \<times> (sock \<times> rat \<times> pyval)) list"
  sensor_data :: "string \<Rightarrow> SensorData option"
  events :: "(rat \<times> part list) list"
  packet_count :: int
  last_seq :: pyval
  clock :: nat
  wire :: "(sock \<times> string) list"
  closed_socks :: "sock list"
  logged :: "logline list"

definition now :: "pyenv \<Rightarrow> server \<Rightarrow> rat" where
  "now env st = time_at env (clock st)"

definition tick :: "server \<Rightarrow> server" where
  "tick st = st\<lparr>clock := Suc (clock st)\<rparr>"

definition log_info :: "logline \<Rightarrow> server \<Rightarrow> server" where
  "log_info l st = st\<lparr>logged := logged st @ [l]\<rparr>"

text \<open>\<^verbatim>\<open>add_event(self, msg)\<close>\<close>

definition add_event :: "pyenv \<Rightarrow> part list \<Rightarrow> server \<Rightarrow> server" where
  "add_event env msg st = tick (st\<lparr>events := events st @ [(now env st, msg)]\<rparr>)"

text \<open>\<^verbatim>\<open>CloudServer.__init__\<close> (the plot set-up has no part in the state).\<close>

definition CloudServer_init :: "pyenv \<Rightarrow> server" where
  "CloudServer_init env =
     add_event env [Lit ''Starting cloud server ...'']
       \<lparr>running = False,
        clients = [],
        sensor_data =
          [''1200400'' \<mapsto> SensorData_init MAX_DATA_POINTS,
           ''1211371'' \<mapsto> SensorData_init MAX_DATA_POINTS,
           ''car1'' \<mapsto> SensorData_init MAX_DATA_POINTS,
           ''car2'' \<mapsto> SensorData_init MAX_DATA_POINTS],
        events = [],
        packet_count = 0,
        last_seq = PInt 0,
        clock = 0,
        wire = [],
        closed_socks = [],
        logged = []\<rparr>"

text \<open>\<^verbatim>\<open>start\<close>: after binding the listening socket the server is running.\<close>

definition start :: "server \<Rightarrow> server" where
  "start st = st\<lparr>running := True\<rparr>"

text \<open>One accepted connection of \<^verbatim>\<open>_accept_loop\<close>.\<close>

definition accept_conn :: "pyenv \<Rightarrow> sock \<Rightarrow> addr \<Rightarrow> server \<Rightarrow> server" where
  "accept_conn env s a st =
     log_info (LogConnected a)
       (tick (st\<lparr>clients := AList.update a (s, now env st, PStr ''UNKNOWN'') (clients st)\<rparr>))"

text \<open>Replacing the state of one entity, \<^verbatim>\<open>self.sensor_data[key]\<close>.\<close>

definition set_sensor :: "string \<Rightarrow> SensorData \<Rightarrow> server \<Rightarrow> server" where
  "set_sensor key d st = st\<lparr>sensor_data := (sensor_data st)(key \<mapsto> d)\<rparr>"

section \<open>Ingesting \<^verbatim>\<open>DATA\<close>: \<^verbatim>\<open>_on_data\<close>\<close>

text \<open>Sequencing of steps that may raise: the first exception ends the sequence.\<close>

definition exc_bind :: "pyexc + 'a \<Rightarrow> ('a \<Rightarrow> pyexc + 'b) \<Rightarrow> pyexc + 'b" where
  "exc_bind m f = (case m of Inl e \<Rightarrow> Inl e | Inr x \<Rightarrow> f x)"

text \<open>\<^verbatim>\<open>k1 in v or k2 in v or ...\<close>, evaluated left to right.\<close>

fun py_in_any :: "string list \<Rightarrow> pyval \<Rightarrow> pyexc + bool" where
  "py_in_any [] v = Inr False"
| "py_in_any (k # ks) v =
     (case py_in k v of
        Inl e \<Rightarrow> Inl e
      | Inr found \<Rightarrow> if found then Inr True else py_in_any ks v)"

text \<open>\<^verbatim>\<open>float(sensors.get(k, default))\<close>\<close>

definition read_float :: "pyenv \<Rightarrow> pyval \<Rightarrow> string \<Rightarrow> rat \<Rightarrow> pyexc + rat" where
  "read_float env sensors k dflt = exc_bind (py_get sensors k (PFloat dflt)) (py_float env)"

text \<open>
  What the block of a room reads from the payload: \<open>Inr None\<close> when none of its three keys
  is there, the three readings otherwise, or the exception of the first conversion
  that fails.
\<close>

definition room_sample ::
  "pyenv \<Rightarrow> pyval \<Rightarrow> string \<Rightarrow> string \<Rightarrow> string \<Rightarrow> pyexc + (rat \<times> rat \<times> rat) option" where
  "room_sample env sensors ks kc kf =
     exc_bind (py_in_any [ks, kc, kf] sensors) (\<lambda>present.
       if \<not> present then Inr None
       else
         exc_bind (read_float env sensors ks 0) (\<lambda>sm.
         exc_bind (read_float env sensors kc 0) (\<lambda>c.
         exc_bind (read_float env sensors kf 0) (\<lambda>f.
           Inr (Some (sm, c, f))))))"

text \<open>
  The two latches, as each ingestion path writes them after \<^verbatim>\<open>add_room\<close>:
  \<^verbatim>\<open>if v >= ALARM_THRESHOLD and not d.alarm_status: d.alarm_status = True; add_event(...)\<close>
  and the same against \<^verbatim>\<open>SPRINKLER_THRESHOLD\<close>.
\<close>

definition alarm_check :: "pyenv \<Rightarrow> string \<Rightarrow> rat \<Rightarrow> server \<Rightarrow> server" where
  "alarm_check env key v st =
     (case sensor_data st key of
        None \<Rightarrow> st
      | Some d \<Rightarrow>
          if ALARM_THRESHOLD \<le> v \<and> \<not> alarm_status d
          then add_event env [Lit (bell @ '' ALARM_'' @ key @ '' -> ON'')]
                 (set_sensor key (d\<lparr>alarm_status := True\<rparr>) st)
          else st)"

definition sprinkler_check :: "pyenv \<Rightarrow> string \<Rightarrow> rat \<Rightarrow> server \<Rightarrow> server" where
  "sprinkler_check env key v st =
     (case sensor_data st key of
        None \<Rightarrow> st
      | Some d \<Rightarrow>
          if SPRINKLER_THRESHOLD \<le> v \<and> \<not> sprinkler_status d
          then add_event env [Lit (drops @ '' SPRINKLER_'' @ key @ '' -> ON'')]
                 (set_sensor key (d\<lparr>sprinkler_status := True\<rparr>) st)
          else st)"

text \<open>The block of \<^verbatim>\<open>_on_data\<close> for one room (lines 266-275 and 277-286).\<close>

definition on_data_room ::
  "pyenv \<Rightarrow> string \<Rightarrow> string \<Rightarrow> string \<Rightarrow> string \<Rightarrow> pyval \<Rightarrow> rat \<Rightarrow> server \<Rightarrow> pyexc + server" where
  "on_data_room env key ks kc kf sensors ts st =
     exc_bind (room_sample env sensors ks kc kf) (\<lambda>r.
       case r of
         None \<Rightarrow> Inr st
       | Some (sm, c, f) \<Rightarrow>
           (case sensor_data st key of
              None \<Rightarrow> Inl KeyError
            | Some d \<Rightarrow>
                Inr (sprinkler_check env key sm
                      (alarm_check env key sm
                        (set_sensor key (add_room ts (Some sm) (Some c) (Some f) d) st)))))"

text \<open>The block of \<^verbatim>\<open>_on_data\<close> for one vehicle (lines 288-295 and 297-304).\<close>

definition on_data_car ::
  "pyenv \<Rightarrow> string \<Rightarrow> string \<Rightarrow> string \<Rightarrow> string \<Rightarrow> string \<Rightarrow> pyval \<Rightarrow> rat \<Rightarrow> server
     \<Rightarrow> pyexc + server" where
  "on_data_car env key label emoji kt kst sensors ts st =
     exc_bind (py_in_any [kt, kst] sensors) (\<lambda>present.
       if \<not> present then Inr st
       else
         exc_bind (read_float env sensors kt 25) (\<lambda>temp.
         exc_bind (py_get sensors kst (PStr ''UNKNOWN'')) (\<lambda>status.
           case sensor_data st key of
             None \<Rightarrow> Inl KeyError
           | Some d \<Rightarrow>
               (let prev = car_status d;
                    st1 = set_sensor key (add_car ts (Some temp) status d) st
                in Inr (if \<not> py_eq prev status
                        then add_event env
                               (fstr [Lit (emoji @ '' '' @ label @ '' ''), Val prev,
                                      Lit '' -> '', Val status]) st1
                        else st1)))))"

text \<open>
  Blocks run in order inside one \<^verbatim>\<open>try\<close>: an exception leaves the effects of the blocks
  before it in place and skips the rest.
\<close>

fun try_seq :: "(server \<Rightarrow> pyexc + server) list \<Rightarrow> server \<Rightarrow> pyexc option \<times> server" where
  "try_seq [] st = (None, st)"
| "try_seq (f # fs) st = (case f st of Inl e \<Rightarrow> (Some e, st) | Inr st' \<Rightarrow> try_seq fs st')"

text \<open>The four blocks of \<^verbatim>\<open>_on_data\<close>, in source order.\<close>

definition on_data_blocks :: "pyenv \<Rightarrow> pyval \<Rightarrow> rat \<Rightarrow> (server \<Rightarrow> pyexc + server) list" where
  "on_data_blocks env sensors ts =
     [on_data_room env ''1200400'' ''smoke1'' ''co2_1'' ''fire1'' sensors ts,
      on_data_room env ''1211371'' ''smoke2'' ''co2_2'' ''fire2'' sensors ts,
      on_data_car env ''car1'' ''Car1'' car_red ''car1_temp'' ''car1_status'' sensors ts,
      on_data_car env ''car2'' ''Car2'' car_blue ''car2_temp'' ''car2_status'' sensors ts]"

text \<open>
  The body of the \<^verbatim>\<open>try\<close> in \<^verbatim>\<open>_on_data\<close>: the exception that ends it, if any, and the
  state it leaves.
\<close>

definition on_data_body :: "pyenv \<Rightarrow> (string \<times> pyval) list \<Rightarrow> server \<Rightarrow> pyexc option \<times> server" where
  "on_data_body env data st =
     (let seq = dict_get data ''seq'' (PInt 0);
          gw = dict_get data ''gateway_id'' (PStr ''UNKNOWN'');
          sensors = dict_get data ''sensors'' (PDict [])
      in case py_max (last_seq st) seq of
           Inl e \<Rightarrow> (Some e, st)
         | Inr m \<Rightarrow>
             (let st1 = st\<lparr>last_seq := m, packet_count := packet_count st + 1\<rparr>
              in case py_len sensors of
                   Inl e \<Rightarrow> (Some e, st1)
                 | Inr n \<Rightarrow>
                     (let st2 = log_info (LogData seq gw n) st1
                      in try_seq (on_data_blocks env sensors (now env st2)) (tick st2))))"

text \<open>\<^verbatim>\<open>_on_data\<close>: the body, with every exception caught and logged.\<close>

definition on_data :: "pyenv \<Rightarrow> (string \<times> pyval) list \<Rightarrow> server \<Rightarrow> server" where
  "on_data env data st =
     (case on_data_body env data st of
        (None, st') \<Rightarrow> st'
      | (Some e, st') \<Rightarrow> log_info (LogProcessDataError e) st')"

section \<open>Decoding a line: \<^verbatim>\<open>_process_message\<close>\<close>

definition on_heartbeat :: "(string \<times> pyval) list \<Rightarrow> server \<Rightarrow> server" where
  "on_heartbeat data st =
     log_info (LogHeartbeat (dict_get data ''seq'' (PInt 0))
                 (dict_get data ''gateway_id'' (PStr ''UNKNOWN''))) st"

text \<open>
  The part after the registry update. A decoded value that is not a dictionary has no
  \<^verbatim>\<open>get\<close>: \<^verbatim>\<open>AttributeError\<close> leaves \<^verbatim>\<open>_process_message\<close>.
\<close>

definition dispatch :: "pyenv \<Rightarrow> pyval \<Rightarrow> server \<Rightarrow> pyexc option \<times> server" where
  "dispatch env data st =
     (case data of
        PDict d \<Rightarrow>
          (let t = dict_get d ''type'' (PStr '''')
           in if py_eq t (PStr ''HEARTBEAT'') then (None, on_heartbeat d st)
              else if py_eq t (PStr ''DATA'') then (None, on_data env d st)
              else (None, st))
      | _ \<Rightarrow> (Some AttributeError, st))"

text \<open>
  \<^verbatim>\<open>_process_message(self, sock, addr, line)\<close>. The result is the exception that leaves the
  method, if any, and the state. Only \<^verbatim>\<open>JSONDecodeError\<close> is caught here. The tuple stored
  in the registry is built left to right, so the clock is read before \<^verbatim>\<open>data.get\<close> runs.
\<close>

definition process_message ::
  "pyenv \<Rightarrow> sock \<Rightarrow> addr \<Rightarrow> string \<Rightarrow> server \<Rightarrow> pyexc option \<times> server" where
  "process_message env sk a line st =
     (case json_loads env line of
        Inl e \<Rightarrow>
          if e = JSONDecodeError
          then (None, log_info (LogInvalidJSON a (py_prefix 80 line)) st)
          else (Some e, st)
      | Inr data \<Rightarrow>
          (case map_of (clients st) a of
             None \<Rightarrow> dispatch env data st
           | Some (s, seen, gw) \<Rightarrow>
               (let t = now env st; st1 = tick st
                in case py_get data ''gateway_id'' gw of
                     Inl e \<Rightarrow> (Some e, st1)
                   | Inr g \<Rightarrow>
                       dispatch env data
                         (st1\<lparr>clients := AList.update a (s, t, g) (clients st1)\<rparr>))))"

section \<open>The connection handler: \<^verbatim>\<open>_client_loop\<close>\<close>

definition newline :: char where
  "newline = CHR 0x0A"

lemma rest_shorter:
  "newline \<in> set buf \<Longrightarrow> length (tl (dropWhile (\<lambda>c. c \<noteq> newline) buf)) < length buf"
proof -
  assume "newline \<in> set buf"
  then have "dropWhile (\<lambda>c. c \<noteq> newline) buf \<noteq> []" by simp
  then have "length (tl (dropWhile (\<lambda>c. c \<noteq> newline) buf)) < length (dropWhile (\<lambda>c. c \<noteq> newline) buf)"
    by (cases "dropWhile (\<lambda>c. c \<noteq> newline) buf") simp_all
  also have "\<dots> \<le> length buf" by (rule length_dropWhile_le)
  finally show ?thesis .
qed

text \<open>
  The inner loop \<^verbatim>\<open>while '\n' in buffer: line, buffer = buffer.split('\n', 1);
  self._process_message(sock, addr, line)\<close>. The buffer is assigned before the call, so
  an exception that leaves the call finds the rest of the buffer in place.
\<close>

function drain ::
  "pyenv \<Rightarrow> sock \<Rightarrow> addr \<Rightarrow> string \<Rightarrow> server \<Rightarrow> pyexc option \<times> string \<times> server" where
  "drain env sk a buf st =
     (if newline \<in> set buf
      then (let line = takeWhile (\<lambda>c. c \<noteq> newline) buf;
                rest = tl (dropWhile (\<lambda>c. c \<noteq> newline) buf)
            in case process_message env sk a line st of
                 (None, st') \<Rightarrow> drain env sk a rest st'
               | (Some e, st') \<Rightarrow> (Some e, rest, st'))
      else (None, buf, st))"
  by pat_completeness auto
termination
  by (relation "measure (\<lambda>(env, sk, a, buf, st). length buf)")
     (auto simp del: length_tl simp add: rest_shorter)

text \<open>
  What one call of \<^verbatim>\<open>sock.recv(BUFFER_SIZE)\<close> does: it returns bytes (none at all at end of
  stream; never more than \<^verbatim>\<open>BUFFER_SIZE\<close>, a bound that nothing here depends on), times out,
  or raises another exception.
\<close>

datatype recv = Recv string | RecvTimeout | RecvError pyexc

text \<open>Where the handler is: still in its loop with this buffer, or returned.\<close>

datatype handler = Reading string | Closed

text \<open>The \<^verbatim>\<open>finally\<close> block: the socket is closed and the session leaves the registry.\<close>

definition close_session :: "sock \<Rightarrow> addr \<Rightarrow> server \<Rightarrow> server" where
  "close_session sk a st =
     log_info (LogClosed a)
       (st\<lparr>closed_socks := closed_socks st @ [sk],
           clients := AList.delete a (clients st)\<rparr>)"

text \<open>
  \<^verbatim>\<open>_client_loop\<close> over the outcomes of its successive \<^verbatim>\<open>recv\<close> calls. The loop ends when
  \<^verbatim>\<open>self.running\<close> is false or \<^verbatim>\<open>recv\<close> returns no bytes; a timeout passes; any other
  exception of the loop body is logged and the loop goes on.
\<close>

fun client_loop ::
  "pyenv \<Rightarrow> sock \<Rightarrow> addr \<Rightarrow> recv list \<Rightarrow> string \<Rightarrow> server \<Rightarrow> handler \<times> server" where
  "client_loop env sk a [] buf st =
     (if \<not> running st then (Closed, close_session sk a st) else (Reading buf, st))"
| "client_loop env sk a (r # rs) buf st =
     (if \<not> running st then (Closed, close_session sk a st)
      else case r of
        RecvTimeout \<Rightarrow> client_loop env sk a rs buf st
      | RecvError e \<Rightarrow> client_loop env sk a rs buf (log_info (LogClientError a e) st)
      | Recv bytes \<Rightarrow>
          if bytes = [] then (Closed, close_session sk a st)
          else (case drain env sk a (buf @ utf8_ignore bytes) st of
                  (None, buf', st') \<Rightarrow> client_loop env sk a rs buf' st'
                | (Some e, buf', st') \<Rightarrow>
                    client_loop env sk a rs buf' (log_info (LogClientError a e) st')))"

text \<open>The handler as a thread starts it: with an empty buffer.\<close>

definition client_thread :: "pyenv \<Rightarrow> sock \<Rightarrow> addr \<Rightarrow> recv list \<Rightarrow> server \<Rightarrow> handler \<times> server" where
  "client_thread env sk a rs st = client_loop env sk a rs [] st"

section \<open>The command layer\<close>

text \<open>
  \<^verbatim>\<open>_send_control_all(self, command, params=None)\<close>: one message, written to every
  session of a snapshot of the registry; a failed write is logged and nothing else.
\<close>

fun send_each ::
  "pyenv \<Rightarrow> string \<Rightarrow> (string \<times> pyval) list \<Rightarrow> string \<Rightarrow> (addr \<times> (sock \<times> rat \<times> pyval)) list
     \<Rightarrow> server \<Rightarrow> server" where
  "send_each env command params msg [] st = st"
| "send_each env command params msg ((a, (s, seen, gw)) # cs) st =
     send_each env command params msg cs
       (case sendall_raises env s msg of
          None \<Rightarrow> log_info (LogSent command a params) (st\<lparr>wire := wire st @ [(s, msg)]\<rparr>)
        | Some e \<Rightarrow> log_info (LogSendFailed command a e) st)"

definition control_text :: "pyenv \<Rightarrow> string \<Rightarrow> (string \<times> pyval) list \<Rightarrow> rat \<Rightarrow> string" where
  "control_text env command params t =
     json_dumps env
       (PDict [(''type'', PStr ''CONTROL''), (''command'', PStr command),
               (''params'', PDict params), (''timestamp'', PFloat t)]) @ [newline]"

definition send_control_all ::
  "pyenv \<Rightarrow> string \<Rightarrow> (string \<times> pyval) list option \<Rightarrow> server \<Rightarrow> server" where
  "send_control_all env command params st =
     (let ps = (case params of None \<Rightarrow> [] | Some p \<Rightarrow> p);
          msg = control_text env command ps (now env st);
          st1 = tick st
      in send_each env command ps msg (clients st1) st1)"

text \<open>\<^verbatim>\<open>_control_device(self, device, state)\<close>\<close>

definition on_off :: "bool \<Rightarrow> string" where
  "on_off state = (if state then ''ON'' else ''OFF'')"

definition control_device :: "pyenv \<Rightarrow> string \<Rightarrow> bool \<Rightarrow> server \<Rightarrow> server" where
  "control_device env device state st =
     (if take 6 device = ''ALARM_'' then
        (let room = drop 6 device
         in case sensor_data st room of
              None \<Rightarrow> st
            | Some d \<Rightarrow>
                add_event env [Lit (bell @ '' '' @ device @ '' -> '' @ on_off state)]
                  (set_sensor room (d\<lparr>alarm_status := state\<rparr>) st))
      else if take 7 device = ''SPRINK_'' then
        (let room = drop 7 device
         in case sensor_data st room of
              None \<Rightarrow> st
            | Some d \<Rightarrow>
                add_event env [Lit (drops @ '' '' @ device @ '' -> '' @ on_off state)]
                  (set_sensor room (d\<lparr>sprinkler_status := state\<rparr>) st))
      else st)"

text \<open>\<^verbatim>\<open>stop\<close>\<close>

definition stop :: "server \<Rightarrow> server" where
  "stop st =
     (if \<not> running st then st
      else log_info LogStopped
             ((log_info LogStopping st)
                \<lparr>running := False,
                 closed_socks := closed_socks st @ map (\<lambda>(a, (s, seen, gw)). s) (clients st)\<rparr>))"

section \<open>The scenarios\<close>

text \<open>\<^verbatim>\<open>q[-1] if q else default\<close>\<close>

definition last_or :: "rat deque \<Rightarrow> rat \<Rightarrow> rat" where
  "last_or q dflt = (if items q = [] then dflt else last (items q))"

text \<open>
  \<^verbatim>\<open>for i in range(n): if not self.running: break; body(i)\<close>. A scenario runs in a thread
  of its own: an exception in the body ends the thread and leaves the state as it is.
\<close>

fun ticks :: "(nat \<Rightarrow> server \<Rightarrow> pyexc + server) \<Rightarrow> nat list \<Rightarrow> server \<Rightarrow> pyexc option \<times> server" where
  "ticks body [] st = (None, st)"
| "ticks body (i # is) st =
     (if \<not> running st then (None, st)
      else case body i st of Inl e \<Rightarrow> (Some e, st) | Inr st' \<Rightarrow> ticks body is st')"

text \<open>
  \<^verbatim>\<open>_scenario_fire1\<close> and \<^verbatim>\<open>_scenario_fire2\<close>: one iteration, and the whole run. In
  \<^verbatim>\<open>val = base + min(25, i*0.8)\<close>, \<^verbatim>\<open>val*10\<close> and \<^verbatim>\<open>val*0.6\<close> every operation on a
  \<^verbatim>\<open>float\<close> rounds its result.
\<close>

definition fire_tick :: "pyenv \<Rightarrow> string \<Rightarrow> rat \<Rightarrow> nat \<Rightarrow> server \<Rightarrow> pyexc + server" where
  "fire_tick env key base i st =
     (let ts = now env st;
          v = round_double env
                (base + min 25 (round_double env (of_nat i * round_double env (4 / 5))))
      in case sensor_data st key of
           None \<Rightarrow> Inl KeyError
         | Some d \<Rightarrow>
             Inr (sprinkler_check env key v
                   (alarm_check env key v
                     (set_sensor key (add_room ts (Some v) (Some (round_double env (v * 10)))
                                   (Some (round_double env (v * round_double env (3 / 5)))) d)
                        (tick st)))))"

definition scenario_fire :: "pyenv \<Rightarrow> string \<Rightarrow> string \<Rightarrow> rat \<Rightarrow> server \<Rightarrow> server" where
  "scenario_fire env key name dflt st =
     (let st1 = send_control_all env ''SCENARIO''
                  (Some [(''name'', PStr name), (''room'', PStr key)]) st
      in case sensor_data st1 key of
           None \<Rightarrow> st1
         | Some d \<Rightarrow> snd (ticks (fire_tick env key (last_or (smoke d) dflt)) [0..<30] st1))"

definition scenario_fire1 :: "pyenv \<Rightarrow> (string \<times> pyval) list option \<Rightarrow> server \<Rightarrow> server" where
  "scenario_fire1 env params st = scenario_fire env ''1200400'' ''fire1'' 45 st"

definition scenario_fire2 :: "pyenv \<Rightarrow> (string \<times> pyval) list option \<Rightarrow> server \<Rightarrow> server" where
  "scenario_fire2 env params st = scenario_fire env ''1211371'' ''fire2'' 42 st"

text \<open>\<^verbatim>\<open>_scenario_co2_high\<close>, with \<^verbatim>\<open>co2v = base + 50 + i*25\<close> added from the left.\<close>

definition co2_tick :: "pyenv \<Rightarrow> string \<Rightarrow> rat \<Rightarrow> nat \<Rightarrow> server \<Rightarrow> pyexc + server" where
  "co2_tick env key base i st =
     (let ts = now env st;
          co2v = round_double env (round_double env (base + 50) + of_nat i * 25)
      in case sensor_data st key of
           None \<Rightarrow> Inl KeyError
         | Some d \<Rightarrow> Inr (set_sensor key (add_room ts None (Some co2v) None d) (tick st)))"

definition scenario_co2_high :: "pyenv \<Rightarrow> (string \<times> pyval) list option \<Rightarrow> server \<Rightarrow> server" where
  "scenario_co2_high env params st =
     (let room = dict_get (case params of None \<Rightarrow> [] | Some p \<Rightarrow> p) ''room'' (PStr ''1200400'');
          st1 = send_control_all env ''SCENARIO''
                  (Some [(''name'', PStr ''co2_high''), (''room'', room)]) st;
          key = (if py_eq room (PStr ''1200400'') then ''1200400'' else ''1211371'')
      in case sensor_data st1 key of
           None \<Rightarrow> st1
         | Some d \<Rightarrow> snd (ticks (co2_tick env key (last_or (co2 d) 800)) [0..<20] st1))"

text \<open>\<^verbatim>\<open>_scenario_car1\<close> and \<^verbatim>\<open>_scenario_car2\<close>, with \<^verbatim>\<open>temp = base + min(60, i*3)\<close>.\<close>

definition car_tick :: "pyenv \<Rightarrow> string \<Rightarrow> rat \<Rightarrow> nat \<Rightarrow> server \<Rightarrow> pyexc + server" where
  "car_tick env key base i st =
     (let ts = now env st;
          temp = round_double env (base + min 60 (of_nat i * 3))
      in case sensor_data st key of
           None \<Rightarrow> Inl KeyError
         | Some d \<Rightarrow> Inr (set_sensor key (add_car ts (Some temp) (PStr ''RUNNING'') d) (tick st)))"

definition scenario_car :: "pyenv \<Rightarrow> string \<Rightarrow> string \<Rightarrow> string \<Rightarrow> server \<Rightarrow> server" where
  "scenario_car env key label emoji st =
     (let st1 = send_control_all env ''SCENARIO'' (Some [(''name'', PStr key)]) st
      in case sensor_data st1 key of
           None \<Rightarrow> st1
         | Some d \<Rightarrow>
             (let st2 = add_event env [Lit (emoji @ '' '' @ label @ '' PARKED -> RUNNING'')]
                          (set_sensor key (d\<lparr>car_status := PStr ''RUNNING''\<rparr>) st1)
              in case ticks (car_tick env key (last_or (car_temp d) 25)) [0..<20] st2 of
                   (Some e, st3) \<Rightarrow> st3
                 | (None, st3) \<Rightarrow>
                     if running st3 then
                       (case sensor_data st3 key of
                          None \<Rightarrow> st3
                        | Some d3 \<Rightarrow>
                            add_event env [Lit (emoji @ '' '' @ label @ '' RUNNING -> OVERHEATING'')]
                              (set_sensor key (d3\<lparr>car_status := PStr ''OVERHEATING''\<rparr>) st3))
                     else st3))"

definition scenario_car1 :: "pyenv \<Rightarrow> (string \<times> pyval) list option \<Rightarrow> server \<Rightarrow> server" where
  "scenario_car1 env params st = scenario_car env ''car1'' ''Car1'' car_red st"

definition scenario_car2 :: "pyenv \<Rightarrow> (string \<times> pyval) list option \<Rightarrow> server \<Rightarrow> server" where
  "scenario_car2 env params st = scenario_car env ''car2'' ''Car2'' car_blue st"

text \<open>\<^verbatim>\<open>_scenario_normal\<close>: the reset of the latches and of the vehicle statuses.\<close>

definition normal_room :: "pyenv \<Rightarrow> string \<Rightarrow> server \<Rightarrow> pyexc + server" where
  "normal_room env room st =
     (case sensor_data st room of
        None \<Rightarrow> Inl KeyError
      | Some d \<Rightarrow>
          (let st1 = (if alarm_status d
                      then add_event env [Lit (bell @ '' ALARM_'' @ room @ '' -> OFF'')]
                             (set_sensor room (d\<lparr>alarm_status := False\<rparr>) st)
                      else st)
           in case sensor_data st1 room of
                None \<Rightarrow> Inl KeyError
              | Some d1 \<Rightarrow>
                  Inr (if sprinkler_status d1
                       then add_event env [Lit (drops @ '' SPRINKLER_'' @ room @ '' -> OFF'')]
                              (set_sensor room (d1\<lparr>sprinkler_status := False\<rparr>) st1)
                       else st1)))"

definition normal_car :: "pyenv \<Rightarrow> string \<Rightarrow> string \<Rightarrow> server \<Rightarrow> pyexc + server" where
  "normal_car env car_key upper st =
     (case sensor_data st car_key of
        None \<Rightarrow> Inl KeyError
      | Some d \<Rightarrow>
          (let old = car_status d
           in Inr (if \<not> py_eq old (PStr ''PARKED'')
                   then add_event env
                          (fstr [Lit (car_red @ '' '' @ upper @ '' ''), Val old, Lit '' -> PARKED''])
                          (set_sensor car_key (d\<lparr>car_status := PStr ''PARKED''\<rparr>) st)
                   else st)))"

definition scenario_normal :: "pyenv \<Rightarrow> (string \<times> pyval) list option \<Rightarrow> server \<Rightarrow> server" where
  "scenario_normal env params st =
     snd (try_seq
            [normal_room env ''1200400'', normal_room env ''1211371'',
             normal_car env ''car1'' ''CAR1'', normal_car env ''car2'' ''CAR2'']
            (send_control_all env ''SCENARIO'' (Some [(''name'', PStr ''normal'')]) st))"

text \<open>\<^verbatim>\<open>_scenario_test\<close>\<close>

definition test_texts :: "string list" where
  "test_texts =
     [''Sensor test passed'', ''Network OK'', ''Gateway heartbeat stable'',
      ''Parameters normal'', ''Automatic test sequence running'']"

definition test_tick :: "pyenv \<Rightarrow> nat \<Rightarrow> server \<Rightarrow> pyexc + server" where
  "test_tick env i st =
     Inr (add_event env [Lit (test_texts ! (random_choice env (clock st) mod 5))] st)"

definition scenario_test :: "pyenv \<Rightarrow> (string \<times> pyval) list option \<Rightarrow> server \<Rightarrow> server" where
  "scenario_test env params st =
     add_event env [Lit ''Test scenario completed'']
       (snd (ticks (test_tick env) [0..<5]
          (add_event env [Lit ''Test scenario started'']
             (send_control_all env ''SCENARIO'' (Some [(''name'', PStr ''test'')]) st))))"

text \<open>The registry \<^verbatim>\<open>self.scenarios\<close>: the method a name stands for.\<close>

definition scenarios ::
  "pyenv \<Rightarrow> string \<Rightarrow> ((string \<times> pyval) list option \<Rightarrow> server \<Rightarrow> server) option" where
  "scenarios env name =
     (if name = ''fire1'' then Some (scenario_fire1 env)
      else if name = ''fire2'' then Some (scenario_fire2 env)
      else if name = ''co2_high'' then Some (scenario_co2_high env)
      else if name = ''car1'' then Some (scenario_car1 env)
      else if name = ''car2'' then Some (scenario_car2 env)
      else if name = ''normal'' then Some (scenario_normal env)
      else if name = ''test'' then Some (scenario_test env)
      else None)"

text \<open>
  The \<^verbatim>\<open>scenario\<close> branch of \<^verbatim>\<open>_process_command\<close>, after the command line is parsed: a
  known name is recorded and its method started (here: run to its end); an unknown name
  changes nothing.
\<close>

definition scenario_command :: "pyenv \<Rightarrow> string \<Rightarrow> (string \<times> pyval) list \<Rightarrow> server \<Rightarrow> server" where
  "scenario_command env name params st =
     (case scenarios env name of
        None \<Rightarrow> st
      | Some run \<Rightarrow>
          run (Some params)
            (add_event env
               (fstr [Lit ''Running scenario: '', Lit name, Lit '' '',
                      (if params \<noteq> [] then Val (PDict params) else Lit [])]) st))"

section \<open>Sequences of calls\<close>

text \<open>A sequence of ingestion calls on one \<^verbatim>\<open>SensorData\<close> object, in call order.\<close>

datatype ingest =
    AddRoom rat "rat option" "rat option" "rat option"
  | AddCar rat "rat option" pyval

fun ingest_one :: "SensorData \<Rightarrow> ingest \<Rightarrow> SensorData" where
  "ingest_one d (AddRoom ts sm c f) = add_room ts sm c f d"
| "ingest_one d (AddCar ts temp status) = add_car ts temp status d"

fun ingest_ts :: "ingest \<Rightarrow> rat" where
  "ingest_ts (AddRoom ts sm c f) = ts"
| "ingest_ts (AddCar ts temp status) = ts"

definition ingest_all :: "nat \<Rightarrow> ingest list \<Rightarrow> SensorData" where
  "ingest_all max_points calls = foldl ingest_one (SensorData_init max_points) calls"

text \<open>
  The four per-metric sequences of an entity, and the value that a call is given for a
  metric: \<^verbatim>\<open>add_room\<close> gets a smoke, a CO2 and a fire value, \<^verbatim>\<open>add_car\<close> a temperature,
  each of them possibly \<^verbatim>\<open>None\<close>, which stands for 0.0.
\<close>

datatype metric = Smoke | Co2 | Fire | CarTemp

fun samples :: "metric \<Rightarrow> SensorData \<Rightarrow> rat deque" where
  "samples Smoke d = smoke d"
| "samples Co2 d = co2 d"
| "samples Fire d = fire d"
| "samples CarTemp d = car_temp d"

definition given_value :: "rat option \<Rightarrow> rat list" where
  "given_value v = (case v of None \<Rightarrow> [0] | Some x \<Rightarrow> [x])"

fun given :: "metric \<Rightarrow> ingest \<Rightarrow> rat list" where
  "given Smoke (AddRoom ts sm c f) = given_value sm"
| "given Co2 (AddRoom ts sm c f) = given_value c"
| "given Fire (AddRoom ts sm c f) = given_value f"
| "given CarTemp (AddCar ts temp status) = given_value temp"
| "given m call = []"

definition given_all :: "metric \<Rightarrow> ingest list \<Rightarrow> rat list" where
  "given_all m calls = concat (map (given m) calls)"

text \<open>
  What the block of \<^verbatim>\<open>_on_data\<close> for a vehicle reads from the payload, as \<open>room_sample\<close>
  is for a room: \<open>Inr None\<close> when neither of its two keys is there, the temperature and
  the status otherwise, or the exception of the conversion.
\<close>

definition car_sample ::
  "pyenv \<Rightarrow> pyval \<Rightarrow> string \<Rightarrow> string \<Rightarrow> pyexc + (rat \<times> pyval) option" where
  "car_sample env sensors kt kst =
     exc_bind (py_in_any [kt, kst] sensors) (\<lambda>present.
       if \<not> present then Inr None
       else
         exc_bind (read_float env sensors kt 25) (\<lambda>temp.
         exc_bind (py_get sensors kst (PStr ''UNKNOWN'')) (\<lambda>status.
           Inr (Some (temp, status)))))"

text \<open>The five sample sequences of an entity together.\<close>

definition sequences ::
  "SensorData \<Rightarrow> rat deque \<times> rat deque \<times> rat deque \<times> rat deque \<times> rat deque" where
  "sequences d = (timestamps d, smoke d, co2 d, fire d, car_temp d)"


text \<open>The capacity of the five sample sequences of an entity.\<close>

definition within_capacity :: "SensorData \<Rightarrow> bool" where
  "within_capacity d =
     (length (items (timestamps d)) \<le> maxlen (timestamps d) \<and>
      length (items (smoke d)) \<le> maxlen (smoke d) \<and>
      length (items (co2 d)) \<le> maxlen (co2 d) \<and>
      length (items (fire d)) \<le> maxlen (fire d) \<and>
      length (items (car_temp d)) \<le> maxlen (car_temp d))"

definition capacity_is :: "nat \<Rightarrow> SensorData \<Rightarrow> bool" where
  "capacity_is n d =
     (maxlen (timestamps d) = n \<and> maxlen (smoke d) = n \<and> maxlen (co2 d) = n \<and>
      maxlen (fire d) = n \<and> maxlen (car_temp d) = n)"

text \<open>
  What the threads of the server do to its state, one atomic action at a time: the accept
  loop, a connection handler (as a whole, or one decoded line of it), the operator's
  commands, a scenario (as a whole, or one iteration of one of its loops, so that
  iterations interleave with everything else), start and stop.
\<close>

datatype action =
    Accept sock addr
  | Handle sock addr "recv list"
  | Message sock addr string
  | Broadcast string "(string \<times> pyval) list option"
  | Control string bool
  | Scenario string "(string \<times> pyval) list"
  | FireTick bool rat nat
  | Co2Tick bool rat nat
  | CarTick bool rat nat
  | Start
  | Stop

definition room_key :: "bool \<Rightarrow> string" where
  "room_key first = (if first then ''1200400'' else ''1211371'')"

definition car_key :: "bool \<Rightarrow> string" where
  "car_key first = (if first then ''car1'' else ''car2'')"

definition or_same :: "server \<Rightarrow> pyexc + server \<Rightarrow> server" where
  "or_same st r = (case r of Inl e \<Rightarrow> st | Inr st' \<Rightarrow> st')"

fun step :: "pyenv \<Rightarrow> server \<Rightarrow> action \<Rightarrow> server" where
  "step env st (Accept s a) = accept_conn env s a st"
| "step env st (Handle s a rs) = snd (client_thread env s a rs st)"
| "step env st (Message s a line) = snd (process_message env s a line st)"
| "step env st (Broadcast command params) = send_control_all env command params st"
| "step env st (Control device state) = control_device env device state st"
| "step env st (Scenario name params) = scenario_command env name params st"
| "step env st (FireTick first base i) = or_same st (fire_tick env (room_key first) base i st)"
| "step env st (Co2Tick first base i) = or_same st (co2_tick env (room_key first) base i st)"
| "step env st (CarTick first base i) = or_same st (car_tick env (car_key first) base i st)"
| "step env st Start = start st"
| "step env st Stop = stop st"

definition run :: "pyenv \<Rightarrow> action list \<Rightarrow> server \<Rightarrow> server" where
  "run env acts st = foldl (step env) st acts"

text \<open>The part of the state that ingestion and the scenarios' entity updates leave alone.\<close>

definition net_of ::
  "server \<Rightarrow> bool \<times> (addr \<times> (sock \<times> rat \<times> pyval)) list \<times> (sock \<times> string) list \<times> sock list" where
  "net_of st = (running st, clients st, wire st, closed_socks st)"

text \<open>
  One write to the state of entity \<open>k\<close>, as the server makes them: room samples go to
  rooms and vehicle samples to vehicles; a latch is set, and cleared only where \<open>c\<close>
  allows it; the vehicle status is replaced.
\<close>

definition rooms :: "string set" where
  "rooms = {''1200400'', ''1211371''}"

definition cars :: "string set" where
  "cars = {''car1'', ''car2''}"

inductive upd :: "bool \<Rightarrow> string \<Rightarrow> SensorData \<Rightarrow> SensorData \<Rightarrow> bool" for c :: bool and k :: string where
  upd_room: "k \<in> rooms \<Longrightarrow> upd c k d (add_room ts sm co fi d)"
| upd_car: "k \<in> cars \<Longrightarrow> upd c k d (add_car ts temp status d)"
| upd_alarm_on: "upd c k d (d\<lparr>alarm_status := True\<rparr>)"
| upd_alarm_off: "c \<Longrightarrow> upd c k d (d\<lparr>alarm_status := False\<rparr>)"
| upd_sprinkler: "upd c k d (d\<lparr>sprinkler_status := b\<rparr>)"
| upd_status: "upd c k d (d\<lparr>car_status := s\<rparr>)"

definition evolves :: "bool \<Rightarrow> server \<Rightarrow> server \<Rightarrow> bool" where
  "evolves c st st' = (\<forall>k. rel_option (upd c k)\<^sup>*\<^sup>* (sensor_data st k) (sensor_data st' k))"

text \<open>An entity whose five sample sequences have capacity \<open>n\<close> and respect it.\<close>

definition bounded_by :: "nat \<Rightarrow> SensorData \<Rightarrow> bool" where
  "bounded_by n d = (within_capacity d \<and> capacity_is n d)"

text \<open>The alignment of the sample sequences of a room and of a vehicle.\<close>

definition room_aligned :: "SensorData \<Rightarrow> bool" where
  "room_aligned d =
     (maxlen (smoke d) = maxlen (timestamps d) \<and>
      maxlen (co2 d) = maxlen (timestamps d) \<and>
      maxlen (fire d) = maxlen (timestamps d) \<and>
      length (items (smoke d)) = length (items (timestamps d)) \<and>
      length (items (co2 d)) = length (items (timestamps d)) \<and>
      length (items (fire d)) = length (items (timestamps d)))"

definition car_aligned :: "SensorData \<Rightarrow> bool" where
  "car_aligned d =
     (maxlen (car_temp d) = maxlen (timestamps d) \<and>
      length (items (car_temp d)) = length (items (timestamps d)))"

definition entity_ok :: "(SensorData \<Rightarrow> bool) \<Rightarrow> server \<Rightarrow> string \<Rightarrow> bool" where
  "entity_ok P st k = (case sensor_data st k of None \<Rightarrow> False | Some d \<Rightarrow> P d)"

definition entities_aligned :: "server \<Rightarrow> bool" where
  "entities_aligned st =
     (entity_ok room_aligned st ''1200400'' \<and> entity_ok room_aligned st ''1211371'' \<and>
      entity_ok car_aligned st ''car1'' \<and> entity_ok car_aligned st ''car2'')"

text \<open>The alarm latch of an entity.\<close>

definition alarm :: "server \<Rightarrow> string \<Rightarrow> bool" where
  "alarm st k = entity_ok alarm_status st k"

text \<open>
  The actions that clear an alarm latch: the operator switching an alarm device off, and
  the reset scenario.
\<close>

definition clears :: "action \<Rightarrow> bool" where
  "clears act =
     (case act of
        Control device state \<Rightarrow> \<not> state \<and> take 6 device = ''ALARM_''
      | Scenario name params \<Rightarrow> name = ''normal''
      | _ \<Rightarrow> False)"

text \<open>
  \<^verbatim>\<open>_on_data\<close> gets as far as its four blocks when neither \<^verbatim>\<open>max(self.last_seq, seq)\<close> nor
  \<^verbatim>\<open>len(sensors)\<close> raises.
\<close>

definition reaches_blocks :: "(string \<times> pyval) list \<Rightarrow> server \<Rightarrow> bool" where
  "reaches_blocks data st =
     (case py_max (last_seq st) (dict_get data ''seq'' (PInt 0)) of
        Inl e \<Rightarrow> False
      | Inr m \<Rightarrow>
          (case py_len (dict_get data ''sensors'' (PDict [])) of
             Inl e \<Rightarrow> False
           | Inr n \<Rightarrow> True))"

text \<open>The states a sequence of actions goes through, and the rising edges of a flag.\<close>

fun states :: "pyenv \<Rightarrow> server \<Rightarrow> action list \<Rightarrow> server list" where
  "states env st [] = [st]"
| "states env st (act # acts) = st # states env (step env st act) acts"

fun rises :: "bool list \<Rightarrow> nat" where
  "rises (a # b # bs) = (if \<not> a \<and> b then 1 else 0) + rises (b # bs)"
| "rises bs = 0"

text \<open>
  The framing of section 4.1 of the specification, in its words: a text is a sequence of
  complete messages, each ended by a newline, and a trailing partial message.
\<close>

fun frames :: "string \<Rightarrow> string list \<times> string" where
  "frames [] = ([], [])"
| "frames (c # cs) =
     (case frames cs of
        (ls, t) \<Rightarrow>
          if c = newline then ([] # ls, t)
          else (case ls of [] \<Rightarrow> ([], c # t) | l # ls' \<Rightarrow> ((c # l) # ls', t)))"

text \<open>\<^verbatim>\<open>_process_message\<close> on each line of a list, in order.\<close>

fun process_lines :: "pyenv \<Rightarrow> sock \<Rightarrow> addr \<Rightarrow> string list \<Rightarrow> server \<Rightarrow> server" where
  "process_lines env sk a [] st = st"
| "process_lines env sk a (l # ls) st =
     process_lines env sk a ls (snd (process_message env sk a l st))"

text \<open>A line that is a JSON object, or that is not valid JSON.\<close>

definition accepted :: "pyenv \<Rightarrow> string \<Rightarrow> bool" where
  "accepted env line =
     (case json_loads env line of
        Inl e \<Rightarrow> e = JSONDecodeError
      | Inr v \<Rightarrow> (case v of PDict d \<Rightarrow> True | _ \<Rightarrow> False))"

text \<open>
  The bytes a sequence of reads delivers, and a read that is a timeout or delivers at
  least one byte and ends no character in the middle: decoding it drops nothing.
\<close>

fun received :: "recv list \<Rightarrow> string" where
  "received [] = []"
| "received (Recv bytes # rs) = bytes @ received rs"
| "received (r # rs) = received rs"

definition ascii :: "string \<Rightarrow> bool" where
  "ascii bytes = list_all (\<lambda>c. (of_char c :: nat) < 128) bytes"

definition plain_read :: "recv \<Rightarrow> bool" where
  "plain_read r =
     (case r of
        Recv bytes \<Rightarrow> bytes \<noteq> [] \<and> utf8_ignore bytes = bytes
      | RecvTimeout \<Rightarrow> True
      | RecvError e \<Rightarrow> False)"

section \<open>A concrete runtime and concrete inputs\<close>

text \<open>
  The closed theorems below evaluate the model on these lines. \<open>demo_loads\<close>,
  \<open>demo_dumps\<close> and \<open>demo_float\<close> give what \<^verbatim>\<open>json.loads\<close>, \<^verbatim>\<open>json.dumps\<close> and \<^verbatim>\<open>float\<close> return
  on the texts listed in them; they stand for nothing on any other text. The \<open>i\<close>-th
  reading of the demo clock is \<open>1000 + i\<close>, and writes to socket 2 fail. Every number
  that the examples compute is a small multiple of 1/2, which is a double: rounding
  leaves it as it is.
\<close>

definition hb_line :: string where
  \<open>hb_line = ''{"type":"HEARTBEAT","gateway_id":"GW-1","seq":1}''\<close>

definition hb2_line :: string where
  \<open>hb2_line = ''{"type":"HEARTBEAT","gateway_id":"GW-2","seq":2}''\<close>

definition smoke_line :: string where
  \<open>smoke_line = ''{"type":"DATA","gateway_id":"GW-1","seq":3,"sensors":{"smoke1":61.5}}''\<close>

definition calm_line :: string where
  \<open>calm_line = ''{"type":"DATA","gateway_id":"GW-1","seq":4,"sensors":{"smoke1":10.0}}''\<close>

definition car_line :: string where
  \<open>car_line = ''{"type":"DATA","seq":5,"sensors":{"car1_temp":30.0,"car1_status":"RUNNING"}}''\<close>

definition accent_line :: string where
  \<open>accent_line = ''{"gateway_id":"'' @ [CHR 0xC3, CHR 0xA9] @ ''"}''\<close>

definition bare_line :: string where
  \<open>bare_line = ''{"gateway_id":""}''\<close>

definition hb_data :: "(string \<times> pyval) list" where
  "hb_data = [(''type'', PStr ''HEARTBEAT''), (''gateway_id'', PStr ''GW-1''), (''seq'', PInt 1)]"

definition hb2_data :: "(string \<times> pyval) list" where
  "hb2_data = [(''type'', PStr ''HEARTBEAT''), (''gateway_id'', PStr ''GW-2''), (''seq'', PInt 2)]"

definition smoke_data :: "(string \<times> pyval) list" where
  "smoke_data =
     [(''type'', PStr ''DATA''), (''gateway_id'', PStr ''GW-1''), (''seq'', PInt 3),
      (''sensors'', PDict [(''smoke1'', PFloat (123 / 2))])]"

definition calm_data :: "(string \<times> pyval) list" where
  "calm_data =
     [(''type'', PStr ''DATA''), (''gateway_id'', PStr ''GW-1''), (''seq'', PInt 4),
      (''sensors'', PDict [(''smoke1'', PFloat 10)])]"

definition car_data :: "(string \<times> pyval) list" where
  "car_data =
     [(''type'', PStr ''DATA''), (''seq'', PInt 5),
      (''sensors'', PDict [(''car1_temp'', PFloat 30), (''car1_status'', PStr ''RUNNING'')])]"

definition second_data :: "(string \<times> pyval) list" where
  "second_data =
     [(''type'', PStr ''DATA''), (''gateway_id'', PStr ''GW-1''), (''seq'', PInt 6),
      (''sensors'', PDict [(''smoke2'', PFloat 70)])]"

definition demo_loads :: "string \<Rightarrow> pyexc + pyval" where
  "demo_loads line =
     (if line = hb_line then Inr (PDict hb_data)
      else if line = hb2_line then Inr (PDict hb2_data)
      else if line = smoke_line then Inr (PDict smoke_data)
      else if line = calm_line then Inr (PDict calm_data)
      else if line = car_line then Inr (PDict car_data)
      else if line = accent_line then Inr (PDict [(''gateway_id'', PStr [CHR 0xC3, CHR 0xA9])])
      else if line = bare_line then Inr (PDict [(''gateway_id'', PStr [])])
      else if line = ''5'' then Inr (PInt 5)
      else Inl JSONDecodeError)"

definition pause_text :: string where
  \<open>pause_text =
     ''{"type": "CONTROL", "command": "PAUSE", "params": {}, "timestamp": 1004.0}''\<close>

definition demo_dumps :: "pyval \<Rightarrow> string" where
  "demo_dumps v =
     (if v = PDict [(''type'', PStr ''CONTROL''), (''command'', PStr ''PAUSE''),
                    (''params'', PDict []), (''timestamp'', PFloat 1004)]
      then pause_text else [])"

definition demo_float :: "string \<Rightarrow> rat option" where
  "demo_float s = (if s = ''61.5'' then Some (123 / 2) else None)"

definition demo_env :: pyenv where
  "demo_env =
     \<lparr>json_loads = demo_loads,
      json_dumps = demo_dumps,
      float_str = demo_float,
      time_at = (\<lambda>i. 1000 + of_nat i),
      sendall_raises = (\<lambda>s msg. if s = 2 then Some OSError else None),
      random_choice = (\<lambda>i. i),
      round_double = (\<lambda>r. r)\<rparr>"

text \<open>A started server, with one and with three accepted connections.\<close>

definition gw1 :: addr where
  "gw1 = (''127.0.0.1'', 50001)"

definition gw2 :: addr where
  "gw2 = (''127.0.0.1'', 50002)"

definition gw3 :: addr where
  "gw3 = (''127.0.0.1'', 50003)"

definition server0 :: server where
  "server0 = start (CloudServer_init demo_env)"

definition server1 :: server where
  "server1 = accept_conn demo_env 1 gw1 server0"

definition server3 :: server where
  "server3 = accept_conn demo_env 3 gw3 (accept_conn demo_env 2 gw2 server1)"

text \<open>
  The heartbeat of the specification's example in two reads, and the line \<open>accent_line\<close>
  cut between the two bytes of its only character outside ASCII.
\<close>

definition hb_head :: string where
  \<open>hb_head = ''{"type":"HEARTBEAT"''\<close>

definition hb_tail :: string where
  \<open>hb_tail = '',"gateway_id":"GW-1","seq":1}''\<close>

definition accent_head :: string where
  \<open>accent_head = ''{"gateway_id":"'' @ [CHR 0xC3]\<close>

definition accent_tail :: string where
  \<open>accent_tail = [CHR 0xA9] @ ''"}''\<close>

section \<open>Capacity of the sample sequences\<close>

lemma dq_append_maxlen: "maxlen (dq_append q x) = maxlen q"
  by (simp add: dq_append_def Let_def)

lemma dq_append_length_le:
  "length (items q) \<le> maxlen q \<Longrightarrow> length (items (dq_append q x)) \<le> maxlen q"
  by (simp add: dq_append_def Let_def)

lemma dq_append_at_capacity:
  "length (items q) = maxlen q \<Longrightarrow> 0 < maxlen q \<Longrightarrow> items (dq_append q x) = tl (items q) @ [x]"
  by (cases "items q") (simp_all add: dq_append_def Let_def)

lemma dq_append_drop:
  assumes "items q = drop (length xs - maxlen q) xs"
  shows "items (dq_append q x) = drop (length (xs @ [x]) - maxlen q) (xs @ [x])"
proof (cases "length xs < maxlen q")
  case True
  with assms show ?thesis by (simp add: dq_append_def Let_def)
next
  case False
  then have le: "maxlen q \<le> length xs" by simp
  then have len: "length (items q) = maxlen q" using assms by simp
  show ?thesis
  proof (cases "maxlen q = 0")
    case True
    then show ?thesis using len by (simp add: dq_append_def Let_def)
  next
    case False
    have "Suc (length xs) - maxlen q = Suc (length xs - maxlen q)"
      using le by simp
    moreover have "tl (drop (length xs - maxlen q) xs) = drop (Suc (length xs - maxlen q)) xs"
      by (simp add: drop_Suc tl_drop)
    ultimately show ?thesis
      using len le False assms by (simp add: dq_append_def Let_def)
  qed
qed

lemma within_capacity_init: "within_capacity (SensorData_init n)"
  by (simp add: within_capacity_def SensorData_init_def deque_new_def)

lemma capacity_is_init: "capacity_is n (SensorData_init n)"
  by (simp add: capacity_is_def SensorData_init_def deque_new_def)

lemma within_capacity_add_room: "within_capacity d \<Longrightarrow> within_capacity (add_room ts sm c f d)"
  by (simp add: within_capacity_def add_room_def dq_append_maxlen dq_append_length_le)

lemma within_capacity_add_car: "within_capacity d \<Longrightarrow> within_capacity (add_car ts temp status d)"
  by (simp add: within_capacity_def add_car_def Let_def dq_append_maxlen dq_append_length_le)

lemma capacity_is_add_room: "capacity_is n d \<Longrightarrow> capacity_is n (add_room ts sm c f d)"
  by (simp add: capacity_is_def add_room_def dq_append_maxlen)

lemma capacity_is_add_car: "capacity_is n d \<Longrightarrow> capacity_is n (add_car ts temp status d)"
  by (simp add: capacity_is_def add_car_def Let_def dq_append_maxlen)

lemma within_capacity_foldl:
  "within_capacity d \<Longrightarrow> within_capacity (foldl ingest_one d calls)"
proof (induction calls arbitrary: d)
  case Nil
  then show ?case by simp
next
  case (Cons c calls)
  have "within_capacity (ingest_one d c)"
    using Cons.prems by (cases c) (simp_all add: within_capacity_add_room within_capacity_add_car)
  then show ?case using Cons.IH by simp
qed

lemma capacity_is_foldl:
  "capacity_is n d \<Longrightarrow> capacity_is n (foldl ingest_one d calls)"
proof (induction calls arbitrary: d)
  case Nil
  then show ?case by simp
next
  case (Cons c calls)
  have "capacity_is n (ingest_one d c)"
    using Cons.prems by (cases c) (simp_all add: capacity_is_add_room capacity_is_add_car)
  then show ?case using Cons.IH by simp
qed

lemma ingest_one_timestamps:
  "timestamps (ingest_one d c) = dq_append (timestamps d) (ingest_ts c)"
  by (cases c) (simp_all add: add_room_def add_car_def Let_def)

lemma timestamps_foldl_drop:
  "items (timestamps d) = drop (length pre - maxlen (timestamps d)) pre \<Longrightarrow>
   items (timestamps (foldl ingest_one d calls)) =
     drop (length (pre @ map ingest_ts calls) - maxlen (timestamps d)) (pre @ map ingest_ts calls)"
proof (induction calls arbitrary: d pre)
  case Nil
  then show ?case by simp
next
  case (Cons c calls)
  let ?d = "ingest_one d c"
  have m: "maxlen (timestamps ?d) = maxlen (timestamps d)"
    by (simp add: ingest_one_timestamps dq_append_maxlen)
  have "items (timestamps ?d) =
          drop (length (pre @ [ingest_ts c]) - maxlen (timestamps ?d)) (pre @ [ingest_ts c])"
    using dq_append_drop [OF Cons.prems, of "ingest_ts c"]
    by (simp add: ingest_one_timestamps dq_append_maxlen)
  from Cons.IH [OF this] show ?case by (simp add: m)
qed

lemma given_cases: "given m call = [] \<or> (\<exists>x. given m call = [x])"
  by (cases m; cases call) (simp_all add: given_value_def split: option.splits)

lemma samples_untouched: "given m call = [] \<Longrightarrow> samples m (ingest_one d call) = samples m d"
  by (cases m; cases call)
     (simp_all add: add_room_def add_car_def given_value_def Let_def split: option.splits)

lemma samples_appended:
  "given m call = [x] \<Longrightarrow> samples m (ingest_one d call) = dq_append (samples m d) x"
  by (cases m; cases call)
     (auto simp: add_room_def add_car_def given_value_def or_zero_def Let_def
           split: option.splits)

lemma samples_foldl_drop:
  "items (samples m d) = drop (length pre - maxlen (samples m d)) pre \<Longrightarrow>
   items (samples m (foldl ingest_one d calls)) =
     drop (length (pre @ given_all m calls) - maxlen (samples m d)) (pre @ given_all m calls)"
proof (induction calls arbitrary: d pre)
  case Nil
  then show ?case by (simp add: given_all_def)
next
  case (Cons c calls)
  let ?d = "ingest_one d c"
  show ?case
  proof (cases "given m c = []")
    case True
    then have same: "samples m ?d = samples m d" by (rule samples_untouched)
    have "items (samples m ?d) = drop (length pre - maxlen (samples m ?d)) pre"
      using Cons.prems by (simp add: same)
    from Cons.IH [OF this] show ?thesis using True by (simp add: same given_all_def)
  next
    case False
    then obtain x where x: "given m c = [x]" using given_cases [of m c] by blast
    then have app: "samples m ?d = dq_append (samples m d) x" by (rule samples_appended)
    have mx: "maxlen (samples m ?d) = maxlen (samples m d)"
      by (simp add: app dq_append_maxlen)
    have "items (samples m ?d) =
            drop (length (pre @ [x]) - maxlen (samples m ?d)) (pre @ [x])"
      using dq_append_drop [OF Cons.prems, of x] by (simp add: app dq_append_maxlen)
    from Cons.IH [OF this] show ?thesis using x by (simp add: mx given_all_def)
  qed
qed

lemma samples_init:
  "maxlen (samples m (SensorData_init n)) = n" "items (samples m (SensorData_init n)) = []"
  by (cases m; simp add: SensorData_init_def deque_new_def)+

lemma samples_ingest_all:
  "items (samples m (ingest_all n calls)) =
     drop (length (given_all m calls) - n) (given_all m calls)"
proof -
  have "items (samples m (SensorData_init n)) =
          drop (length ([]::rat list) - maxlen (samples m (SensorData_init n))) []"
    by (simp add: samples_init)
  from samples_foldl_drop [OF this, of calls] show ?thesis
    by (simp add: ingest_all_def samples_init)
qed

section \<open>Frame properties of the operations\<close>

declare drain.simps [simp del]

subsection \<open>What ingestion leaves alone\<close>

lemma net_of_prims [simp]:
  "net_of (tick st) = net_of st"
  "net_of (log_info l st) = net_of st"
  "net_of (add_event env msg st) = net_of st"
  "net_of (set_sensor key d st) = net_of st"
  by (simp_all add: net_of_def tick_def log_info_def add_event_def set_sensor_def)

lemma net_of_alarm_check [simp]: "net_of (alarm_check env key v st) = net_of st"
  by (simp add: alarm_check_def split: option.splits)

lemma net_of_sprinkler_check [simp]: "net_of (sprinkler_check env key v st) = net_of st"
  by (simp add: sprinkler_check_def split: option.splits)

lemma net_of_on_data_room:
  "on_data_room env key ks kc kf sensors ts st = Inr st' \<Longrightarrow> net_of st' = net_of st"
  by (auto simp: on_data_room_def exc_bind_def split: sum.splits option.splits prod.splits)

lemma net_of_on_data_car:
  "on_data_car env key label emoji kt kst sensors ts st = Inr st' \<Longrightarrow> net_of st' = net_of st"
  by (auto simp: on_data_car_def exc_bind_def Let_def split: sum.splits option.splits if_splits)

lemma net_of_try_seq:
  "(\<And>f s s'. f \<in> set fs \<Longrightarrow> f s = Inr s' \<Longrightarrow> net_of s' = net_of s) \<Longrightarrow>
   net_of (snd (try_seq fs st)) = net_of st"
proof (induction fs arbitrary: st)
  case Nil
  then show ?case by simp
next
  case (Cons f fs)
  show ?case
  proof (cases "f st")
    case (Inl e)
    then show ?thesis by simp
  next
    case (Inr s')
    have "net_of s' = net_of st" using Cons.prems [of f st s'] Inr by simp
    moreover have "net_of (snd (try_seq fs s')) = net_of s'"
      by (rule Cons.IH) (use Cons.prems in auto)
    ultimately show ?thesis using Inr by simp
  qed
qed

lemma net_of_blocks:
  "net_of (snd (try_seq (on_data_blocks env sensors ts) st)) = net_of st"
  by (rule net_of_try_seq)
     (auto simp: on_data_blocks_def dest: net_of_on_data_room net_of_on_data_car)

lemma net_of_on_data_body: "net_of (snd (on_data_body env data st)) = net_of st"
proof -
  have "net_of (st\<lparr>last_seq := m, packet_count := n\<rparr>) = net_of st" for m n
    by (simp add: net_of_def)
  then show ?thesis
    by (simp add: on_data_body_def Let_def net_of_blocks split: sum.splits)
qed

lemma net_of_on_data [simp]: "net_of (on_data env data st) = net_of st"
  using net_of_on_data_body [of env data st]
  by (cases "on_data_body env data st") (auto simp: on_data_def split: option.splits)

lemma net_of_on_heartbeat [simp]: "net_of (on_heartbeat data st) = net_of st"
  by (simp add: on_heartbeat_def)

lemma net_of_dispatch [simp]: "net_of (snd (dispatch env data st)) = net_of st"
  by (simp add: dispatch_def Let_def split: pyval.splits)

lemma running_process_message [simp]:
  "running (snd (process_message env sk a line st)) = running st"
proof -
  have r: "running s = fst (net_of s)" for s by (simp add: net_of_def)
  have "fst (net_of (snd (dispatch env data s))) = fst (net_of s)" for data s by simp
  then have d: "running (snd (dispatch env data s)) = running s" for data s
    by (simp add: net_of_def)
  show ?thesis
    by (simp add: process_message_def Let_def d tick_def log_info_def
             split: sum.splits option.splits prod.splits)
qed

subsection \<open>How the entity states evolve\<close>

lemma rel_option_rtranclp_refl [simp]: "rel_option (R\<^sup>*\<^sup>*) x x"
  by (cases x) simp_all

lemma evolves_refl [simp]: "evolves c st st"
  by (simp add: evolves_def)

lemma evolves_same: "sensor_data st' = sensor_data st \<Longrightarrow> evolves c st st'"
  by (simp add: evolves_def)

lemma evolves_trans: "evolves c st st1 \<Longrightarrow> evolves c st1 st2 \<Longrightarrow> evolves c st st2"
  unfolding evolves_def
proof
  fix k
  assume a: "\<forall>k. rel_option (upd c k)\<^sup>*\<^sup>* (sensor_data st k) (sensor_data st1 k)"
    and b: "\<forall>k. rel_option (upd c k)\<^sup>*\<^sup>* (sensor_data st1 k) (sensor_data st2 k)"
  from a have a': "rel_option (upd c k)\<^sup>*\<^sup>* (sensor_data st k) (sensor_data st1 k)" by simp
  from b have b': "rel_option (upd c k)\<^sup>*\<^sup>* (sensor_data st1 k) (sensor_data st2 k)" by simp
  show "rel_option (upd c k)\<^sup>*\<^sup>* (sensor_data st k) (sensor_data st2 k)"
    using a' b'
    by (cases "sensor_data st k"; cases "sensor_data st1 k"; cases "sensor_data st2 k") auto
qed

lemma evolves_set:
  "sensor_data st key = Some d \<Longrightarrow> upd c key d d' \<Longrightarrow> evolves c st (set_sensor key d' st)"
  by (auto simp: evolves_def set_sensor_def)

lemma evolves_prims [simp]:
  "evolves c st (tick st)"
  "evolves c st (log_info l st)"
  "evolves c st (add_event env msg st)"
  by (simp_all add: evolves_same tick_def log_info_def add_event_def)

lemma evolves_then_event:
  "evolves c st st' \<Longrightarrow> evolves c st (add_event env msg st')"
  by (erule evolves_trans) simp

lemma evolves_alarm_check [simp]: "evolves c st (alarm_check env key v st)"
  by (auto simp: alarm_check_def split: option.splits
           intro!: evolves_then_event evolves_set upd.intros)

lemma evolves_sprinkler_check [simp]: "evolves c st (sprinkler_check env key v st)"
  by (auto simp: sprinkler_check_def split: option.splits
           intro!: evolves_then_event evolves_set upd.intros)

lemma evolves_room_block:
  assumes "key \<in> rooms" "sensor_data st key = Some d"
  shows "evolves c st (sprinkler_check env key v (alarm_check env key v
           (set_sensor key (add_room ts sm co fi d) st)))"
proof -
  have "evolves c st (set_sensor key (add_room ts sm co fi d) st)"
    using assms by (auto intro!: evolves_set upd.intros)
  then show ?thesis
    by (blast intro: evolves_trans evolves_alarm_check evolves_sprinkler_check)
qed

lemma evolves_on_data_room:
  "key \<in> rooms \<Longrightarrow> on_data_room env key ks kc kf sensors ts st = Inr st' \<Longrightarrow> evolves c st st'"
  by (auto simp: on_data_room_def exc_bind_def evolves_room_block
           split: sum.splits option.splits prod.splits)

lemma evolves_on_data_car:
  "key \<in> cars \<Longrightarrow> on_data_car env key label emoji kt kst sensors ts st = Inr st' \<Longrightarrow>
   evolves c st st'"
  by (auto simp: on_data_car_def exc_bind_def Let_def
           split: sum.splits option.splits if_splits
           intro!: evolves_then_event evolves_set upd.intros)

lemma evolves_try_seq:
  "(\<And>f s s'. f \<in> set fs \<Longrightarrow> f s = Inr s' \<Longrightarrow> evolves c s s') \<Longrightarrow>
   evolves c st (snd (try_seq fs st))"
proof (induction fs arbitrary: st)
  case Nil
  then show ?case by simp
next
  case (Cons f fs)
  show ?case
  proof (cases "f st")
    case (Inl e)
    then show ?thesis by simp
  next
    case (Inr s')
    have "evolves c st s'" using Cons.prems [of f st s'] Inr by simp
    moreover have "evolves c s' (snd (try_seq fs s'))"
      by (rule Cons.IH) (use Cons.prems in auto)
    ultimately show ?thesis using Inr by (auto intro: evolves_trans)
  qed
qed

lemma evolves_blocks: "evolves c st (snd (try_seq (on_data_blocks env sensors ts) st))"
  by (rule evolves_try_seq)
     (auto simp: on_data_blocks_def rooms_def cars_def
           dest: evolves_on_data_room [rotated] evolves_on_data_car [rotated])


lemma evolves_on_data_body: "evolves c st (snd (on_data_body env data st))"
proof -
  have a: "evolves c st (st\<lparr>last_seq := m, packet_count := n\<rparr>)" for m n
    by (simp add: evolves_same)
  have b: "evolves c st (snd (try_seq (on_data_blocks env sensors ts)
             (tick (log_info l (st\<lparr>last_seq := m, packet_count := n\<rparr>)))))" for sensors ts l m n
    by (rule evolves_trans [OF _ evolves_blocks]) (simp add: evolves_same tick_def log_info_def)
  show ?thesis
    by (simp add: on_data_body_def Let_def a b split: sum.splits)
qed

lemma evolves_on_data [simp]: "evolves c st (on_data env data st)"
  using evolves_on_data_body [of c st env data]
  by (cases "on_data_body env data st")
     (auto simp: on_data_def split: option.splits intro: evolves_trans)

lemma evolves_dispatch [simp]: "evolves c st (snd (dispatch env data st))"
  by (simp add: dispatch_def Let_def on_heartbeat_def split: pyval.splits)

lemma evolves_process_message [simp]:
  "evolves c st (snd (process_message env sk a line st))"
proof -
  have "evolves c st (snd (dispatch env data (tick st\<lparr>clients := cl\<rparr>)))" for data cl
    by (rule evolves_trans [OF _ evolves_dispatch]) (simp add: evolves_same tick_def)
  then show ?thesis
    by (simp add: process_message_def Let_def split: sum.splits option.splits prod.splits)
qed

lemma evolves_drain: "evolves c st (snd (snd (drain env sk a buf st)))"
proof (induction env sk a buf st rule: drain.induct)
  case (1 env sk a buf st)
  show ?case
  proof (cases "newline \<in> set buf")
    case False
    then show ?thesis by (simp add: drain.simps)
  next
    case True
    let ?line = "takeWhile (\<lambda>c. c \<noteq> newline) buf"
    let ?rest = "tl (dropWhile (\<lambda>c. c \<noteq> newline) buf)"
    obtain r st' where pm: "process_message env sk a ?line st = (r, st')"
      by (cases "process_message env sk a ?line st")
    have e1: "evolves c st st'"
      using evolves_process_message [of c st env sk a ?line] pm by simp
    show ?thesis
    proof (cases r)
      case None
      have "evolves c st' (snd (snd (drain env sk a ?rest st')))"
        using "1.IH" [OF True refl refl pm [symmetric]] None by simp
      then show ?thesis
        using True pm None e1 by (subst drain.simps) (auto simp: Let_def intro: evolves_trans)
    next
      case (Some e)
      then show ?thesis
        using True pm e1 by (subst drain.simps) (simp add: Let_def)
    qed
  qed
qed

lemma evolves_close_session [simp]: "evolves c st (close_session sk a st)"
  by (simp add: close_session_def evolves_same log_info_def)

lemma evolves_client_loop: "evolves c st (snd (client_loop env sk a rs buf st))"
proof (induction rs arbitrary: buf st)
  case Nil
  then show ?case by simp
next
  case (Cons r rs)
  show ?case
  proof (cases "running st")
    case False
    then show ?thesis by simp
  next
    case True
    show ?thesis
    proof (cases r)
      case RecvTimeout
      then show ?thesis using True Cons.IH by simp
    next
      case (RecvError e)
      have "evolves c st (log_info (LogClientError a e) st)" by simp
      from evolves_trans [OF this Cons.IH [of "log_info (LogClientError a e) st" buf]]
      show ?thesis using True RecvError by simp
    next
      case (Recv bytes)
      show ?thesis
      proof (cases "bytes = []")
        case True
        then show ?thesis using Recv \<open>running st\<close> by simp
      next
        case False
        obtain r' buf' st' where d: "drain env sk a (buf @ utf8_ignore bytes) st = (r', buf', st')"
          by (cases "drain env sk a (buf @ utf8_ignore bytes) st") auto
        have e1: "evolves c st st'"
          using evolves_drain [of c st env sk a "buf @ utf8_ignore bytes"] d by simp
        show ?thesis
        proof (cases r')
          case None
          from evolves_trans [OF e1 Cons.IH [of st' buf']]
          show ?thesis using True Recv False d None by simp
        next
          case (Some e)
          have "evolves c st (log_info (LogClientError a e) st')"
            using e1 by (rule evolves_trans) simp
          from evolves_trans [OF this Cons.IH [of "log_info (LogClientError a e) st'" buf']]
          show ?thesis using True Recv False d Some by simp
        qed
      qed
    qed
  qed
qed

lemma sensor_data_send_each [simp]:
  "sensor_data (send_each env command params msg cs st) = sensor_data st"
  by (induction cs arbitrary: st) (auto simp: log_info_def split: option.splits)

lemma sensor_data_send_control_all [simp]:
  "sensor_data (send_control_all env command params st) = sensor_data st"
  by (simp add: send_control_all_def Let_def tick_def)

lemma evolves_send_control_all [simp]: "evolves c st (send_control_all env command params st)"
  by (simp add: evolves_same)

lemma evolves_set_event:
  "sensor_data st key = Some d \<Longrightarrow> upd c key d d' \<Longrightarrow>
   evolves c st (add_event env msg (set_sensor key d' st))"
  by (rule evolves_then_event) (rule evolves_set)

lemma evolves_control_device_any [simp]: "evolves True st (control_device env device state st)"
proof -
  have a: "upd True k d (d\<lparr>alarm_status := state\<rparr>)" for k d
    by (cases state) (auto intro: upd.intros)
  have s: "upd True k d (d\<lparr>sprinkler_status := state\<rparr>)" for k d
    by (rule upd.intros)
  show ?thesis
    unfolding control_device_def Let_def
    by (simp add: evolves_set_event a s split: option.splits)
qed

lemma evolves_control_device:
  assumes "state \<or> take 6 device \<noteq> ''ALARM_''"
  shows "evolves c st (control_device env device state st)"
proof (cases "take 6 device = ''ALARM_''")
  case True
  with assms have state by simp
  then have a: "upd c k d (d\<lparr>alarm_status := state\<rparr>)" for k d
    by (auto intro: upd.intros)
  show ?thesis
    unfolding control_device_def Let_def using True
    by (simp add: evolves_set_event a split: option.splits)
next
  case False
  have s: "upd c k d (d\<lparr>sprinkler_status := state\<rparr>)" for k d
    by (rule upd.intros)
  show ?thesis
    unfolding control_device_def Let_def using False
    by (simp add: evolves_set_event s split: option.splits)
qed


lemma evolves_ticks:
  "(\<And>i s s'. body i s = Inr s' \<Longrightarrow> evolves c s s') \<Longrightarrow> evolves c st (snd (ticks body is st))"
proof (induction "is" arbitrary: st)
  case Nil
  then show ?case by simp
next
  case (Cons i "is")
  show ?case
  proof (cases "running st")
    case False
    then show ?thesis by simp
  next
    case True
    show ?thesis
    proof (cases "body i st")
      case (Inl e)
      then show ?thesis using True by simp
    next
      case (Inr s')
      have e1: "evolves c st s'" using Cons.prems Inr by simp
      have "evolves c s' (snd (ticks body is s'))"
        by (rule Cons.IH) (rule Cons.prems)
      from evolves_trans [OF e1 this] show ?thesis using Inr True by simp
    qed
  qed
qed

lemma evolves_tick_set:
  "sensor_data st key = Some d \<Longrightarrow> upd c key d d' \<Longrightarrow> evolves c st (set_sensor key d' (tick st))"
  by (simp add: evolves_def set_sensor_def tick_def)

lemma evolves_fire_tick:
  assumes k: "key \<in> rooms" and f: "fire_tick env key base i st = Inr st'"
  shows "evolves c st st'"
proof (cases "sensor_data st key")
  case None
  with f show ?thesis by (simp add: fire_tick_def Let_def)
next
  case (Some d)
  then have d': "sensor_data (tick st) key = Some d" by (simp add: tick_def)
  define v where
    "v = round_double env (base + min 25 (round_double env (of_nat i * round_double env (4 / 5))))"
  have "Inr st' = (Inr (sprinkler_check env key v (alarm_check env key v
          (set_sensor key (add_room (now env st) (Some v) (Some (round_double env (v * 10)))
             (Some (round_double env (v * round_double env (3 / 5)))) d)
             (tick st)))) :: pyexc + server)"
    using f Some unfolding fire_tick_def Let_def v_def by simp
  then have "evolves c (tick st) st'"
    using evolves_room_block [OF k d', of c env v] by simp
  then show ?thesis by (rule evolves_trans [OF evolves_prims(1)])
qed

lemma evolves_co2_tick:
  assumes k: "key \<in> rooms" and f: "co2_tick env key base i st = Inr st'"
  shows "evolves c st st'"
proof (cases "sensor_data st key")
  case None
  with f show ?thesis by (simp add: co2_tick_def Let_def)
next
  case (Some d)
  have "upd c key d (add_room ts None v None d)" for ts v
    using k by (rule upd.intros)
  then show ?thesis
    using f Some by (auto simp: co2_tick_def Let_def intro: evolves_tick_set)
qed

lemma evolves_car_tick:
  assumes k: "key \<in> cars" and f: "car_tick env key base i st = Inr st'"
  shows "evolves c st st'"
proof (cases "sensor_data st key")
  case None
  with f show ?thesis by (simp add: car_tick_def Let_def)
next
  case (Some d)
  have "upd c key d (add_car ts v s d)" for ts v s
    using k by (rule upd.intros)
  then show ?thesis
    using f Some by (auto simp: car_tick_def Let_def intro: evolves_tick_set)
qed


lemma evolves_scenario_fire:
  assumes "key \<in> rooms"
  shows "evolves c st (scenario_fire env key name dflt st)"
proof -
  let ?st1 = "send_control_all env ''SCENARIO'' (Some [(''name'', PStr name), (''room'', PStr key)]) st"
  have s: "evolves c st ?st1" by simp
  have t: "evolves c ?st1 (snd (ticks (fire_tick env key base) is ?st1))" for base "is"
    by (rule evolves_ticks) (rule evolves_fire_tick [OF assms])
  show ?thesis
    unfolding scenario_fire_def Let_def
    by (simp add: s evolves_trans [OF s t] split: option.splits)
qed

lemma evolves_scenario_co2_high: "evolves c st (scenario_co2_high env params st)"
proof -
  define room where
    "room = dict_get (case params of None \<Rightarrow> [] | Some p \<Rightarrow> p) ''room'' (PStr ''1200400'')"
  define key where "key = (if py_eq room (PStr ''1200400'') then ''1200400'' else ''1211371'')"
  let ?st1 = "send_control_all env ''SCENARIO''
                (Some [(''name'', PStr ''co2_high''), (''room'', room)]) st"
  have k: "key \<in> rooms" by (simp add: key_def rooms_def)
  have s: "evolves c st ?st1" by simp
  have t: "evolves c ?st1 (snd (ticks (co2_tick env key base) is ?st1))" for base "is"
    by (rule evolves_ticks) (rule evolves_co2_tick [OF k])
  show ?thesis
    unfolding scenario_co2_high_def Let_def room_def [symmetric] key_def [symmetric]
    by (simp add: s evolves_trans [OF s t] split: option.splits)
qed

lemma evolves_scenario_car:
  assumes k: "key \<in> cars"
  shows "evolves c st (scenario_car env key label emoji st)"
proof -
  let ?st1 = "send_control_all env ''SCENARIO'' (Some [(''name'', PStr key)]) st"
  have s: "evolves c st ?st1" by simp
  show ?thesis
  proof (cases "sensor_data ?st1 key")
    case None
    then show ?thesis unfolding scenario_car_def Let_def by (simp add: s)
  next
    case (Some d)
    let ?st2 = "add_event env [Lit (emoji @ '' '' @ label @ '' PARKED -> RUNNING'')]
                  (set_sensor key (d\<lparr>car_status := PStr ''RUNNING''\<rparr>) ?st1)"
    have e2: "evolves c ?st1 ?st2"
      using Some by (intro evolves_set_event) (auto intro: upd.intros)
    obtain r st3 where t: "ticks (car_tick env key (last_or (car_temp d) 25)) [0..<20] ?st2 = (r, st3)"
      by (cases "ticks (car_tick env key (last_or (car_temp d) 25)) [0..<20] ?st2")
    have "evolves c ?st2 (snd (ticks (car_tick env key (last_or (car_temp d) 25)) [0..<20] ?st2))"
      by (rule evolves_ticks) (rule evolves_car_tick [OF k])
    then have e3: "evolves c ?st2 st3" using t by simp
    have e13: "evolves c st st3"
      by (rule evolves_trans [OF s evolves_trans [OF e2 e3]])
    have fin: "evolves c st
        (add_event env msg (set_sensor key (d3\<lparr>car_status := PStr ''OVERHEATING''\<rparr>) st3))"
      if "sensor_data st3 key = Some d3" for d3 msg
      by (rule evolves_trans [OF e13]) (rule evolves_set_event [OF that], rule upd.intros)
    show ?thesis
      unfolding scenario_car_def Let_def
      using Some t e13 fin by (simp split: option.splits)
  qed
qed

lemma evolves_normal_room:
  assumes n: "normal_room env room st = Inr st'"
  shows "evolves True st st'"
proof -
  from n obtain d where d: "sensor_data st room = Some d"
    by (auto simp: normal_room_def split: option.splits)
  let ?st1 = "if alarm_status d
              then add_event env [Lit (bell @ '' ALARM_'' @ room @ '' -> OFF'')]
                     (set_sensor room (d\<lparr>alarm_status := False\<rparr>) st)
              else st"
  have e1: "evolves True st ?st1"
    using d by (auto intro!: evolves_set_event intro: upd.intros)
  from n d obtain d1 where d1: "sensor_data ?st1 room = Some d1"
    and st': "st' = (if sprinkler_status d1
                     then add_event env [Lit (drops @ '' SPRINKLER_'' @ room @ '' -> OFF'')]
                            (set_sensor room (d1\<lparr>sprinkler_status := False\<rparr>) ?st1)
                     else ?st1)"
    by (auto simp: normal_room_def Let_def split: option.splits)
  have e2: "evolves True ?st1 st'"
    unfolding st' using d1 by (auto intro!: evolves_set_event intro: upd.intros)
  show ?thesis by (rule evolves_trans [OF e1 e2])
qed

lemma evolves_normal_car:
  "normal_car env ck upper st = Inr st' \<Longrightarrow> evolves c st st'"
  by (auto simp: normal_car_def Let_def split: option.splits if_splits
           intro!: evolves_set_event intro: upd.intros)

lemma evolves_scenario_normal: "evolves True st (scenario_normal env params st)"
proof -
  let ?st1 = "send_control_all env ''SCENARIO'' (Some [(''name'', PStr ''normal'')]) st"
  have "evolves True ?st1 (snd (try_seq
            [normal_room env ''1200400'', normal_room env ''1211371'',
             normal_car env ''car1'' ''CAR1'', normal_car env ''car2'' ''CAR2''] ?st1))"
    by (rule evolves_try_seq) (auto dest: evolves_normal_room evolves_normal_car)
  then show ?thesis
    unfolding scenario_normal_def by (rule evolves_trans [OF evolves_send_control_all])
qed

lemma evolves_scenario_test: "evolves c st (scenario_test env params st)"
proof -
  let ?st1 = "add_event env [Lit ''Test scenario started'']
                (send_control_all env ''SCENARIO'' (Some [(''name'', PStr ''test'')]) st)"
  have s: "evolves c st ?st1" by (rule evolves_then_event) simp
  have "evolves c ?st1 (snd (ticks (test_tick env) [0..<5] ?st1))"
    by (rule evolves_ticks) (auto simp: test_tick_def)
  then have "evolves c st (snd (ticks (test_tick env) [0..<5] ?st1))"
    by (rule evolves_trans [OF s])
  then show ?thesis
    unfolding scenario_test_def by (rule evolves_then_event)
qed


lemma evolves_scenarios:
  assumes "scenarios env name = Some f" and "c \<or> name \<noteq> ''normal''"
  shows "evolves c st (f params st)"
proof (cases "name = ''normal''")
  case True
  then have "f = scenario_normal env" using assms(1) by (simp add: scenarios_def)
  moreover have c using assms(2) True by simp
  ultimately show ?thesis using evolves_scenario_normal [of st env params] by simp
next
  case False
  have r1: "''1200400'' \<in> rooms" and r2: "''1211371'' \<in> rooms"
    by (simp_all add: rooms_def)
  have c1: "''car1'' \<in> cars" and c2: "''car2'' \<in> cars"
    by (simp_all add: cars_def)
  note facts = evolves_scenario_fire [OF r1] evolves_scenario_fire [OF r2]
    evolves_scenario_car [OF c1] evolves_scenario_car [OF c2]
    evolves_scenario_co2_high evolves_scenario_test
  show ?thesis
    using assms(1) False
    by (auto simp: scenarios_def scenario_fire1_def scenario_fire2_def scenario_car1_def
                   scenario_car2_def facts
             split: if_splits)
qed

lemma evolves_scenario_command:
  assumes "c \<or> name \<noteq> ''normal''"
  shows "evolves c st (scenario_command env name params st)"
proof (cases "scenarios env name")
  case None
  then show ?thesis by (simp add: scenario_command_def)
next
  case (Some f)
  have "evolves c st (add_event env msg st)" for msg by simp
  from evolves_trans [OF this evolves_scenarios [OF Some assms]]
  show ?thesis using Some by (simp add: scenario_command_def)
qed

lemma evolves_step:
  assumes "c \<or> \<not> clears act"
  shows "evolves c st (step env st act)"
proof (cases act)
  case (Accept s a)
  then show ?thesis by (simp add: accept_conn_def evolves_same tick_def log_info_def)
next
  case (Handle s a rs)
  then show ?thesis by (simp add: client_thread_def evolves_client_loop)
next
  case (Message s a line)
  then show ?thesis by simp
next
  case (Broadcast command params)
  then show ?thesis by simp
next
  case (Control device state)
  show ?thesis
  proof (cases c)
    case True
    then show ?thesis using Control by simp
  next
    case False
    then have "state \<or> take 6 device \<noteq> ''ALARM_''"
      using assms Control by (auto simp: clears_def)
    then show ?thesis using Control by (simp add: evolves_control_device)
  qed
next
  case (Scenario name params)
  then have "c \<or> name \<noteq> ''normal''" using assms by (auto simp: clears_def)
  then show ?thesis using Scenario by (simp add: evolves_scenario_command)
next
  case (FireTick first base i)
  have "room_key first \<in> rooms" by (simp add: room_key_def rooms_def)
  then show ?thesis
    using FireTick by (auto simp: or_same_def split: sum.splits intro: evolves_fire_tick)
next
  case (Co2Tick first base i)
  have "room_key first \<in> rooms" by (simp add: room_key_def rooms_def)
  then show ?thesis
    using Co2Tick by (auto simp: or_same_def split: sum.splits intro: evolves_co2_tick)
next
  case (CarTick first base i)
  have "car_key first \<in> cars" by (simp add: car_key_def cars_def)
  then show ?thesis
    using CarTick by (auto simp: or_same_def split: sum.splits intro: evolves_car_tick)
next
  case Start
  then show ?thesis by (simp add: start_def evolves_same)
next
  case Stop
  then show ?thesis by (simp add: stop_def evolves_same log_info_def)
qed

lemma evolves_run:
  "(\<And>act. act \<in> set acts \<Longrightarrow> c \<or> \<not> clears act) \<Longrightarrow> evolves c st (run env acts st)"
proof (induction acts arbitrary: st)
  case Nil
  then show ?case by (simp add: run_def)
next
  case (Cons act acts)
  have e1: "evolves c st (step env st act)"
    by (rule evolves_step) (simp add: Cons.prems)
  have "evolves c (step env st act) (run env acts (step env st act))"
    by (rule Cons.IH) (simp add: Cons.prems)
  from evolves_trans [OF e1 this] show ?case by (simp add: run_def)
qed

subsection \<open>What an evolution preserves\<close>

lemma dq_append_same_length:
  "maxlen q1 = maxlen q2 \<Longrightarrow> length (items q1) = length (items q2) \<Longrightarrow>
   length (items (dq_append q1 x)) = length (items (dq_append q2 y))"
  by (simp add: dq_append_def Let_def)

lemma rooms_not_cars: "k \<in> rooms \<Longrightarrow> k \<notin> cars"
  by (auto simp: rooms_def cars_def)

lemma upd_room_aligned:
  "upd c k d d' \<Longrightarrow> k \<in> rooms \<Longrightarrow> room_aligned d \<Longrightarrow> room_aligned d'"
proof (induction rule: upd.induct)
  case (upd_room d ts sm co fi)
  then show ?case
    by (simp add: room_aligned_def add_room_def dq_append_maxlen dq_append_same_length)
next
  case (upd_car d ts temp status)
  then show ?case using rooms_not_cars by blast
qed (simp_all add: room_aligned_def)

lemma upd_car_aligned:
  "upd c k d d' \<Longrightarrow> k \<in> cars \<Longrightarrow> car_aligned d \<Longrightarrow> car_aligned d'"
proof (induction rule: upd.induct)
  case (upd_room d ts sm co fi)
  then show ?case using rooms_not_cars by blast
next
  case (upd_car d ts temp status)
  then show ?case
    by (simp add: car_aligned_def add_car_def Let_def dq_append_maxlen dq_append_same_length)
qed (simp_all add: car_aligned_def)

lemma upd_keeps_alarm: "upd False k d d' \<Longrightarrow> alarm_status d \<Longrightarrow> alarm_status d'"
  by (induction rule: upd.induct) (simp_all add: add_room_def add_car_def Let_def)

lemma rtrancl_preserves:
  assumes "R\<^sup>*\<^sup>* d d'" and "P d" and "\<And>x y. R x y \<Longrightarrow> P x \<Longrightarrow> P y"
  shows "P d'"
  using assms by (induction rule: rtranclp_induct) auto

lemma evolves_entity_ok:
  assumes "evolves c st st'" and "entity_ok P st k"
    and "\<And>x y. upd c k x y \<Longrightarrow> P x \<Longrightarrow> P y"
  shows "entity_ok P st' k"
proof -
  from assms(2) obtain d where d: "sensor_data st k = Some d" and p: "P d"
    by (auto simp: entity_ok_def split: option.splits)
  from assms(1) have "rel_option (upd c k)\<^sup>*\<^sup>* (sensor_data st k) (sensor_data st' k)"
    by (simp add: evolves_def)
  with d obtain d' where d': "sensor_data st' k = Some d'" and r: "(upd c k)\<^sup>*\<^sup>* d d'"
    by (cases "sensor_data st' k") auto
  have "P d'" by (rule rtrancl_preserves [where P = P, OF r p]) (rule assms(3))
  with d' show ?thesis by (simp add: entity_ok_def)
qed

lemma evolves_aligned:
  assumes e: "evolves c st st'" and a: "entities_aligned st"
  shows "entities_aligned st'"
proof -
  have room: "entity_ok room_aligned st' k" if "k \<in> rooms" "entity_ok room_aligned st k" for k
    by (rule evolves_entity_ok [OF e that(2)]) (rule upd_room_aligned [OF _ that(1)])
  have car: "entity_ok car_aligned st' k" if "k \<in> cars" "entity_ok car_aligned st k" for k
    by (rule evolves_entity_ok [OF e that(2)]) (rule upd_car_aligned [OF _ that(1)])
  show ?thesis
    using a unfolding entities_aligned_def
    by (simp add: room car rooms_def cars_def)
qed

lemma evolves_alarm: "evolves False st st' \<Longrightarrow> alarm st k \<Longrightarrow> alarm st' k"
  unfolding alarm_def by (erule evolves_entity_ok) (auto intro: upd_keeps_alarm)

lemma upd_bounded: "upd c k d d' \<Longrightarrow> bounded_by n d \<Longrightarrow> bounded_by n d'"
proof (induction rule: upd.induct)
  case (upd_room d ts sm co fi)
  then show ?case
    by (simp add: bounded_by_def within_capacity_add_room capacity_is_add_room)
next
  case (upd_car d ts temp status)
  then show ?case
    by (simp add: bounded_by_def within_capacity_add_car capacity_is_add_car)
qed (simp_all add: bounded_by_def within_capacity_def capacity_is_def)

lemma init_entities_bounded:
  "sensor_data (CloudServer_init env) k = Some d \<Longrightarrow> bounded_by MAX_DATA_POINTS d"
  by (auto simp: CloudServer_init_def add_event_def tick_def bounded_by_def
        within_capacity_init capacity_is_init split: if_splits)

lemma reachable_entities_bounded:
  assumes "sensor_data (run env acts (CloudServer_init env)) k = Some d"
  shows "bounded_by MAX_DATA_POINTS d"
proof -
  have "evolves True (CloudServer_init env) (run env acts (CloudServer_init env))"
    by (rule evolves_run) simp
  then have "rel_option (upd True k)\<^sup>*\<^sup>* (sensor_data (CloudServer_init env) k)
               (sensor_data (run env acts (CloudServer_init env)) k)"
    by (simp add: evolves_def)
  then have "rel_option (upd True k)\<^sup>*\<^sup>* (sensor_data (CloudServer_init env) k) (Some d)"
    using assms by simp
  then obtain d0 where d0: "sensor_data (CloudServer_init env) k = Some d0"
    and r: "(upd True k)\<^sup>*\<^sup>* d0 d"
    by (cases "sensor_data (CloudServer_init env) k") auto
  show ?thesis
    by (rule rtrancl_preserves [where P = "bounded_by MAX_DATA_POINTS", OF r
          init_entities_bounded [OF d0]])
       (rule upd_bounded)
qed

section \<open>Unfolding the model on concrete inputs\<close>


lemmas fixture_defs =
  demo_env_def demo_loads_def demo_dumps_def demo_float_def hb_line_def hb2_line_def
  smoke_line_def calm_line_def car_line_def accent_line_def bare_line_def hb_data_def
  hb2_data_def smoke_data_def calm_data_def car_data_def second_data_def pause_text_def gw1_def gw2_def gw3_def
  server0_def server1_def server3_def hb_head_def hb_tail_def
  accent_head_def accent_tail_def

lemmas prim_defs =
  start_def CloudServer_init_def accept_conn_def add_event_def tick_def log_info_def now_def
  set_sensor_def SensorData_init_def deque_new_def MAX_DATA_POINTS_def

lemmas data_defs =
  on_data_def on_data_body_def on_data_blocks_def on_data_room_def on_data_car_def
  room_sample_def read_float_def exc_bind_def py_get_def py_in_def py_len_def py_max_def
  py_float_def dict_get_def alarm_check_def sprinkler_check_def add_room_def add_car_def
  dq_append_def or_zero_def ALARM_THRESHOLD_def SPRINKLER_THRESHOLD_def

lemmas message_defs =
  process_message_def dispatch_def on_heartbeat_def

lemma aligned_init: "entities_aligned (CloudServer_init env)"
  by (simp add: entities_aligned_def entity_ok_def room_aligned_def car_aligned_def prim_defs)


section \<open>The alarm latch\<close>

lemma alarm_frame [simp]:
  "alarm (log_info l st) k = alarm st k"
  "alarm (tick st) k = alarm st k"
  "alarm (add_event env msg st) k = alarm st k"
  by (simp_all add: alarm_def entity_ok_def log_info_def tick_def add_event_def)

lemma alarm_check_sets:
  assumes "sensor_data st key = Some d" and "ALARM_THRESHOLD \<le> v"
  shows "alarm (alarm_check env key v st) key"
  using assms
  by (simp add: alarm_check_def alarm_def entity_ok_def set_sensor_def add_event_def tick_def)

lemma on_data_room_sets_alarm:
  assumes s: "room_sample env sensors ks kc kf = Inr (Some (v, c, f))"
    and p: "sensor_data st key = Some d" and v: "ALARM_THRESHOLD \<le> v"
  shows "\<exists>st'. on_data_room env key ks kc kf sensors ts st = Inr st' \<and> alarm st' key"
proof -
  let ?s1 = "set_sensor key (add_room ts (Some v) (Some c) (Some f) d) st"
  have "sensor_data ?s1 key = Some (add_room ts (Some v) (Some c) (Some f) d)"
    by (simp add: set_sensor_def)
  then have "alarm (alarm_check env key v ?s1) key" using v by (rule alarm_check_sets)
  then have "alarm (sprinkler_check env key v (alarm_check env key v ?s1)) key"
    by (rule evolves_alarm [OF evolves_sprinkler_check])
  then show ?thesis using s p by (simp add: on_data_room_def exc_bind_def)
qed

lemma on_data_room_total:
  assumes "room_sample env sensors ks kc kf = Inr r" and "sensor_data st key = Some d"
  shows "\<exists>st'. on_data_room env key ks kc kf sensors ts st = Inr st'"
  using assms by (cases r) (auto simp: on_data_room_def exc_bind_def)

lemma block_evolves:
  "f \<in> set (on_data_blocks env sensors ts) \<Longrightarrow> f s = Inr s' \<Longrightarrow> evolves c s s'"
  by (auto simp: on_data_blocks_def rooms_def cars_def
           dest: evolves_on_data_room [rotated] evolves_on_data_car [rotated])

lemma try_seq_keeps_alarm:
  assumes "set fs \<subseteq> set (on_data_blocks env sensors ts)" and "alarm s k"
  shows "alarm (snd (try_seq fs s)) k"
proof -
  have "evolves False s (snd (try_seq fs s))"
    by (rule evolves_try_seq) (use assms(1) in \<open>auto intro: block_evolves\<close>)
  then show ?thesis using assms(2) by (rule evolves_alarm)
qed

lemma on_data_unfold:
  assumes "reaches_blocks data st"
  shows "\<exists>s. sensor_data s = sensor_data st \<and>
           on_data_body env data st =
             try_seq (on_data_blocks env (dict_get data ''sensors'' (PDict [])) (now env s)) (tick s)"
  using assms
  by (auto simp: reaches_blocks_def on_data_body_def Let_def log_info_def
           split: sum.splits
           intro!: exI [of _ "log_info l (st\<lparr>last_seq := m, packet_count := n\<rparr>)" for l m n])

lemma on_data_alarm_of_body:
  "alarm (snd (on_data_body env data st)) k \<Longrightarrow> alarm (on_data env data st) k"
  by (cases "on_data_body env data st") (auto simp: on_data_def split: option.splits)

lemma on_data_keeps_alarm: "alarm st k \<Longrightarrow> alarm (on_data env data st) k"
  by (rule evolves_alarm [OF evolves_on_data])

lemma on_data_sets_alarm_first:
  assumes r: "reaches_blocks data st" and p: "sensor_data st ''1200400'' \<noteq> None"
    and s: "room_sample env (dict_get data ''sensors'' (PDict [])) ''smoke1'' ''co2_1'' ''fire1''
              = Inr (Some (v, c, f))"
    and v: "ALARM_THRESHOLD \<le> v"
  shows "alarm (on_data env data st) ''1200400''"
proof -
  let ?sensors = "dict_get data ''sensors'' (PDict [])"
  from on_data_unfold [OF r, of env] obtain s0 where
    sd: "sensor_data s0 = sensor_data st" and
    body: "on_data_body env data st = try_seq (on_data_blocks env ?sensors (now env s0)) (tick s0)"
    by blast
  let ?ts = "now env s0"
  let ?rest = "[on_data_room env ''1211371'' ''smoke2'' ''co2_2'' ''fire2'' ?sensors ?ts,
      on_data_car env ''car1'' ''Car1'' car_red ''car1_temp'' ''car1_status'' ?sensors ?ts,
      on_data_car env ''car2'' ''Car2'' car_blue ''car2_temp'' ''car2_status'' ?sensors ?ts]"
  from p sd obtain d where d: "sensor_data (tick s0) ''1200400'' = Some d"
    by (auto simp: tick_def)
  from on_data_room_sets_alarm [OF s d v, of ?ts] obtain s1 where
    b1: "on_data_room env ''1200400'' ''smoke1'' ''co2_1'' ''fire1'' ?sensors ?ts (tick s0) = Inr s1"
    and a1: "alarm s1 ''1200400''" by blast
  have "alarm (snd (try_seq ?rest s1)) ''1200400''"
    by (rule try_seq_keeps_alarm [OF _ a1, of _ env ?sensors ?ts])
       (auto simp: on_data_blocks_def)
  then have "alarm (snd (on_data_body env data st)) ''1200400''"
    using body b1 by (simp add: on_data_blocks_def)
  then show ?thesis by (rule on_data_alarm_of_body)
qed

lemma evolves_keeps_entity:
  "evolves c st st' \<Longrightarrow> sensor_data st k \<noteq> None \<Longrightarrow> sensor_data st' k \<noteq> None"
proof -
  assume e: "evolves c st st'" and p: "sensor_data st k \<noteq> None"
  from e have "rel_option (upd c k)\<^sup>*\<^sup>* (sensor_data st k) (sensor_data st' k)"
    by (simp add: evolves_def)
  with p show ?thesis by (cases "sensor_data st k"; cases "sensor_data st' k") auto
qed

lemma on_data_sets_alarm_second:
  assumes r: "reaches_blocks data st"
    and p1: "sensor_data st ''1200400'' \<noteq> None" and p2: "sensor_data st ''1211371'' \<noteq> None"
    and s1: "room_sample env (dict_get data ''sensors'' (PDict [])) ''smoke1'' ''co2_1'' ''fire1''
              = Inr r1"
    and s2: "room_sample env (dict_get data ''sensors'' (PDict [])) ''smoke2'' ''co2_2'' ''fire2''
              = Inr (Some (v, c, f))"
    and v: "ALARM_THRESHOLD \<le> v"
  shows "alarm (on_data env data st) ''1211371''"
proof -
  let ?sensors = "dict_get data ''sensors'' (PDict [])"
  from on_data_unfold [OF r, of env] obtain s0 where
    sd: "sensor_data s0 = sensor_data st" and
    body: "on_data_body env data st = try_seq (on_data_blocks env ?sensors (now env s0)) (tick s0)"
    by blast
  let ?ts = "now env s0"
  let ?rest = "[on_data_car env ''car1'' ''Car1'' car_red ''car1_temp'' ''car1_status'' ?sensors ?ts,
      on_data_car env ''car2'' ''Car2'' car_blue ''car2_temp'' ''car2_status'' ?sensors ?ts]"
  from p1 sd obtain d where d: "sensor_data (tick s0) ''1200400'' = Some d"
    by (auto simp: tick_def)
  from on_data_room_total [OF s1 d, of ?ts] obtain sa where
    b1: "on_data_room env ''1200400'' ''smoke1'' ''co2_1'' ''fire1'' ?sensors ?ts (tick s0) = Inr sa"
    by blast
  have "evolves False (tick s0) sa"
    by (rule evolves_on_data_room [OF _ b1]) (simp add: rooms_def)
  moreover have "sensor_data (tick s0) ''1211371'' \<noteq> None"
    using p2 sd by (simp add: tick_def)
  ultimately have "sensor_data sa ''1211371'' \<noteq> None" by (rule evolves_keeps_entity)
  then obtain d2 where d2: "sensor_data sa ''1211371'' = Some d2" by auto
  from on_data_room_sets_alarm [OF s2 d2 v, of ?ts] obtain sb where
    b2: "on_data_room env ''1211371'' ''smoke2'' ''co2_2'' ''fire2'' ?sensors ?ts sa = Inr sb"
    and a2: "alarm sb ''1211371''" by blast
  have "alarm (snd (try_seq ?rest sb)) ''1211371''"
    by (rule try_seq_keeps_alarm [OF _ a2, of _ env ?sensors ?ts])
       (auto simp: on_data_blocks_def)
  then have "alarm (snd (on_data_body env data st)) ''1211371''"
    using body b1 b2 by (simp add: on_data_blocks_def)
  then show ?thesis by (rule on_data_alarm_of_body)
qed

lemma alarm_persists:
  assumes "alarm st k" and "\<forall>act \<in> set acts. \<not> clears act"
  shows "alarm (run env acts st) k"
proof -
  have "evolves False st (run env acts st)"
    by (rule evolves_run) (use assms(2) in simp)
  then show ?thesis using assms(1) by (rule evolves_alarm)
qed

lemma step_keeps_alarm: "alarm st k \<Longrightarrow> \<not> clears act \<Longrightarrow> alarm (step env st act) k"
  by (rule evolves_alarm [OF evolves_step]) simp_all

lemma states_head: "\<exists>rest. states env st acts = st # rest"
  by (cases acts) simp_all

lemma rises_all_true: "\<forall>b \<in> set bs. b \<Longrightarrow> rises bs = 0"
  by (induction bs rule: rises.induct) auto

lemma states_all_alarm:
  "alarm st k \<Longrightarrow> \<forall>act \<in> set acts. \<not> clears act \<Longrightarrow> \<forall>s \<in> set (states env st acts). alarm s k"
proof (induction acts arbitrary: st)
  case Nil
  then show ?case by simp
next
  case (Cons act acts)
  have "alarm (step env st act) k"
    using Cons.prems by (simp add: step_keeps_alarm)
  then have "\<forall>s \<in> set (states env (step env st act) acts). alarm s k"
    using Cons.prems by (intro Cons.IH) simp_all
  then show ?case using Cons.prems(1) by simp
qed

lemma rises_at_most_once:
  "\<forall>act \<in> set acts. \<not> clears act \<Longrightarrow> rises (map (\<lambda>s. alarm s k) (states env st acts)) \<le> 1"
proof (induction acts arbitrary: st)
  case Nil
  then show ?case by simp
next
  case (Cons act acts)
  let ?s = "step env st act"
  from states_head [of env ?s acts] obtain rest where rest: "states env ?s acts = ?s # rest"
    by blast
  have nc: "\<forall>act \<in> set acts. \<not> clears act" using Cons.prems by simp
  show ?case
  proof (cases "alarm ?s k")
    case True
    have "\<forall>s \<in> set (states env ?s acts). alarm s k"
      using True nc by (rule states_all_alarm)
    then have "rises (map (\<lambda>s. alarm s k) (states env ?s acts)) = 0"
      by (intro rises_all_true) simp
    then show ?thesis using rest by simp
  next
    case False
    have "rises (map (\<lambda>s. alarm s k) (states env ?s acts)) \<le> 1"
      using nc by (rule Cons.IH)
    then show ?thesis using rest False by simp
  qed
qed

lemma control_off_clears:
  "sensor_data st k \<noteq> None \<Longrightarrow> \<not> alarm (control_device env (''ALARM_'' @ k) False st) k"
  by (auto simp: control_device_def alarm_def entity_ok_def set_sensor_def add_event_def tick_def)

lemma normal_room_result:
  assumes "sensor_data st room = Some d"
  shows "\<exists>st'. normal_room env room st = Inr st' \<and> \<not> alarm st' room \<and>
           (\<forall>k. k \<noteq> room \<longrightarrow> sensor_data st' k = sensor_data st k)"
  using assms
  by (auto simp: normal_room_def Let_def alarm_def entity_ok_def set_sensor_def add_event_def
                 tick_def)

lemma normal_car_other:
  "normal_car env ck up st = Inr st' \<Longrightarrow> k \<noteq> ck \<Longrightarrow> sensor_data st' k = sensor_data st k"
  by (auto simp: normal_car_def Let_def set_sensor_def add_event_def tick_def
           split: option.splits if_splits)

lemma try_seq_cars_other:
  assumes "k \<noteq> ''car1''" "k \<noteq> ''car2''"
  shows "sensor_data (snd (try_seq [normal_car env ''car1'' ''CAR1'', normal_car env ''car2'' ''CAR2''] s)) k
           = sensor_data s k"
proof (cases "normal_car env ''car1'' ''CAR1'' s")
  case (Inl e)
  then show ?thesis by simp
next
  case (Inr s1)
  note a = normal_car_other [OF Inr assms(1)]
  show ?thesis
  proof (cases "normal_car env ''car2'' ''CAR2'' s1")
    case (Inl e)
    then show ?thesis using Inr a by simp
  next
    case (Inr s2)
    then show ?thesis using \<open>normal_car env ''car1'' ''CAR1'' s = Inr s1\<close> a
        normal_car_other [OF Inr assms(2)] by simp
  qed
qed

lemma scenario_normal_clears:
  assumes k: "k \<in> rooms"
    and p1: "sensor_data st ''1200400'' \<noteq> None" and p2: "sensor_data st ''1211371'' \<noteq> None"
  shows "\<not> alarm (scenario_normal env params st) k"
proof -
  let ?s0 = "send_control_all env ''SCENARIO'' (Some [(''name'', PStr ''normal'')]) st"
  from p1 obtain d1 where d1: "sensor_data ?s0 ''1200400'' = Some d1" by auto
  from normal_room_result [OF d1, of env] obtain s1 where
    n1: "normal_room env ''1200400'' ?s0 = Inr s1" and a1: "\<not> alarm s1 ''1200400''"
    and o1: "\<forall>k. k \<noteq> ''1200400'' \<longrightarrow> sensor_data s1 k = sensor_data ?s0 k" by blast
  from p2 o1 obtain d2 where d2: "sensor_data s1 ''1211371'' = Some d2" by auto
  from normal_room_result [OF d2, of env] obtain s2 where
    n2: "normal_room env ''1211371'' s1 = Inr s2" and a2: "\<not> alarm s2 ''1211371''"
    and o2: "\<forall>k. k \<noteq> ''1211371'' \<longrightarrow> sensor_data s2 k = sensor_data s1 k" by blast
  have a12: "\<not> alarm s2 ''1200400''"
    using a1 o2 by (simp add: alarm_def entity_ok_def)
  let ?fin = "snd (try_seq [normal_car env ''car1'' ''CAR1'', normal_car env ''car2'' ''CAR2''] s2)"
  have kk: "k \<noteq> ''car1''" "k \<noteq> ''car2''" using k by (auto simp: rooms_def)
  have "sensor_data ?fin k = sensor_data s2 k" by (rule try_seq_cars_other [OF kk])
  then have "alarm ?fin k = alarm s2 k" by (simp add: alarm_def entity_ok_def)
  moreover have "\<not> alarm s2 k" using k a2 a12 by (auto simp: rooms_def)
  moreover have "scenario_normal env params st = ?fin"
    using n1 n2 by (simp add: scenario_normal_def)
  ultimately show ?thesis by simp
qed


section \<open>Lines and the handler\<close>

lemma log_info_fields [simp]:
  "running (log_info l st) = running st"
  "clients (log_info l st) = clients st"
  "sensor_data (log_info l st) = sensor_data st"
  "events (log_info l st) = events st"
  "packet_count (log_info l st) = packet_count st"
  "last_seq (log_info l st) = last_seq st"
  "clock (log_info l st) = clock st"
  "wire (log_info l st) = wire st"
  "closed_socks (log_info l st) = closed_socks st"
  "logged (log_info l st) = logged st @ [l]"
  by (simp_all add: log_info_def)

lemma drain_no_newline: "newline \<notin> set buf \<Longrightarrow> drain env sk a buf st = (None, buf, st)"
  by (simp add: drain.simps)

lemma split_first_line:
  assumes "newline \<notin> set line"
  shows "takeWhile (\<lambda>c. c \<noteq> newline) (line @ newline # rest) = line"
    and "tl (dropWhile (\<lambda>c. c \<noteq> newline) (line @ newline # rest)) = rest"
  using assms by (induction line) auto

lemma drain_line:
  assumes "newline \<notin> set line"
  shows "drain env sk a (line @ newline # rest) st =
           (case process_message env sk a line st of
              (None, st') \<Rightarrow> drain env sk a rest st'
            | (Some e, st') \<Rightarrow> (Some e, rest, st'))"
  by (subst drain.simps) (simp add: split_first_line [OF assms] Let_def)

lemma process_invalid:
  "json_loads env line = Inl JSONDecodeError \<Longrightarrow>
   process_message env sk a line st = (None, log_info (LogInvalidJSON a (py_prefix 80 line)) st)"
  by (simp add: process_message_def)


lemma clients_dispatch [simp]: "clients (snd (dispatch env data st)) = clients st"
  using net_of_dispatch [of env data st] by (simp add: net_of_def)

lemma dispatch_dict_ok [simp]: "fst (dispatch env (PDict d) st) = None"
  by (simp add: dispatch_def Let_def)

lemma process_object:
  assumes "json_loads env line = Inr (PDict d)" and "map_of (clients st) a = Some (s, seen, gw)"
  shows "process_message env sk a line st =
           dispatch env (PDict d)
             ((tick st)\<lparr>clients := AList.update a (s, now env st, dict_get d ''gateway_id'' gw)
                                  (clients st)\<rparr>)"
  using assms by (simp add: process_message_def Let_def py_get_def tick_def)

lemma process_object_unregistered:
  assumes "json_loads env line = Inr (PDict d)" and "map_of (clients st) a = None"
  shows "process_message env sk a line st = dispatch env (PDict d) st"
  using assms by (simp add: process_message_def)


lemma send_each_clients [simp]:
  "clients (send_each env command ps msg cs st) = clients st"
  by (induction cs arbitrary: st) (auto split: option.splits)

lemma send_each_wire:
  "wire (send_each env command ps msg cs st) =
     wire st @ map (\<lambda>(a, s, seen, gw). (s, msg))
                 (filter (\<lambda>(a, s, seen, gw). sendall_raises env s msg = None) cs)"
  by (induction cs arbitrary: st) (auto split: option.splits)

lemma send_each_logged:
  "logged (send_each env command ps msg cs st) =
     logged st @ map (\<lambda>(a, s, seen, gw).
                        case sendall_raises env s msg of
                          None \<Rightarrow> LogSent command a ps
                        | Some e \<Rightarrow> LogSendFailed command a e) cs"
  by (induction cs arbitrary: st) (auto split: option.splits)

lemma send_each_rest [simp]:
  "running (send_each env command ps msg cs st) = running st"
  "closed_socks (send_each env command ps msg cs st) = closed_socks st"
  "events (send_each env command ps msg cs st) = events st"
  by (induction cs arbitrary: st) (auto split: option.splits)

lemma delete_lookup: "map_of (AList.delete a cl) b = (if b = a then None else map_of cl b)"
  by (simp add: delete_conv')


lemma utf8_ignore_ascii: "ascii bytes \<Longrightarrow> utf8_ignore bytes = bytes"
  by (induction bytes) (simp_all add: ascii_def Let_def)

lemma frames_no_newline: "newline \<notin> set buf \<Longrightarrow> frames buf = ([], buf)"
  by (induction buf) auto

lemma frames_line:
  "newline \<notin> set line \<Longrightarrow>
   frames (line @ newline # rest) = (line # fst (frames rest), snd (frames rest))"
  by (induction line) (auto split: prod.splits)

lemma frames_tail_no_newline: "newline \<notin> set (snd (frames u))"
  by (induction u) (auto split: prod.splits list.splits)

lemma frames_append:
  "frames (u @ v) =
     (fst (frames u) @ fst (frames (snd (frames u) @ v)), snd (frames (snd (frames u) @ v)))"
  by (induction u) (auto split: prod.splits list.splits)

lemma buffer_split:
  assumes "newline \<in> set buf"
  shows "buf = takeWhile (\<lambda>c. c \<noteq> newline) buf @ newline # tl (dropWhile (\<lambda>c. c \<noteq> newline) buf)"
proof -
  have ne: "dropWhile (\<lambda>c. c \<noteq> newline) buf \<noteq> []" using assms by simp
  then have "hd (dropWhile (\<lambda>c. c \<noteq> newline) buf) = newline"
    using hd_dropWhile [of "\<lambda>c. c \<noteq> newline" buf] by simp
  then have "dropWhile (\<lambda>c. c \<noteq> newline) buf = newline # tl (dropWhile (\<lambda>c. c \<noteq> newline) buf)"
    using ne by (cases "dropWhile (\<lambda>c. c \<noteq> newline) buf") simp_all
  then show ?thesis
    using takeWhile_dropWhile_id [of "\<lambda>c. c \<noteq> newline" buf] by simp
qed

lemma accepted_ok: "accepted env line \<Longrightarrow> fst (process_message env sk a line st) = None"
  by (auto simp: accepted_def process_message_def Let_def py_get_def
           split: sum.splits pyval.splits option.splits)

lemma process_lines_append:
  "process_lines env sk a (xs @ ys) st = process_lines env sk a ys (process_lines env sk a xs st)"
  by (induction xs arbitrary: st) simp_all

lemma running_process_lines [simp]: "running (process_lines env sk a ls st) = running st"
  by (induction ls arbitrary: st) simp_all

lemma drain_frames:
  "list_all (accepted env) (fst (frames buf)) \<Longrightarrow>
   drain env sk a buf st = (None, snd (frames buf), process_lines env sk a (fst (frames buf)) st)"
proof (induction env sk a buf st rule: drain.induct)
  case (1 env sk a buf st)
  show ?case
  proof (cases "newline \<in> set buf")
    case False
    then show ?thesis by (simp add: drain_no_newline frames_no_newline)
  next
    case True
    let ?line = "takeWhile (\<lambda>c. c \<noteq> newline) buf"
    let ?rest = "tl (dropWhile (\<lambda>c. c \<noteq> newline) buf)"
    have nl: "newline \<notin> set ?line"
      using set_takeWhileD by fastforce
    have buf: "buf = ?line @ newline # ?rest" using True by (rule buffer_split)
    have fr: "frames buf = (?line # fst (frames ?rest), snd (frames ?rest))"
      using frames_line [OF nl, of ?rest] buf by simp
    have acc: "accepted env ?line" and accs: "list_all (accepted env) (fst (frames ?rest))"
      using "1.prems" fr by simp_all
    obtain st' where pm: "process_message env sk a ?line st = (None, st')"
      using accepted_ok [OF acc, of sk a st]
      by (cases "process_message env sk a ?line st") auto
    have "drain env sk a ?rest st' =
            (None, snd (frames ?rest), process_lines env sk a (fst (frames ?rest)) st')"
      using "1.IH" [OF True refl refl pm [symmetric] refl accs] .
    moreover have "drain env sk a buf st = drain env sk a ?rest st'"
      using True pm by (subst drain.simps) (simp add: Let_def)
    ultimately show ?thesis using fr pm by simp
  qed
qed

lemma client_loop_reads:
  "running st \<Longrightarrow> newline \<notin> set buf \<Longrightarrow> list_all plain_read rs \<Longrightarrow>
   list_all (accepted env) (fst (frames (buf @ received rs))) \<Longrightarrow>
   client_loop env sk a rs buf st =
     (Reading (snd (frames (buf @ received rs))),
      process_lines env sk a (fst (frames (buf @ received rs))) st)"
proof (induction rs arbitrary: buf st)
  case Nil
  then show ?case by (simp add: frames_no_newline)
next
  case (Cons r rs)
  show ?case
  proof (cases r)
    case RecvTimeout
    then show ?thesis using Cons by simp
  next
    case (RecvError e)
    then show ?thesis using Cons.prems by (simp add: plain_read_def)
  next
    case (Recv bytes)
    then have ne: "bytes \<noteq> []" and whole: "utf8_ignore bytes = bytes"
      using Cons.prems by (simp_all add: plain_read_def)
    let ?u = "buf @ bytes"
    have fa: "frames (buf @ received (r # rs)) =
        (fst (frames ?u) @ fst (frames (snd (frames ?u) @ received rs)),
         snd (frames (snd (frames ?u) @ received rs)))"
      using frames_append [of ?u "received rs"] Recv by simp
    have a1: "list_all (accepted env) (fst (frames ?u))"
      and a2: "list_all (accepted env) (fst (frames (snd (frames ?u) @ received rs)))"
      using Cons.prems(4) fa by simp_all
    have d: "drain env sk a (buf @ utf8_ignore bytes) st =
        (None, snd (frames ?u), process_lines env sk a (fst (frames ?u)) st)"
      using drain_frames [OF a1] by (simp add: whole)
    have "client_loop env sk a rs (snd (frames ?u)) (process_lines env sk a (fst (frames ?u)) st) =
        (Reading (snd (frames (snd (frames ?u) @ received rs))),
         process_lines env sk a (fst (frames (snd (frames ?u) @ received rs)))
           (process_lines env sk a (fst (frames ?u)) st))"
      using Cons.prems by (intro Cons.IH) (simp_all add: frames_tail_no_newline a2)
    then show ?thesis
      using Recv ne d Cons.prems(1) fa by (simp add: process_lines_append)
  qed
qed

text \<open>
  What the handler does guarantee. When no read ends inside a character (timeouts may come
  in between) and every complete line of the text received is a JSON object or is not
  valid JSON, the handler ends up still reading, with the unterminated tail of the text
  as its buffer and with the state that processing each complete line once, in order,
  gives; neither depends on how the reads cut the text.
\<close>

lemma client_thread_frames:
  "(running st \<and> list_all plain_read rs \<and>
    list_all (accepted env) (fst (frames (received rs))) \<longrightarrow>
      client_thread env sk a rs st =
        (Reading (snd (frames (received rs))),
         process_lines env sk a (fst (frames (received rs))) st)) \<and>
   (running st \<and> list_all plain_read rs \<and> list_all plain_read rs' \<and>
    received rs' = received rs \<and>
    list_all (accepted env) (fst (frames (received rs))) \<longrightarrow>
      client_thread env sk a rs' st = client_thread env sk a rs st)"
  using client_loop_reads [of st "[]" rs env sk a] client_loop_reads [of st "[]" rs' env sk a]
  by (simp add: client_thread_def)

text \<open>The heartbeat of the specification's example, cut in two, is processed once.\<close>

lemma split_heartbeat_processed_once:
  "hb_head @ hb_tail = hb_line \<and>
   client_thread demo_env 1 gw1 [Recv hb_head, RecvTimeout, Recv (hb_tail @ [newline])] server1 =
     (Reading [], snd (process_message demo_env 1 gw1 hb_line server1)) \<and>
   client_thread demo_env 1 gw1 [Recv (hb_line @ [newline])] server1 =
     (Reading [], snd (process_message demo_env 1 gw1 hb_line server1)) \<and>
   logged (snd (process_message demo_env 1 gw1 hb_line server1)) =
     logged server1 @ [LogHeartbeat (PInt 1) (PStr ''GW-1'')]"
proof -
  let ?rs = "[Recv hb_head, RecvTimeout, Recv (hb_tail @ [newline])]"
  let ?rs' = "[Recv (hb_line @ [newline])]"
  have j: "hb_head @ hb_tail = hb_line"
    by (simp add: hb_head_def hb_tail_def hb_line_def)
  have r: "running server1" by (simp add: fixture_defs prim_defs)
  have asc: "ascii hb_head" "ascii (hb_tail @ [newline])" "ascii (hb_line @ [newline])"
    by (simp_all add: ascii_def hb_head_def hb_tail_def hb_line_def newline_def)
  have p: "list_all plain_read ?rs"
    using asc [THEN utf8_ignore_ascii] by (simp add: plain_read_def hb_head_def)
  have p': "list_all plain_read ?rs'"
    using asc [THEN utf8_ignore_ascii] by (simp add: plain_read_def)
  have rc: "received ?rs = hb_line @ [newline]" using j by simp
  have rc': "received ?rs' = received ?rs" using rc by simp
  have nl: "newline \<notin> set hb_line" by (simp add: hb_line_def newline_def)
  have fr: "frames (hb_line @ [newline]) = ([hb_line], [])"
    using frames_line [OF nl, of "[]"] by simp
  have ac: "accepted demo_env hb_line"
    by (simp add: accepted_def fixture_defs)
  have lg: "logged (snd (process_message demo_env 1 gw1 hb_line server1)) =
     logged server1 @ [LogHeartbeat (PInt 1) (PStr ''GW-1'')]"
    by (simp add: fixture_defs prim_defs message_defs py_get_def dict_get_def Let_def)
  have fr': "frames (received ?rs) = ([hb_line], [])"
    unfolding rc by (rule fr)
  have ac': "list_all (accepted demo_env) (fst (frames (received ?rs)))"
    unfolding fr' using ac by simp
  note t = client_thread_frames [of server1 ?rs demo_env 1 gw1 ?rs']
  have "client_thread demo_env 1 gw1 ?rs server1 =
      (Reading (snd (frames (received ?rs))),
       process_lines demo_env 1 gw1 (fst (frames (received ?rs))) server1)"
    using t r p ac' by blast
  then have one: "client_thread demo_env 1 gw1 ?rs server1 =
      (Reading [], snd (process_message demo_env 1 gw1 hb_line server1))"
    unfolding fr' by simp
  have "client_thread demo_env 1 gw1 ?rs' server1 = client_thread demo_env 1 gw1 ?rs server1"
    using t r p p' rc' ac' by blast
  with one have two: "client_thread demo_env 1 gw1 ?rs' server1 =
      (Reading [], snd (process_message demo_env 1 gw1 hb_line server1))"
    by simp
  show ?thesis using j one two lg by blast
qed

section \<open>The scenarios and the ingestion path\<close>

lemma fire_tick_as_data_block:
  assumes "room_sample env sensors ks kc kf =
             Inr (Some (v, round_double env (v * 10), round_double env (v * round_double env (3 / 5))))"
    and "v = round_double env
               (base + min 25 (round_double env (of_nat i * round_double env (4 / 5))))"
  shows "fire_tick env key base i st = on_data_room env key ks kc kf sensors (now env st) (tick st)"
  using assms
  by (simp add: fire_tick_def on_data_room_def exc_bind_def Let_def tick_def split: option.splits)

lemma car_tick_events: "car_tick env key base i st = Inr st' \<Longrightarrow> events st' = events st"
  by (auto simp: car_tick_def Let_def set_sensor_def tick_def split: option.splits)

lemma ticks_events:
  "(\<And>i s s'. body i s = Inr s' \<Longrightarrow> events s' = events s) \<Longrightarrow>
   events (snd (ticks body is st)) = events st"
proof (induction "is" arbitrary: st)
  case Nil
  then show ?case by simp
next
  case (Cons i "is")
  show ?case
  proof (cases "body i st")
    case (Inl e)
    then show ?thesis by simp
  next
    case (Inr s')
    have "events (snd (ticks body is s')) = events s'"
      by (rule Cons.IH) (rule Cons.prems)
    then show ?thesis using Inr Cons.prems [OF Inr] by simp
  qed
qed

lemma events_send_control_all [simp]:
  "events (send_control_all env command params st) = events st"
  by (simp add: send_control_all_def Let_def tick_def)

lemma clock_send_control_all [simp]:
  "clock (send_control_all env command params st) = Suc (clock st)"
proof -
  have "clock (send_each env c ps msg cs s) = clock s" for c ps msg cs s
    by (induction cs arbitrary: s) (auto simp: log_info_def split: option.splits)
  then show ?thesis by (simp add: send_control_all_def Let_def tick_def)
qed

lemma scenario_car_first_event:
  assumes "sensor_data st key = Some d"
  shows "take (Suc (length (events st))) (events (scenario_car env key label emoji st)) =
           events st @ [(time_at env (Suc (clock st)),
                         [Lit (emoji @ '' '' @ label @ '' PARKED -> RUNNING'')])]"
proof -
  let ?st1 = "send_control_all env ''SCENARIO'' (Some [(''name'', PStr key)]) st"
  let ?ev = "(time_at env (Suc (clock st)), [Lit (emoji @ '' '' @ label @ '' PARKED -> RUNNING'')])"
  let ?st2 = "add_event env [Lit (emoji @ '' '' @ label @ '' PARKED -> RUNNING'')]
                (set_sensor key (d\<lparr>car_status := PStr ''RUNNING''\<rparr>) ?st1)"
  have d1: "sensor_data ?st1 key = Some d" using assms by simp
  have e2: "events ?st2 = events st @ [?ev]"
    by (simp add: add_event_def tick_def set_sensor_def now_def)
  obtain r st3 where t: "ticks (car_tick env key (last_or (car_temp d) 25)) [0..<20] ?st2 = (r, st3)"
    by (cases "ticks (car_tick env key (last_or (car_temp d) 25)) [0..<20] ?st2")
  have "events (snd (ticks (car_tick env key (last_or (car_temp d) 25)) [0..<20] ?st2)) = events ?st2"
    by (rule ticks_events) (rule car_tick_events)
  then have e3: "events st3 = events st @ [?ev]" using t e2 by simp
  have "\<exists>more. events (scenario_car env key label emoji st) = (events st @ [?ev]) @ more"
    unfolding scenario_car_def Let_def using d1 t e3
    by (auto simp: add_event_def tick_def set_sensor_def split: option.splits)
  then obtain more where "events (scenario_car env key label emoji st) = (events st @ [?ev]) @ more"
    by blast
  then show ?thesis by simp
qed


section \<open>What an ingestion appends\<close>

lemma sequences_latches [simp]:
  "sequences (d\<lparr>alarm_status := b\<rparr>) = sequences d"
  "sequences (d\<lparr>sprinkler_status := b\<rparr>) = sequences d"
  "sequences (d\<lparr>car_status := s\<rparr>) = sequences d"
  by (simp_all add: sequences_def)

lemma sequences_add_event [simp]:
  "sensor_data (add_event env msg st) = sensor_data st"
  by (simp add: add_event_def tick_def)

lemma sequences_alarm_check:
  "map_option sequences (sensor_data (alarm_check env key v st) k) =
   map_option sequences (sensor_data st k)"
  by (simp add: alarm_check_def set_sensor_def split: option.splits)

lemma sequences_sprinkler_check:
  "map_option sequences (sensor_data (sprinkler_check env key v st) k) =
   map_option sequences (sensor_data st k)"
  by (simp add: sprinkler_check_def set_sensor_def split: option.splits)

lemma sequences_room_block:
  "map_option sequences
     (sensor_data (sprinkler_check env key v (alarm_check env key v (set_sensor key d st))) key) =
   Some (sequences d)"
  by (simp add: sequences_sprinkler_check sequences_alarm_check set_sensor_def)

lemma on_data_room_appends:
  assumes "sensor_data st key = Some d"
    and "room_sample env sensors ks kc kf = Inr (Some (s, c, f))"
  shows "\<exists>st'. on_data_room env key ks kc kf sensors ts st = Inr st' \<and>
           map_option sequences (sensor_data st' key) =
             Some (sequences (add_room ts (Some s) (Some c) (Some f) d))"
  using assms sequences_room_block [of env key s "add_room ts (Some s) (Some c) (Some f) d" st]
  by (simp add: on_data_room_def exc_bind_def)

lemma on_data_car_sample:
  "on_data_car env key label emoji kt kst sensors ts st =
     exc_bind (car_sample env sensors kt kst) (\<lambda>r.
       case r of
         None \<Rightarrow> Inr st
       | Some (temp, status) \<Rightarrow>
           (case sensor_data st key of
              None \<Rightarrow> Inl KeyError
            | Some d \<Rightarrow>
                (let prev = car_status d;
                     st1 = set_sensor key (add_car ts (Some temp) status d) st
                 in Inr (if \<not> py_eq prev status
                         then add_event env
                                (fstr [Lit (emoji @ '' '' @ label @ '' ''), Val prev,
                                       Lit '' -> '', Val status]) st1
                         else st1))))"
  by (simp add: on_data_car_def car_sample_def exc_bind_def split: sum.splits)

lemma on_data_car_appends:
  assumes "sensor_data st key = Some d"
    and "car_sample env sensors kt kst = Inr (Some (t, status))"
  shows "\<exists>st'. on_data_car env key label emoji kt kst sensors ts st = Inr st' \<and>
           map_option sequences (sensor_data st' key) =
             Some (sequences (add_car ts (Some t) status d))"
  using assms by (simp add: on_data_car_sample exc_bind_def Let_def set_sensor_def)

lemma on_data_car_total:
  assumes "car_sample env sensors kt kst = Inr r" and "sensor_data st key = Some d"
  shows "\<exists>st'. on_data_car env key label emoji kt kst sensors ts st = Inr st'"
  using assms by (cases r) (auto simp: on_data_car_sample exc_bind_def Let_def)

lemma check_other:
  "k \<noteq> key \<Longrightarrow> sensor_data (alarm_check env key v st) k = sensor_data st k"
  "k \<noteq> key \<Longrightarrow> sensor_data (sprinkler_check env key v st) k = sensor_data st k"
  by (simp_all add: alarm_check_def sprinkler_check_def set_sensor_def split: option.splits)

lemma on_data_room_other:
  "on_data_room env key ks kc kf sensors ts st = Inr st' \<Longrightarrow> k \<noteq> key \<Longrightarrow>
   sensor_data st' k = sensor_data st k"
  by (auto simp: on_data_room_def exc_bind_def check_other set_sensor_def
           split: sum.splits option.splits)

lemma on_data_car_other:
  "on_data_car env key label emoji kt kst sensors ts st = Inr st' \<Longrightarrow> k \<noteq> key \<Longrightarrow>
   sensor_data st' k = sensor_data st k"
  by (auto simp: on_data_car_sample exc_bind_def Let_def set_sensor_def
           split: sum.splits option.splits if_splits)

lemma try_seq_other:
  "(\<And>f s s'. f \<in> set fs \<Longrightarrow> f s = Inr s' \<Longrightarrow> sensor_data s' k = sensor_data s k) \<Longrightarrow>
   sensor_data (snd (try_seq fs st)) k = sensor_data st k"
proof (induction fs arbitrary: st)
  case Nil
  then show ?case by simp
next
  case (Cons f fs)
  have rest: "sensor_data s' k = sensor_data s k" if "g \<in> set fs" "g s = Inr s'" for g s s'
    using Cons.prems [of g s s'] that by simp
  have first: "sensor_data s' k = sensor_data st k" if "f st = Inr s'" for s'
    using Cons.prems [of f st s'] that by simp
  show ?case
  proof (cases "f st")
    case (Inl e)
    then show ?thesis by simp
  next
    case (Inr st')
    have "sensor_data (snd (try_seq fs st')) k = sensor_data st' k"
      using rest by (rule Cons.IH)
    then show ?thesis using Inr first [OF Inr] by simp
  qed
qed

lemma on_data_start:
  assumes "reaches_blocks data st"
  shows "\<exists>s. sensor_data s = sensor_data st \<and>
           on_data_body env data st =
             try_seq (on_data_blocks env (dict_get data ''sensors'' (PDict [])) (now env st)) s"
proof -
  from assms obtain m n where
    m: "py_max (last_seq st) (dict_get data ''seq'' (PInt 0)) = Inr m" and
    n: "py_len (dict_get data ''sensors'' (PDict [])) = Inr n"
    by (auto simp: reaches_blocks_def split: sum.splits)
  let ?s = "tick (log_info (LogData (dict_get data ''seq'' (PInt 0))
                     (dict_get data ''gateway_id'' (PStr ''UNKNOWN'')) n)
               (st\<lparr>last_seq := m, packet_count := packet_count st + 1\<rparr>))"
  have "on_data_body env data st =
      try_seq (on_data_blocks env (dict_get data ''sensors'' (PDict [])) (now env st)) ?s"
    using m n by (simp add: on_data_body_def Let_def now_def log_info_def)
  moreover have "sensor_data ?s = sensor_data st" by (simp add: tick_def log_info_def)
  ultimately show ?thesis by blast
qed

lemma sensor_data_on_data:
  "sensor_data (on_data env data st) = sensor_data (snd (on_data_body env data st))"
  by (cases "on_data_body env data st") (auto simp: on_data_def split: option.splits)

text \<open>
  The entity of a block after the whole of \<^verbatim>\<open>_on_data\<close>: the blocks before it return,
  the block itself appends, and the blocks after it leave the entity alone whether they
  raise or not.
\<close>

lemma on_data_first_room:
  assumes r: "reaches_blocks data st" and p: "sensor_data st ''1200400'' = Some d"
    and s: "room_sample env (dict_get data ''sensors'' (PDict [])) ''smoke1'' ''co2_1'' ''fire1''
              = Inr (Some (sm, c, f))"
  shows "map_option sequences (sensor_data (on_data env data st) ''1200400'') =
           Some (sequences (add_room (now env st) (Some sm) (Some c) (Some f) d))"
proof -
  let ?sensors = "dict_get data ''sensors'' (PDict [])"
  let ?ts = "now env st"
  from on_data_start [OF r, of env] obtain s0 where
    sd: "sensor_data s0 = sensor_data st" and
    body: "on_data_body env data st = try_seq (on_data_blocks env ?sensors ?ts) s0"
    by blast
  let ?rest = "[on_data_room env ''1211371'' ''smoke2'' ''co2_2'' ''fire2'' ?sensors ?ts,
      on_data_car env ''car1'' ''Car1'' car_red ''car1_temp'' ''car1_status'' ?sensors ?ts,
      on_data_car env ''car2'' ''Car2'' car_blue ''car2_temp'' ''car2_status'' ?sensors ?ts]"
  have d0: "sensor_data s0 ''1200400'' = Some d" using p sd by simp
  from on_data_room_appends [OF d0 s, of ?ts] obtain s1 where
    b1: "on_data_room env ''1200400'' ''smoke1'' ''co2_1'' ''fire1'' ?sensors ?ts s0 = Inr s1"
    and a1: "map_option sequences (sensor_data s1 ''1200400'') =
       Some (sequences (add_room ?ts (Some sm) (Some c) (Some f) d))" by blast
  have "sensor_data (snd (try_seq ?rest s1)) ''1200400'' = sensor_data s1 ''1200400''"
    by (rule try_seq_other) (auto elim!: on_data_room_other on_data_car_other)
  then have "sensor_data (snd (on_data_body env data st)) ''1200400'' = sensor_data s1 ''1200400''"
    using body b1 by (simp add: on_data_blocks_def)
  then show ?thesis using a1 by (simp only: sensor_data_on_data)
qed

lemma on_data_second_room:
  assumes r: "reaches_blocks data st" and p1: "sensor_data st ''1200400'' \<noteq> None"
    and s1: "room_sample env (dict_get data ''sensors'' (PDict [])) ''smoke1'' ''co2_1'' ''fire1''
              = Inr r1"
    and p: "sensor_data st ''1211371'' = Some d"
    and s: "room_sample env (dict_get data ''sensors'' (PDict [])) ''smoke2'' ''co2_2'' ''fire2''
              = Inr (Some (sm, c, f))"
  shows "map_option sequences (sensor_data (on_data env data st) ''1211371'') =
           Some (sequences (add_room (now env st) (Some sm) (Some c) (Some f) d))"
proof -
  let ?sensors = "dict_get data ''sensors'' (PDict [])"
  let ?ts = "now env st"
  from on_data_start [OF r, of env] obtain s0 where
    sd: "sensor_data s0 = sensor_data st" and
    body: "on_data_body env data st = try_seq (on_data_blocks env ?sensors ?ts) s0"
    by blast
  let ?rest = "[on_data_car env ''car1'' ''Car1'' car_red ''car1_temp'' ''car1_status'' ?sensors ?ts,
      on_data_car env ''car2'' ''Car2'' car_blue ''car2_temp'' ''car2_status'' ?sensors ?ts]"
  from p1 sd obtain e1 where e1: "sensor_data s0 ''1200400'' = Some e1" by auto
  from on_data_room_total [OF s1 e1, of ?ts] obtain sa where
    b1: "on_data_room env ''1200400'' ''smoke1'' ''co2_1'' ''fire1'' ?sensors ?ts s0 = Inr sa"
    by blast
  have "sensor_data sa ''1211371'' = sensor_data s0 ''1211371''"
    by (rule on_data_room_other [OF b1]) simp
  then have d0: "sensor_data sa ''1211371'' = Some d" using p sd by simp
  from on_data_room_appends [OF d0 s, of ?ts] obtain sb where
    b2: "on_data_room env ''1211371'' ''smoke2'' ''co2_2'' ''fire2'' ?sensors ?ts sa = Inr sb"
    and a2: "map_option sequences (sensor_data sb ''1211371'') =
       Some (sequences (add_room ?ts (Some sm) (Some c) (Some f) d))" by blast
  have "sensor_data (snd (try_seq ?rest sb)) ''1211371'' = sensor_data sb ''1211371''"
    by (rule try_seq_other) (auto elim!: on_data_car_other)
  then have "sensor_data (snd (on_data_body env data st)) ''1211371'' = sensor_data sb ''1211371''"
    using body b1 b2 by (simp add: on_data_blocks_def)
  then show ?thesis using a2 by (simp only: sensor_data_on_data)
qed

lemma on_data_first_car:
  assumes r: "reaches_blocks data st"
    and p1: "sensor_data st ''1200400'' \<noteq> None" and p2: "sensor_data st ''1211371'' \<noteq> None"
    and s1: "room_sample env (dict_get data ''sensors'' (PDict [])) ''smoke1'' ''co2_1'' ''fire1''
              = Inr r1"
    and s2: "room_sample env (dict_get data ''sensors'' (PDict [])) ''smoke2'' ''co2_2'' ''fire2''
              = Inr r2"
    and p: "sensor_data st ''car1'' = Some d"
    and s: "car_sample env (dict_get data ''sensors'' (PDict [])) ''car1_temp'' ''car1_status''
              = Inr (Some (t, status))"
  shows "map_option sequences (sensor_data (on_data env data st) ''car1'') =
           Some (sequences (add_car (now env st) (Some t) status d))"
proof -
  let ?sensors = "dict_get data ''sensors'' (PDict [])"
  let ?ts = "now env st"
  from on_data_start [OF r, of env] obtain s0 where
    sd: "sensor_data s0 = sensor_data st" and
    body: "on_data_body env data st = try_seq (on_data_blocks env ?sensors ?ts) s0"
    by blast
  let ?rest = "[on_data_car env ''car2'' ''Car2'' car_blue ''car2_temp'' ''car2_status'' ?sensors ?ts]"
  from p1 sd obtain e1 where e1: "sensor_data s0 ''1200400'' = Some e1" by auto
  from on_data_room_total [OF s1 e1, of ?ts] obtain sa where
    b1: "on_data_room env ''1200400'' ''smoke1'' ''co2_1'' ''fire1'' ?sensors ?ts s0 = Inr sa"
    by blast
  have oa: "sensor_data sa k = sensor_data s0 k" if "k \<noteq> ''1200400''" for k
    by (rule on_data_room_other [OF b1 that])
  from p2 sd oa [of "''1211371''"] obtain e2 where e2: "sensor_data sa ''1211371'' = Some e2"
    by auto
  from on_data_room_total [OF s2 e2, of ?ts] obtain sb where
    b2: "on_data_room env ''1211371'' ''smoke2'' ''co2_2'' ''fire2'' ?sensors ?ts sa = Inr sb"
    by blast
  have ob: "sensor_data sb k = sensor_data sa k" if "k \<noteq> ''1211371''" for k
    by (rule on_data_room_other [OF b2 that])
  have d0: "sensor_data sb ''car1'' = Some d"
    using p sd oa [of "''car1''"] ob [of "''car1''"] by simp
  from on_data_car_appends [OF d0 s, of "''Car1''" car_red ?ts] obtain sc where
    b3: "on_data_car env ''car1'' ''Car1'' car_red ''car1_temp'' ''car1_status'' ?sensors ?ts sb
           = Inr sc"
    and a3: "map_option sequences (sensor_data sc ''car1'') =
       Some (sequences (add_car ?ts (Some t) status d))" by blast
  have "sensor_data (snd (try_seq ?rest sc)) ''car1'' = sensor_data sc ''car1''"
    by (rule try_seq_other) (auto elim!: on_data_car_other)
  then have "sensor_data (snd (on_data_body env data st)) ''car1'' = sensor_data sc ''car1''"
    using body b1 b2 b3 by (simp add: on_data_blocks_def)
  then show ?thesis using a3 by (simp only: sensor_data_on_data)
qed

lemma on_data_second_car:
  assumes r: "reaches_blocks data st"
    and p1: "sensor_data st ''1200400'' \<noteq> None" and p2: "sensor_data st ''1211371'' \<noteq> None"
    and p3: "sensor_data st ''car1'' \<noteq> None"
    and s1: "room_sample env (dict_get data ''sensors'' (PDict [])) ''smoke1'' ''co2_1'' ''fire1''
              = Inr r1"
    and s2: "room_sample env (dict_get data ''sensors'' (PDict [])) ''smoke2'' ''co2_2'' ''fire2''
              = Inr r2"
    and s3: "car_sample env (dict_get data ''sensors'' (PDict [])) ''car1_temp'' ''car1_status''
              = Inr r3"
    and p: "sensor_data st ''car2'' = Some d"
    and s: "car_sample env (dict_get data ''sensors'' (PDict [])) ''car2_temp'' ''car2_status''
              = Inr (Some (t, status))"
  shows "map_option sequences (sensor_data (on_data env data st) ''car2'') =
           Some (sequences (add_car (now env st) (Some t) status d))"
proof -
  let ?sensors = "dict_get data ''sensors'' (PDict [])"
  let ?ts = "now env st"
  from on_data_start [OF r, of env] obtain s0 where
    sd: "sensor_data s0 = sensor_data st" and
    body: "on_data_body env data st = try_seq (on_data_blocks env ?sensors ?ts) s0"
    by blast
  from p1 sd obtain e1 where e1: "sensor_data s0 ''1200400'' = Some e1" by auto
  from on_data_room_total [OF s1 e1, of ?ts] obtain sa where
    b1: "on_data_room env ''1200400'' ''smoke1'' ''co2_1'' ''fire1'' ?sensors ?ts s0 = Inr sa"
    by blast
  have oa: "sensor_data sa k = sensor_data s0 k" if "k \<noteq> ''1200400''" for k
    by (rule on_data_room_other [OF b1 that])
  from p2 sd oa [of "''1211371''"] obtain e2 where e2: "sensor_data sa ''1211371'' = Some e2"
    by auto
  from on_data_room_total [OF s2 e2, of ?ts] obtain sb where
    b2: "on_data_room env ''1211371'' ''smoke2'' ''co2_2'' ''fire2'' ?sensors ?ts sa = Inr sb"
    by blast
  have ob: "sensor_data sb k = sensor_data sa k" if "k \<noteq> ''1211371''" for k
    by (rule on_data_room_other [OF b2 that])
  from p3 sd oa [of "''car1''"] ob [of "''car1''"] obtain e3 where
    e3: "sensor_data sb ''car1'' = Some e3" by auto
  from on_data_car_total [OF s3 e3, of "''Car1''" car_red ?ts] obtain sc where
    b3: "on_data_car env ''car1'' ''Car1'' car_red ''car1_temp'' ''car1_status'' ?sensors ?ts sb
           = Inr sc"
    by blast
  have oc: "sensor_data sc k = sensor_data sb k" if "k \<noteq> ''car1''" for k
    by (rule on_data_car_other [OF b3 that])
  have d0: "sensor_data sc ''car2'' = Some d"
    using p sd oa [of "''car2''"] ob [of "''car2''"] oc [of "''car2''"] by simp
  from on_data_car_appends [OF d0 s, of "''Car2''" car_blue ?ts] obtain se where
    b4: "on_data_car env ''car2'' ''Car2'' car_blue ''car2_temp'' ''car2_status'' ?sensors ?ts sc
           = Inr se"
    and a4: "map_option sequences (sensor_data se ''car2'') =
       Some (sequences (add_car ?ts (Some t) status d))" by blast
  have "sensor_data (snd (on_data_body env data st)) ''car2'' = sensor_data se ''car2''"
    using body b1 b2 b3 b4 by (simp add: on_data_blocks_def)
  then show ?thesis using a4 by (simp only: sensor_data_on_data)
qed

lemma fire_tick_appends:
  assumes "sensor_data st (room_key first) = Some d"
  shows "map_option sequences (sensor_data (step env st (FireTick first base i)) (room_key first)) =
     Some (sequences
       (add_room (now env st)
          (Some (round_double env
                   (base + min 25 (round_double env (of_nat i * round_double env (4 / 5))))))
          (Some (round_double env
                   (round_double env
                      (base + min 25 (round_double env (of_nat i * round_double env (4 / 5)))) * 10)))
          (Some (round_double env
                   (round_double env
                      (base + min 25 (round_double env (of_nat i * round_double env (4 / 5)))) *
                    round_double env (3 / 5)))) d))"
  using assms sequences_room_block [of env "room_key first"]
  by (simp add: fire_tick_def or_same_def Let_def)

lemma co2_tick_appends:
  assumes "sensor_data st (room_key first) = Some d"
  shows "map_option sequences (sensor_data (step env st (Co2Tick first base i)) (room_key first)) =
     Some (sequences
       (add_room (now env st) None
          (Some (round_double env (round_double env (base + 50) + of_nat i * 25))) None d))"
  using assms by (simp add: co2_tick_def or_same_def Let_def set_sensor_def)

lemma car_tick_appends:
  assumes "sensor_data st (car_key first) = Some d"
  shows "map_option sequences (sensor_data (step env st (CarTick first base i)) (car_key first)) =
     Some (sequences
       (add_car (now env st) (Some (round_double env (base + min 60 (of_nat i * 3))))
          (PStr ''RUNNING'') d))"
  using assms by (simp add: car_tick_def or_same_def Let_def set_sensor_def)

section \<open>The claims\<close>

text \<open>
  C1. The alarm latch of a room. When \<^verbatim>\<open>_on_data\<close> gets to the block of a room and reads
  from the payload a smoke value at or above \<^verbatim>\<open>ALARM_THRESHOLD\<close>, the alarm flag of that
  room is true afterwards (for the second room the block of the first one must not have
  raised). A flag that is true stays true through \<^verbatim>\<open>_on_data\<close> on any payload, and
  through every sequence of actions none of which is a clear (an alarm device switched
  off, or the reset scenario); along such a sequence the flag goes from false to true at
  most once. Switching the alarm device of an entity off makes its flag false, and so does
  the reset scenario for both rooms.
\<close>

theorem alarm_latch:
  "(reaches_blocks data st \<and> sensor_data st ''1200400'' \<noteq> None \<and>
    room_sample env (dict_get data ''sensors'' (PDict [])) ''smoke1'' ''co2_1'' ''fire1''
      = Inr (Some (v, c, f)) \<and> ALARM_THRESHOLD \<le> v
      \<longrightarrow> alarm (on_data env data st) ''1200400'') \<and>
   (reaches_blocks data st \<and> sensor_data st ''1200400'' \<noteq> None \<and>
    sensor_data st ''1211371'' \<noteq> None \<and>
    room_sample env (dict_get data ''sensors'' (PDict [])) ''smoke1'' ''co2_1'' ''fire1'' = Inr r1 \<and>
    room_sample env (dict_get data ''sensors'' (PDict [])) ''smoke2'' ''co2_2'' ''fire2''
      = Inr (Some (v, c, f)) \<and> ALARM_THRESHOLD \<le> v
      \<longrightarrow> alarm (on_data env data st) ''1211371'') \<and>
   (alarm st k \<longrightarrow> alarm (on_data env data st) k) \<and>
   (alarm st k \<and> (\<forall>act \<in> set acts. \<not> clears act) \<longrightarrow> alarm (run env acts st) k) \<and>
   ((\<forall>act \<in> set acts. \<not> clears act) \<longrightarrow>
      rises (map (\<lambda>s. alarm s k) (states env st acts)) \<le> 1) \<and>
   (sensor_data st k \<noteq> None \<longrightarrow> \<not> alarm (control_device env (''ALARM_'' @ k) False st) k) \<and>
   (k \<in> rooms \<and> sensor_data st ''1200400'' \<noteq> None \<and> sensor_data st ''1211371'' \<noteq> None
      \<longrightarrow> \<not> alarm (scenario_normal env params st) k)"
  using on_data_sets_alarm_first [of data st env v c f]
    on_data_sets_alarm_second [of data st env r1 v c f]
    on_data_keeps_alarm [of st k env data]
    alarm_persists [of st k acts env]
    rises_at_most_once [of acts k env st]
    control_off_clears [of st k env]
    scenario_normal_clears [of k st env params]
  by blast

theorem alarm_latch_witness:
  "\<not> alarm server1 ''1200400'' \<and>
   alarm (on_data demo_env smoke_data server1) ''1200400'' \<and>
   alarm (on_data demo_env second_data server1) ''1211371'' \<and>
   alarm (on_data demo_env calm_data (on_data demo_env smoke_data server1)) ''1200400'' \<and>
   alarm (run demo_env [Message 1 gw1 calm_line] (on_data demo_env smoke_data server1)) ''1200400'' \<and>
   rises (map (\<lambda>s. alarm s ''1200400'')
     (states demo_env server1 [Message 1 gw1 smoke_line, Message 1 gw1 calm_line])) \<le> 1 \<and>
   \<not> alarm (control_device demo_env ''ALARM_1200400'' False
             (on_data demo_env smoke_data server1)) ''1200400'' \<and>
   \<not> alarm (scenario_normal demo_env None (on_data demo_env smoke_data server1)) ''1200400''"
proof -
  let ?st = "on_data demo_env smoke_data server1"
  have h0: "\<not> alarm server1 ''1200400''"
    by (simp add: alarm_def entity_ok_def fixture_defs prim_defs)
  have h1: "reaches_blocks smoke_data server1" "reaches_blocks second_data server1"
    by (simp_all add: reaches_blocks_def fixture_defs prim_defs data_defs)
  have h2: "sensor_data server1 ''1200400'' \<noteq> None" "sensor_data server1 ''1211371'' \<noteq> None"
    by (simp_all add: fixture_defs prim_defs)
  have h3: "room_sample demo_env (dict_get smoke_data ''sensors'' (PDict []))
              ''smoke1'' ''co2_1'' ''fire1'' = Inr (Some (123 / 2, 0, 0))"
    by (simp add: fixture_defs data_defs)
  have h3a: "room_sample demo_env (dict_get second_data ''sensors'' (PDict []))
              ''smoke1'' ''co2_1'' ''fire1'' = Inr None"
    by (simp add: fixture_defs data_defs)
  have h3b: "room_sample demo_env (dict_get second_data ''sensors'' (PDict []))
              ''smoke2'' ''co2_2'' ''fire2'' = Inr (Some (70, 0, 0))"
    by (simp add: fixture_defs data_defs)
  have h4: "ALARM_THRESHOLD \<le> 123 / 2" "ALARM_THRESHOLD \<le> 70"
    by (simp_all add: ALARM_THRESHOLD_def)
  have a1: "alarm ?st ''1200400''"
    using alarm_latch [of smoke_data server1 demo_env "123 / 2" 0 0 None "''1200400''" "[]" None]
      h1 h2 h3 h4
    by blast
  have a1b: "alarm (on_data demo_env second_data server1) ''1211371''"
    using alarm_latch [of second_data server1 demo_env 70 0 0 None "''1211371''" "[]" None]
      h1 h2 h3a h3b h4
    by blast
  have a1c: "alarm (on_data demo_env calm_data ?st) ''1200400''"
    using alarm_latch [of calm_data ?st demo_env 0 0 0 None "''1200400''" "[]" None] a1
    by blast
  have n1: "\<forall>act \<in> set [Message 1 gw1 calm_line]. \<not> clears act"
    by (simp add: clears_def)
  have n2: "\<forall>act \<in> set [Message 1 gw1 smoke_line, Message 1 gw1 calm_line]. \<not> clears act"
    by (simp add: clears_def)
  have a2: "alarm (run demo_env [Message 1 gw1 calm_line] ?st) ''1200400''"
    using alarm_latch [of calm_data ?st demo_env 0 0 0 None "''1200400''"
        "[Message 1 gw1 calm_line]" None] a1 n1
    by blast
  have a3: "rises (map (\<lambda>s. alarm s ''1200400'')
     (states demo_env server1 [Message 1 gw1 smoke_line, Message 1 gw1 calm_line])) \<le> 1"
    using alarm_latch [of calm_data server1 demo_env 0 0 0 None "''1200400''"
        "[Message 1 gw1 smoke_line, Message 1 gw1 calm_line]" None] n2
    by blast
  have h5: "sensor_data ?st ''1200400'' \<noteq> None" "sensor_data ?st ''1211371'' \<noteq> None"
    by (rule evolves_keeps_entity [OF evolves_on_data h2(1)],
        rule evolves_keeps_entity [OF evolves_on_data h2(2)])
  have a4: "\<not> alarm (control_device demo_env (''ALARM_'' @ ''1200400'') False ?st) ''1200400''"
    using alarm_latch [of calm_data ?st demo_env 0 0 0 None "''1200400''" "[]" None] h5
    by blast
  have r: "''1200400'' \<in> rooms" by (simp add: rooms_def)
  have a5: "\<not> alarm (scenario_normal demo_env None ?st) ''1200400''"
    using alarm_latch [of calm_data ?st demo_env 0 0 0 None "''1200400''" "[]" None] h5 r
    by blast
  show ?thesis using h0 a1 a1b a1c a2 a3 a4 a5 by simp
qed

text \<open>
  C2. Every \<^verbatim>\<open>SensorData\<close> object is created empty with capacity \<open>n\<close>
  (\<^verbatim>\<open>MAX_DATA_POINTS\<close> = 100 in the server). After any sequence of \<^verbatim>\<open>add_room\<close> and
  \<^verbatim>\<open>add_car\<close> calls none of its five sample sequences is longer than \<open>n\<close>. The
  timestamps kept are the last \<open>n\<close> ingested, and each per-metric sequence (smoke, CO2,
  fire, vehicle temperature) holds the last \<open>n\<close> values given for that metric, in order:
  after \<open>n + 1\<close> of them the first is gone and the other \<open>n\<close> are all there. One call
  appends the value it is given for a metric to the end of that metric's sequence,
  dropping exactly the oldest sample when the sequence is at capacity and nothing below
  capacity, and leaves the sequence of a metric it is given no value for as it is. In the
  server, after any sequence of actions from the start, the five sequences of every entity
  hold at most \<^verbatim>\<open>MAX_DATA_POINTS\<close> samples.
\<close>

theorem sample_sequences_bounded:
  "length (items (timestamps (ingest_all n calls))) \<le> n \<and>
   length (items (smoke (ingest_all n calls))) \<le> n \<and>
   length (items (co2 (ingest_all n calls))) \<le> n \<and>
   length (items (fire (ingest_all n calls))) \<le> n \<and>
   length (items (car_temp (ingest_all n calls))) \<le> n \<and>
   items (timestamps (ingest_all n calls)) = drop (length calls - n) (map ingest_ts calls) \<and>
   (length calls = Suc n \<longrightarrow>
      items (timestamps (ingest_all n calls)) = tl (map ingest_ts calls)) \<and>
   items (samples m (ingest_all n calls)) =
     drop (length (given_all m calls) - n) (given_all m calls) \<and>
   (length (given_all m calls) = Suc n \<longrightarrow>
      items (samples m (ingest_all n calls)) = tl (given_all m calls)) \<and>
   (given m call = [x] \<and> length (items (samples m d)) = maxlen (samples m d) \<and>
    0 < maxlen (samples m d) \<longrightarrow>
      items (samples m (ingest_one d call)) = tl (items (samples m d)) @ [x]) \<and>
   (given m call = [x] \<and> length (items (samples m d)) < maxlen (samples m d) \<longrightarrow>
      items (samples m (ingest_one d call)) = items (samples m d) @ [x]) \<and>
   (given m call = [] \<longrightarrow> samples m (ingest_one d call) = samples m d) \<and>
   (length (items q) = maxlen q \<and> 0 < maxlen q \<longrightarrow>
      items (dq_append q y) = tl (items q) @ [y]) \<and>
   (sensor_data (run env acts (CloudServer_init env)) k = Some e \<longrightarrow>
      length (items (timestamps e)) \<le> MAX_DATA_POINTS \<and>
      length (items (smoke e)) \<le> MAX_DATA_POINTS \<and>
      length (items (co2 e)) \<le> MAX_DATA_POINTS \<and>
      length (items (fire e)) \<le> MAX_DATA_POINTS \<and>
      length (items (car_temp e)) \<le> MAX_DATA_POINTS)"
proof -
  let ?d = "ingest_all n calls"
  have w: "within_capacity ?d"
    unfolding ingest_all_def by (rule within_capacity_foldl [OF within_capacity_init])
  have c: "capacity_is n ?d"
    unfolding ingest_all_def by (rule capacity_is_foldl [OF capacity_is_init])
  have "items (timestamps (SensorData_init n)) =
          drop (length ([]::rat list) - maxlen (timestamps (SensorData_init n))) []"
    by (simp add: SensorData_init_def deque_new_def)
  from timestamps_foldl_drop [OF this, of calls]
  have ts: "items (timestamps ?d) = drop (length calls - n) (map ingest_ts calls)"
    by (simp add: ingest_all_def SensorData_init_def deque_new_def)
  have suc: "length calls = Suc n \<longrightarrow> items (timestamps ?d) = tl (map ingest_ts calls)"
    using ts by (simp add: drop_Suc)
  have ms: "items (samples m ?d) = drop (length (given_all m calls) - n) (given_all m calls)"
    by (rule samples_ingest_all)
  have msuc: "length (given_all m calls) = Suc n \<longrightarrow>
      items (samples m ?d) = tl (given_all m calls)"
    using ms by (simp add: drop_Suc)
  have full: "given m call = [x] \<and> length (items (samples m d)) = maxlen (samples m d) \<and>
    0 < maxlen (samples m d) \<longrightarrow>
      items (samples m (ingest_one d call)) = tl (items (samples m d)) @ [x]"
    using dq_append_at_capacity [of "samples m d" x] by (simp add: samples_appended)
  have below: "given m call = [x] \<and> length (items (samples m d)) < maxlen (samples m d) \<longrightarrow>
      items (samples m (ingest_one d call)) = items (samples m d) @ [x]"
    by (simp add: samples_appended dq_append_def Let_def)
  have none: "given m call = [] \<longrightarrow> samples m (ingest_one d call) = samples m d"
    by (simp add: samples_untouched)
  have srv: "sensor_data (run env acts (CloudServer_init env)) k = Some e \<longrightarrow>
      length (items (timestamps e)) \<le> MAX_DATA_POINTS \<and>
      length (items (smoke e)) \<le> MAX_DATA_POINTS \<and>
      length (items (co2 e)) \<le> MAX_DATA_POINTS \<and>
      length (items (fire e)) \<le> MAX_DATA_POINTS \<and>
      length (items (car_temp e)) \<le> MAX_DATA_POINTS"
    using reachable_entities_bounded [of env acts k e]
    by (auto simp: bounded_by_def within_capacity_def capacity_is_def)
  have seq: "length (items (timestamps ?d)) \<le> n \<and>
   length (items (smoke ?d)) \<le> n \<and>
   length (items (co2 ?d)) \<le> n \<and>
   length (items (fire ?d)) \<le> n \<and>
   length (items (car_temp ?d)) \<le> n"
    using w c by (simp add: within_capacity_def capacity_is_def)
  have ev: "length (items q) = maxlen q \<and> 0 < maxlen q \<longrightarrow>
      items (dq_append q y) = tl (items q) @ [y]"
    using dq_append_at_capacity [of q y] by simp
  show ?thesis using seq ts suc ms msuc full below none ev srv by blast
qed

theorem sample_sequences_bounded_witness:
  "items (smoke (ingest_all 2
      [AddRoom 1 (Some 10) None None, AddRoom 2 (Some 20) None None,
       AddRoom 3 (Some 30) None None])) = [20, 30] \<and>
   items (timestamps (ingest_all 2
      [AddRoom 1 (Some 10) None None, AddRoom 2 (Some 20) None None,
       AddRoom 3 (Some 30) None None])) = [2, 3] \<and>
   items (smoke (ingest_all 2 [AddRoom 1 (Some 10) None None, AddRoom 2 (Some 20) None None]))
     = [10, 20] \<and>
   items (smoke (add_room 3 (Some 30) None None
      (ingest_all 2 [AddRoom 1 (Some 10) None None, AddRoom 2 (Some 20) None None])))
     = [20, 30] \<and>
   items (co2 (add_room 3 (Some 30) None None
      (ingest_all 2 [AddRoom 1 (Some 10) None None, AddRoom 2 (Some 20) None None])))
     = [0, 0] \<and>
   items (car_temp (add_car 4 (Some 5) PNone (SensorData_init 2))) = [5] \<and>
   smoke (add_car 4 (Some 5) PNone (SensorData_init 2)) = smoke (SensorData_init 2) \<and>
   items (dq_append \<lparr>maxlen = 2, items = [1, 2::rat]\<rparr> 3) = [2, 3] \<and>
   map_option (\<lambda>d. (items (smoke d), length (items (smoke d)) \<le> MAX_DATA_POINTS))
     (sensor_data (run demo_env [Start, Accept 1 gw1, Message 1 gw1 smoke_line]
        (CloudServer_init demo_env)) ''1200400'') = Some ([123 / 2], True)"
proof -
  let ?two = "[AddRoom 1 (Some 10) None None, AddRoom 2 (Some 20) None None]"
  let ?third = "AddRoom 3 (Some 30) None None"
  let ?calls = "[AddRoom 1 (Some 10) None None, AddRoom 2 (Some 20) None None,
       AddRoom 3 (Some 30) None None]"
  let ?car = "AddCar 4 (Some 5) PNone"
  let ?acts = "[Start, Accept 1 gw1, Message 1 gw1 smoke_line]"
  let ?q = "\<lparr>maxlen = 2, items = [1, 2::rat]\<rparr>"
  have s: "\<exists>d. sensor_data (run demo_env ?acts (CloudServer_init demo_env)) ''1200400'' = Some d \<and>
             items (smoke d) = [123 / 2]"
    by (simp add: run_def fixture_defs prim_defs data_defs message_defs Let_def)
  then obtain e where e: "sensor_data (run demo_env ?acts (CloudServer_init demo_env)) ''1200400'' = Some e"
    and i: "items (smoke e) = [123 / 2]" by blast
  have q: "length (items ?q) = maxlen ?q \<and> 0 < maxlen ?q" by simp
  have g: "given_all Smoke ?calls = [10, 20, 30]" "given Smoke ?third = [30]"
    "given Co2 ?third = [0]" "given CarTemp ?car = [5]" "given Smoke ?car = []"
    by (simp_all add: given_all_def given_value_def)
  note t = sample_sequences_bounded [where n = 2 and calls = ?calls and m = Smoke
      and call = ?third and x = 30 and d = "ingest_all 2 ?two" and q = ?q and y = 3
      and env = demo_env and acts = ?acts and k = "''1200400''" and e = e]
  note u = sample_sequences_bounded [where n = 2 and calls = ?two and m = Co2
      and call = ?third and x = 0 and d = "ingest_all 2 ?two" and q = ?q and y = 3
      and env = demo_env and acts = ?acts and k = "''1200400''" and e = e]
  note v = sample_sequences_bounded [where n = 2 and calls = "[]" and m = CarTemp
      and call = ?car and x = 5 and d = "SensorData_init 2" and q = ?q and y = 3
      and env = demo_env and acts = ?acts and k = "''1200400''" and e = e]
  note w = sample_sequences_bounded [where n = 2 and calls = "[]" and m = Smoke
      and call = ?car and x = 5 and d = "SensorData_init 2" and q = ?q and y = 3
      and env = demo_env and acts = ?acts and k = "''1200400''" and e = e]
  have a: "items (smoke (ingest_all 2 ?calls)) = [20, 30]"
    using t g by simp
  have b: "items (timestamps (ingest_all 2 ?calls)) = [2, 3]" using t by simp
  have two: "items (smoke (ingest_all 2 ?two)) = [10, 20]" "items (co2 (ingest_all 2 ?two)) = [0, 0]"
    "maxlen (smoke (ingest_all 2 ?two)) = 2" "maxlen (co2 (ingest_all 2 ?two)) = 2"
    by (simp_all add: ingest_all_def SensorData_init_def deque_new_def add_room_def
          dq_append_def or_zero_def Let_def)
  have c1: "items (smoke (add_room 3 (Some 30) None None (ingest_all 2 ?two))) = [20, 30]"
    using t g two by simp
  have c2: "items (co2 (add_room 3 (Some 30) None None (ingest_all 2 ?two))) = [0, 0]"
    using u g two by simp
  have c3: "items (car_temp (add_car 4 (Some 5) PNone (SensorData_init 2))) = [5]"
    using v g by (simp add: SensorData_init_def deque_new_def)
  have c4: "smoke (add_car 4 (Some 5) PNone (SensorData_init 2)) = smoke (SensorData_init 2)"
    using w g by simp
  have c: "items (dq_append ?q 3) = [2, 3]" using t q by simp
  have f: "length (items (smoke e)) \<le> MAX_DATA_POINTS" using t e by blast
  show ?thesis using a b two(1) c1 c2 c3 c4 c e i f by simp
qed

text \<open>
  C3. A line that is not valid JSON (\<^verbatim>\<open>json.loads\<close> raises \<^verbatim>\<open>JSONDecodeError\<close>) is logged and
  dropped: \<^verbatim>\<open>_process_message\<close> returns without an exception, and the running flag, the
  registry, the closed sockets, the entity states and the events are what they were. A
  read that completes such a line leaves the handler in its loop, with an empty buffer.
\<close>

theorem invalid_json_discarded:
  "json_loads env line = Inl JSONDecodeError \<longrightarrow>
     process_message env sk a line st =
       (None, log_info (LogInvalidJSON a (py_prefix 80 line)) st) \<and>
     running (snd (process_message env sk a line st)) = running st \<and>
     clients (snd (process_message env sk a line st)) = clients st \<and>
     closed_socks (snd (process_message env sk a line st)) = closed_socks st \<and>
     sensor_data (snd (process_message env sk a line st)) = sensor_data st \<and>
     events (snd (process_message env sk a line st)) = events st \<and>
     logged (snd (process_message env sk a line st)) =
       logged st @ [LogInvalidJSON a (py_prefix 80 line)] \<and>
     (newline \<notin> set line \<and> running st \<and> bytes \<noteq> [] \<and>
      buf @ utf8_ignore bytes = line @ [newline] \<longrightarrow>
        client_loop env sk a (Recv bytes # rs) buf st =
          client_loop env sk a rs [] (log_info (LogInvalidJSON a (py_prefix 80 line)) st) \<and>
        client_loop env sk a [Recv bytes] buf st =
          (Reading [], log_info (LogInvalidJSON a (py_prefix 80 line)) st))"
proof (intro impI conjI)
  assume bad: "json_loads env line = Inl JSONDecodeError"
  note pm = process_invalid [OF bad, of sk a st]
  show "process_message env sk a line st =
       (None, log_info (LogInvalidJSON a (py_prefix 80 line)) st)" by (rule pm)
  show "running (snd (process_message env sk a line st)) = running st" by (simp add: pm)
  show "clients (snd (process_message env sk a line st)) = clients st" by (simp add: pm)
  show "closed_socks (snd (process_message env sk a line st)) = closed_socks st" by (simp add: pm)
  show "sensor_data (snd (process_message env sk a line st)) = sensor_data st" by (simp add: pm)
  show "events (snd (process_message env sk a line st)) = events st" by (simp add: pm)
  show "logged (snd (process_message env sk a line st)) =
       logged st @ [LogInvalidJSON a (py_prefix 80 line)]" by (simp add: pm)
  assume h: "newline \<notin> set line \<and> running st \<and> bytes \<noteq> [] \<and>
      buf @ utf8_ignore bytes = line @ [newline]"
  then have d: "drain env sk a (buf @ utf8_ignore bytes) st =
      (None, [], log_info (LogInvalidJSON a (py_prefix 80 line)) st)"
    using drain_line [of line env sk a "[]" st] by (simp add: pm drain_no_newline)
  show "client_loop env sk a (Recv bytes # rs) buf st =
          client_loop env sk a rs [] (log_info (LogInvalidJSON a (py_prefix 80 line)) st)"
    using h d by simp
  show "client_loop env sk a [Recv bytes] buf st =
          (Reading [], log_info (LogInvalidJSON a (py_prefix 80 line)) st)"
    using h d by simp
qed

theorem invalid_json_discarded_witness:
  "json_loads demo_env ''not-json'' = Inl JSONDecodeError \<and>
   client_loop demo_env 1 gw1 [Recv (''not-json'' @ [newline])] [] server1 =
     (Reading [], log_info (LogInvalidJSON gw1 ''not-json'') server1) \<and>
   map_of (clients (log_info (LogInvalidJSON gw1 ''not-json'') server1)) gw1 =
     Some (1, 1001, PStr ''UNKNOWN'')"
proof -
  have bad: "json_loads demo_env ''not-json'' = Inl JSONDecodeError"
    by (simp add: fixture_defs)
  have h: "newline \<notin> set ''not-json'' \<and> running server1 \<and> ''not-json'' @ [newline] \<noteq> [] \<and>
      [] @ utf8_ignore (''not-json'' @ [newline]) = ''not-json'' @ [newline]"
    by (simp add: newline_def fixture_defs prim_defs)
  have p: "py_prefix 80 ''not-json'' = ''not-json''"
    by (simp add: is_cont_def eval_nat_numeral)
  have c: "map_of (clients (log_info (LogInvalidJSON gw1 ''not-json'') server1)) gw1 =
     Some (1, 1001, PStr ''UNKNOWN'')"
    by (simp add: fixture_defs prim_defs)
  from invalid_json_discarded [of demo_env "''not-json''" 1 gw1 server1
      "''not-json'' @ [newline]" "[]" "[]"] bad h p c
  show ?thesis by simp
qed
text \<open>
  C4. The handler decodes each read on its own, dropping the bytes it cannot decode, and
  only then appends the text to its buffer; and a line whose processing raises leaves the
  inner loop. So what is processed does depend on how the reads cut the stream. The
  same bytes, a line with the gateway identity "e-acute", are delivered once in one read
  and once in two reads that cut the two-byte character: in one read the identity is
  recorded as sent, in two reads both halves of the character are dropped and the empty
  identity is recorded. And behind the line \<^verbatim>\<open>5\<close> (valid JSON, no object), whose
  processing raises, a heartbeat of the same read waits in the buffer: it is never
  processed when the stream ends next, and is processed once when it comes in a read of
  its own. For reads that end no character in the middle and lines that are objects or
  invalid JSON the framing is as specified (\<open>client_thread_frames\<close>,
  \<open>split_heartbeat_processed_once\<close>).
\<close>

theorem framing_depends_on_reads:
  "accent_head @ accent_tail = accent_line \<and>
   received [Recv accent_head, Recv (accent_tail @ [newline])] =
     received [Recv (accent_line @ [newline])] \<and>
   map_of (clients (snd (client_thread demo_env 1 gw1
      [Recv (accent_line @ [newline])] server1))) gw1 =
     Some (1, 1002, PStr [CHR 0xC3, CHR 0xA9]) \<and>
   map_of (clients (snd (client_thread demo_env 1 gw1
      [Recv accent_head, Recv (accent_tail @ [newline])] server1))) gw1 =
     Some (1, 1002, PStr []) \<and>
   logged (snd (client_thread demo_env 1 gw1
      [Recv (''5'' @ [newline] @ hb_line @ [newline]), Recv []] server1)) =
     logged server1 @ [LogClientError gw1 AttributeError, LogClosed gw1] \<and>
   logged (snd (client_thread demo_env 1 gw1
      [Recv (''5'' @ [newline]), Recv (hb_line @ [newline]), Recv []] server1)) =
     logged server1 @
     [LogClientError gw1 AttributeError, LogHeartbeat (PInt 1) (PStr ''GW-1''), LogClosed gw1]"
proof -
  have j: "accent_head @ accent_tail = accent_line"
    by (simp add: accent_head_def accent_tail_def accent_line_def)
  have u0: "utf8_ignore (accent_line @ [newline]) = accent_line @ [newline]"
    by (simp add: accent_line_def newline_def is_cont_def Let_def)
  have u1: "utf8_ignore accent_head = take 15 accent_line"
    by (simp add: accent_head_def accent_line_def Let_def)
  have u2: "utf8_ignore (accent_tail @ [newline]) = drop 17 accent_line @ [newline]"
    by (simp add: accent_tail_def accent_line_def newline_def Let_def)
  have b: "take 15 accent_line @ drop 17 accent_line = bare_line"
    by (simp add: accent_line_def bare_line_def)
  have nh: "newline \<notin> set (take 15 accent_line)" and na: "newline \<notin> set accent_line"
    and nb: "newline \<notin> set bare_line"
    by (simp_all add: accent_line_def bare_line_def newline_def)
  have r: "running server1" by (simp add: fixture_defs prim_defs)
  have ne: "accent_head \<noteq> []" "accent_tail @ [newline] \<noteq> []" "accent_line @ [newline] \<noteq> []"
    by (simp_all add: accent_head_def)
  have d0: "drain demo_env 1 gw1 (accent_line @ [newline]) server1 =
      (None, [], snd (process_message demo_env 1 gw1 accent_line server1))"
    using drain_line [OF na, of demo_env 1 gw1 "[]" server1]
    by (simp add: drain_no_newline fixture_defs prim_defs message_defs py_get_def dict_get_def
          Let_def)
  have d1: "drain demo_env 1 gw1 (take 15 accent_line @ drop 17 accent_line @ [newline]) server1 =
      (None, [], snd (process_message demo_env 1 gw1 bare_line server1))"
    using drain_line [OF nb, of demo_env 1 gw1 "[]" server1] b
    by (simp add: drain_no_newline fixture_defs prim_defs message_defs py_get_def dict_get_def
          Let_def flip: append_assoc)
  have c0: "map_of (clients (snd (process_message demo_env 1 gw1 accent_line server1))) gw1 =
      Some (1, 1002, PStr [CHR 0xC3, CHR 0xA9])"
    by (simp add: fixture_defs prim_defs message_defs py_get_def dict_get_def Let_def)
  have c1: "map_of (clients (snd (process_message demo_env 1 gw1 bare_line server1))) gw1 =
      Some (1, 1002, PStr [])"
    by (simp add: fixture_defs prim_defs message_defs py_get_def dict_get_def Let_def)
  have first: "map_of (clients (snd (client_thread demo_env 1 gw1
      [Recv (accent_line @ [newline])] server1))) gw1 =
     Some (1, 1002, PStr [CHR 0xC3, CHR 0xA9])"
    using r ne u0 d0 c0 by (simp add: client_thread_def)
  have second: "map_of (clients (snd (client_thread demo_env 1 gw1
      [Recv accent_head, Recv (accent_tail @ [newline])] server1))) gw1 =
     Some (1, 1002, PStr [])"
    using r ne u1 u2 d1 c1 nh by (simp add: client_thread_def drain_no_newline)
  have n5: "newline \<notin> set ''5''" and nhb: "newline \<notin> set hb_line"
    by (simp_all add: newline_def hb_line_def)
  have a5: "ascii (''5'' @ [newline])" "ascii (hb_line @ [newline])"
    "ascii (''5'' @ [newline] @ hb_line @ [newline])"
    by (simp_all add: ascii_def newline_def hb_line_def)
  have p5: "process_message demo_env 1 gw1 ''5'' server1 = (Some AttributeError, tick server1)"
    by (simp add: fixture_defs prim_defs message_defs py_get_def Let_def)
  have rt: "running (tick server1)" using r by (simp add: tick_def)
  have e1: "drain demo_env 1 gw1 (''5'' @ [newline] @ hb_line @ [newline]) server1 =
      (Some AttributeError, hb_line @ [newline], tick server1)"
    using drain_line [OF n5, of demo_env 1 gw1 "hb_line @ [newline]" server1] p5 by simp
  have e2: "drain demo_env 1 gw1 (''5'' @ [newline]) server1 =
      (Some AttributeError, [], tick server1)"
    using drain_line [OF n5, of demo_env 1 gw1 "[]" server1] p5 by simp
  have phb: "process_message demo_env 1 gw1 hb_line
        (log_info (LogClientError gw1 AttributeError) (tick server1)) =
      (None, log_info (LogHeartbeat (PInt 1) (PStr ''GW-1''))
         ((tick (log_info (LogClientError gw1 AttributeError) (tick server1)))
            \<lparr>clients := [(gw1, 1, 1003, PStr ''GW-1'')]\<rparr>))"
    by (simp add: fixture_defs prim_defs message_defs py_get_def dict_get_def Let_def)
  have e3: "drain demo_env 1 gw1 (hb_line @ [newline])
        (log_info (LogClientError gw1 AttributeError) (tick server1)) =
      (None, [], log_info (LogHeartbeat (PInt 1) (PStr ''GW-1''))
         ((tick (log_info (LogClientError gw1 AttributeError) (tick server1)))
            \<lparr>clients := [(gw1, 1, 1003, PStr ''GW-1'')]\<rparr>))"
    using drain_line [OF nhb, of demo_env 1 gw1 "[]"
        "log_info (LogClientError gw1 AttributeError) (tick server1)"] phb
    by (simp add: drain_no_newline)
  have third: "logged (snd (client_thread demo_env 1 gw1
      [Recv (''5'' @ [newline] @ hb_line @ [newline]), Recv []] server1)) =
     logged server1 @ [LogClientError gw1 AttributeError, LogClosed gw1]"
    using r rt e1 utf8_ignore_ascii [OF a5(3)]
    by (simp add: client_thread_def close_session_def tick_def)
  have fourth: "logged (snd (client_thread demo_env 1 gw1
      [Recv (''5'' @ [newline]), Recv (hb_line @ [newline]), Recv []] server1)) =
     logged server1 @
     [LogClientError gw1 AttributeError, LogHeartbeat (PInt 1) (PStr ''GW-1''), LogClosed gw1]"
    using r rt e2 e3 utf8_ignore_ascii [OF a5(1)] utf8_ignore_ascii [OF a5(2)]
    by (simp add: client_thread_def close_session_def tick_def)
  have same: "received [Recv accent_head, Recv (accent_tail @ [newline])] =
     received [Recv (accent_line @ [newline])]"
    using j by simp
  show ?thesis using j same first second third fourth by blast
qed

text \<open>
  C5, as the code has it. \<^verbatim>\<open>_send_control_all\<close> writes one message to every session of the
  registry, in registry order: the sessions whose write succeeds receive it, a failed
  write is logged, and neither stops the loop. The registry is not changed at all: no
  session is removed, the one whose write failed included, and no socket is closed.
\<close>

theorem broadcast_isolation:
  "clients (send_control_all env command params st) = clients st \<and>
   closed_socks (send_control_all env command params st) = closed_socks st \<and>
   wire (send_control_all env command params st) =
     wire st @
     map (\<lambda>(a, s, seen, gw).
            (s, control_text env command (case params of None \<Rightarrow> [] | Some p \<Rightarrow> p) (now env st)))
       (filter (\<lambda>(a, s, seen, gw).
                  sendall_raises env s
                    (control_text env command (case params of None \<Rightarrow> [] | Some p \<Rightarrow> p)
                       (now env st)) = None)
          (clients st)) \<and>
   logged (send_control_all env command params st) =
     logged st @
     map (\<lambda>(a, s, seen, gw).
            case sendall_raises env s
                   (control_text env command (case params of None \<Rightarrow> [] | Some p \<Rightarrow> p)
                      (now env st)) of
              None \<Rightarrow> LogSent command a (case params of None \<Rightarrow> [] | Some p \<Rightarrow> p)
            | Some e \<Rightarrow> LogSendFailed command a e)
       (clients st)"
  by (simp add: send_control_all_def Let_def send_each_wire send_each_logged tick_def)

theorem broadcast_isolation_witness:
  "clients (send_control_all demo_env ''PAUSE'' None server3) = clients server3 \<and>
   wire (send_control_all demo_env ''PAUSE'' None server3) =
     [(1, pause_text @ [newline]), (3, pause_text @ [newline])] \<and>
   logged (send_control_all demo_env ''PAUSE'' None server3) =
     logged server3 @
     [LogSent ''PAUSE'' gw1 [], LogSendFailed ''PAUSE'' gw2 OSError, LogSent ''PAUSE'' gw3 []]"
proof -
  have c: "clients server3 =
      [(gw1, 1, 1001, PStr ''UNKNOWN''), (gw2, 2, 1002, PStr ''UNKNOWN''),
       (gw3, 3, 1003, PStr ''UNKNOWN'')]"
    by (simp add: fixture_defs prim_defs)
  have t: "control_text demo_env ''PAUSE'' [] (now demo_env server3) = pause_text @ [newline]"
    by (simp add: control_text_def fixture_defs prim_defs)
  have w: "wire server3 = []"
    by (simp add: fixture_defs prim_defs)
  have f: "sendall_raises demo_env = (\<lambda>s msg. if s = 2 then Some OSError else None)"
    by (simp add: demo_env_def)
  from broadcast_isolation [of demo_env "''PAUSE''" None server3]
  show ?thesis by (simp add: c t w f)
qed

theorem failed_session_stays_registered:
  "sendall_raises demo_env 2 (pause_text @ [newline]) = Some OSError \<and>
   map_of (clients server3) gw2 = Some (2, 1002, PStr ''UNKNOWN'') \<and>
   map_of (clients (send_control_all demo_env ''PAUSE'' None server3)) gw2 =
     Some (2, 1002, PStr ''UNKNOWN'') \<and>
   length (clients (send_control_all demo_env ''PAUSE'' None server3)) = 3"
  by (simp add: send_control_all_def Let_def fixture_defs prim_defs)


text \<open>
  C6, as the code has it. While the server is running, a read timeout re-enters the loop
  with the buffer and the state unchanged; a read that returns no bytes (end of stream)
  ends the handler, which closes its socket and removes its own session and no other;
  any other exception, of \<^verbatim>\<open>recv\<close> or of the processing of a line, is logged and the loop
  goes on with the session still registered. When the server is no longer running the
  handler ends in the same way. Closing a session leaves the entity states and the events
  alone.
\<close>

theorem handler_transitions:
  "(running st \<longrightarrow>
      client_loop env sk a (RecvTimeout # rs) buf st = client_loop env sk a rs buf st \<and>
      client_loop env sk a (Recv [] # rs) buf st = (Closed, close_session sk a st) \<and>
      client_loop env sk a (RecvError e # rs) buf st =
        client_loop env sk a rs buf (log_info (LogClientError a e) st) \<and>
      (bytes \<noteq> [] \<and> drain env sk a (buf @ utf8_ignore bytes) st = (Some e, buf', st') \<longrightarrow>
         client_loop env sk a (Recv bytes # rs) buf st =
           client_loop env sk a rs buf' (log_info (LogClientError a e) st'))) \<and>
   (\<not> running st \<longrightarrow> client_loop env sk a rs buf st = (Closed, close_session sk a st)) \<and>
   map_of (clients (close_session sk a st)) b = (if b = a then None else map_of (clients st) b) \<and>
   closed_socks (close_session sk a st) = closed_socks st @ [sk] \<and>
   sensor_data (close_session sk a st) = sensor_data st \<and>
   events (close_session sk a st) = events st"
proof -
  have nr: "\<not> running st \<Longrightarrow> client_loop env sk a rs buf st = (Closed, close_session sk a st)"
    by (cases rs) simp_all
  show ?thesis
    using nr by (auto simp: close_session_def delete_lookup)
qed

theorem handler_transitions_witness:
  "running server1 \<and>
   client_loop demo_env 1 gw1 [RecvTimeout] [] server1 = (Reading [], server1) \<and>
   client_loop demo_env 1 gw1 [Recv []] [] server1 = (Closed, close_session 1 gw1 server1) \<and>
   client_loop demo_env 1 gw1 [Recv (''5'' @ [newline])] [] server1 =
     (Reading [], log_info (LogClientError gw1 AttributeError) (tick server1)) \<and>
   \<not> running (CloudServer_init demo_env) \<and>
   client_loop demo_env 1 gw1 [RecvTimeout] [] (CloudServer_init demo_env) =
     (Closed, close_session 1 gw1 (CloudServer_init demo_env)) \<and>
   map_of (clients (close_session 1 gw1 server3)) gw1 = None \<and>
   map_of (clients (close_session 1 gw1 server3)) gw2 = Some (2, 1002, PStr ''UNKNOWN'')"
proof -
  have r: "running server1" by (simp add: fixture_defs prim_defs)
  have r0: "\<not> running (CloudServer_init demo_env)" by (simp add: prim_defs)
  have c: "map_of (clients server3) gw2 = Some (2, 1002, PStr ''UNKNOWN'')"
    by (simp add: fixture_defs prim_defs)
  have n: "gw2 \<noteq> gw1" by (simp add: gw1_def gw2_def)
  have nl: "newline \<notin> set ''5''" by (simp add: newline_def)
  have u: "utf8_ignore (''5'' @ [newline]) = ''5'' @ [newline]"
    by (simp add: newline_def)
  have pm: "process_message demo_env 1 gw1 ''5'' server1 = (Some AttributeError, tick server1)"
    by (simp add: fixture_defs prim_defs message_defs py_get_def Let_def)
  have d: "''5'' @ [newline] \<noteq> [] \<and>
      drain demo_env 1 gw1 ([] @ utf8_ignore (''5'' @ [newline])) server1 =
        (Some AttributeError, [], tick server1)"
    using drain_line [OF nl, of demo_env 1 gw1 "[]" server1] pm by (simp add: newline_def)
  have e: "client_loop demo_env 1 gw1 [Recv (''5'' @ [newline])] [] server1 =
     (Reading [], log_info (LogClientError gw1 AttributeError) (tick server1))"
    using handler_transitions [of server1 demo_env 1 gw1 "[]" "[]" AttributeError
        "''5'' @ [newline]" "[]" "tick server1"] r d
    by (simp add: tick_def)
  from handler_transitions [of server1 demo_env 1 gw1 "[]" "[]"] r
    handler_transitions [of "CloudServer_init demo_env" demo_env 1 gw1 "[RecvTimeout]" "[]"] r0
    handler_transitions [of server3 demo_env 1 gw1 "[]" "[]" _ _ _ _ gw1]
    handler_transitions [of server3 demo_env 1 gw1 "[]" "[]" _ _ _ _ gw2] c n e
  show ?thesis by simp
qed

theorem read_error_keeps_session:
  "client_thread demo_env 1 gw1 [RecvError OSError] server1 =
     (Reading [], log_info (LogClientError gw1 OSError) server1) \<and>
   map_of (clients (snd (client_thread demo_env 1 gw1 [RecvError OSError] server1))) gw1 =
     Some (1, 1001, PStr ''UNKNOWN'') \<and>
   closed_socks (snd (client_thread demo_env 1 gw1 [RecvError OSError] server1)) = []"
  by (simp add: client_thread_def fixture_defs prim_defs)

text \<open>
  C7, as the code has it. A line that decodes to a JSON object, on a connection that is in
  the registry, sets the last-activity time of that session to the clock reading and its
  gateway identity to the \<^verbatim>\<open>gateway_id\<close> of the message when the message has that key,
  whatever its value; the recorded identity is kept only when the key is absent. The
  other sessions are not touched, and a connection that is not in the registry changes
  nothing in it. So the latest \<^verbatim>\<open>gateway_id\<close> wins, not the first: after a heartbeat of
  GW-1 and one of GW-2 on the same connection the session shows GW-2.
\<close>

theorem session_bookkeeping:
  "(json_loads env line = Inr (PDict d) \<and> map_of (clients st) a = Some (s, seen, gw) \<longrightarrow>
      fst (process_message env sk a line st) = None \<and>
      map_of (clients (snd (process_message env sk a line st))) a =
        Some (s, now env st, dict_get d ''gateway_id'' gw) \<and>
      (\<forall>b. b \<noteq> a \<longrightarrow>
         map_of (clients (snd (process_message env sk a line st))) b = map_of (clients st) b)) \<and>
   (json_loads env line = Inr (PDict d) \<and> map_of (clients st) a = None \<longrightarrow>
      clients (snd (process_message env sk a line st)) = clients st)"
proof (intro conjI impI allI)
  assume h: "json_loads env line = Inr (PDict d) \<and> map_of (clients st) a = Some (s, seen, gw)"
  then have pm: "process_message env sk a line st =
           dispatch env (PDict d)
             ((tick st)\<lparr>clients := AList.update a (s, now env st, dict_get d ''gateway_id'' gw)
                                  (clients st)\<rparr>)"
    by (simp add: process_object)
  show "fst (process_message env sk a line st) = None" by (simp add: pm)
  show "map_of (clients (snd (process_message env sk a line st))) a =
        Some (s, now env st, dict_get d ''gateway_id'' gw)"
    by (simp add: pm update_conv')
  fix b :: addr
  assume "b \<noteq> a"
  then show "map_of (clients (snd (process_message env sk a line st))) b = map_of (clients st) b"
    by (simp add: pm update_conv')
next
  assume "json_loads env line = Inr (PDict d) \<and> map_of (clients st) a = None"
  then show "clients (snd (process_message env sk a line st)) = clients st"
    by (simp add: process_object_unregistered)
qed

theorem session_bookkeeping_witness:
  "json_loads demo_env hb_line = Inr (PDict hb_data) \<and>
   map_of (clients server1) gw1 = Some (1, 1001, PStr ''UNKNOWN'') \<and>
   map_of (clients (snd (process_message demo_env 1 gw1 hb_line server1))) gw1 =
     Some (1, 1002, PStr ''GW-1'') \<and>
   map_of (clients server0) gw1 = None \<and>
   clients (snd (process_message demo_env 1 gw1 hb_line server0)) = clients server0"
proof -
  have a: "json_loads demo_env hb_line = Inr (PDict hb_data)"
    by (simp add: fixture_defs)
  have b: "map_of (clients server1) gw1 = Some (1, 1001, PStr ''UNKNOWN'')"
    by (simp add: fixture_defs prim_defs)
  have c: "now demo_env server1 = 1002"
    by (simp add: fixture_defs prim_defs)
  have d: "dict_get hb_data ''gateway_id'' (PStr ''UNKNOWN'') = PStr ''GW-1''"
    by (simp add: dict_get_def hb_data_def)
  have e: "map_of (clients server0) gw1 = None"
    by (simp add: fixture_defs prim_defs)
  from session_bookkeeping [of demo_env hb_line hb_data server1 gw1 1 1001 "PStr ''UNKNOWN''" 1]
    session_bookkeeping [of demo_env hb_line hb_data server0 gw1 _ _ _ 1]
    a b c d e
  show ?thesis by simp
qed

theorem first_gateway_id_replaced:
  "map_of (clients (run demo_env [Message 1 gw1 hb_line] server1)) gw1 =
     Some (1, 1002, PStr ''GW-1'') \<and>
   map_of (clients (run demo_env [Message 1 gw1 hb_line, Message 1 gw1 hb2_line] server1)) gw1 =
     Some (1, 1003, PStr ''GW-2'')"
  by (simp add: run_def fixture_defs prim_defs message_defs py_get_def dict_get_def Let_def)

text \<open>
  C8. The scenarios against the ingestion path. An iteration of the fire scenarios is the
  room block of \<^verbatim>\<open>_on_data\<close> on the same values (\<open>fire_tick_as_data_block\<close>). The vehicle
  scenarios are not: \<^verbatim>\<open>_scenario_car1\<close> writes the status and appends the fixed event
  "Car1 PARKED -> RUNNING" whatever the status was (\<open>scenario_car_first_event\<close>). On a
  server that has just started the status of car1 is UNKNOWN: the scenario records
  PARKED -> RUNNING where \<^verbatim>\<open>_on_data\<close> on the same value records UNKNOWN -> RUNNING; and
  when car1 is RUNNING already, \<^verbatim>\<open>_on_data\<close> adds no event and the scenario adds
  PARKED -> RUNNING again.
\<close>

theorem car_scenario_event_ignores_status:
  "map_option car_status (sensor_data server0 ''car1'') = Some (PStr ''UNKNOWN'') \<and>
   events server0 = [(1000, [Lit ''Starting cloud server ...''])] \<and>
   take 2 (events (scenario_car1 demo_env None server0)) =
     [(1000, [Lit ''Starting cloud server ...'']),
      (1002, [Lit (car_red @ '' Car1 PARKED -> RUNNING'')])] \<and>
   events (on_data demo_env car_data server0) =
     [(1000, [Lit ''Starting cloud server ...'']),
      (1002, [Lit (car_red @ '' Car1 UNKNOWN -> RUNNING'')])] \<and>
   map_option car_status (sensor_data (on_data demo_env car_data server0) ''car1'') =
     Some (PStr ''RUNNING'') \<and>
   events (on_data demo_env car_data (on_data demo_env car_data server0)) =
     events (on_data demo_env car_data server0) \<and>
   take 3 (events (scenario_car1 demo_env None (on_data demo_env car_data server0))) =
     events (on_data demo_env car_data server0) @
     [(1004, [Lit (car_red @ '' Car1 PARKED -> RUNNING'')])]"
proof -
  let ?s1 = "on_data demo_env car_data server0"
  have a: "sensor_data server0 ''car1'' = Some (SensorData_init MAX_DATA_POINTS)"
    by (simp add: fixture_defs prim_defs)
  have a': "map_option car_status (sensor_data server0 ''car1'') = Some (PStr ''UNKNOWN'')"
    by (simp add: fixture_defs prim_defs)
  have e0: "events server0 = [(1000, [Lit ''Starting cloud server ...''])]"
    and c0: "clock server0 = 1"
    by (simp_all add: fixture_defs prim_defs)
  have t: "time_at demo_env (Suc (Suc 0)) = 1002"
    "time_at demo_env (Suc (Suc (Suc (Suc 0)))) = 1004"
    by (simp_all add: demo_env_def)
  have b: "take 2 (events (scenario_car1 demo_env None server0)) =
     [(1000, [Lit ''Starting cloud server ...'']),
      (1002, [Lit (car_red @ '' Car1 PARKED -> RUNNING'')])]"
    using scenario_car_first_event [OF a, of demo_env "''Car1''" car_red]
    by (simp add: scenario_car1_def e0 c0 t numeral_2_eq_2)
  have e1: "events ?s1 =
     [(1000, [Lit ''Starting cloud server ...'']),
      (1002, [Lit (car_red @ '' Car1 UNKNOWN -> RUNNING'')])]"
    by (simp add: fixture_defs prim_defs data_defs Let_def)
  have s1: "map_option car_status (sensor_data ?s1 ''car1'') = Some (PStr ''RUNNING'')"
    by (simp add: fixture_defs prim_defs data_defs Let_def)
  have c1: "clock ?s1 = 3"
    by (simp add: fixture_defs prim_defs data_defs Let_def)
  have e2: "events (on_data demo_env car_data ?s1) = events ?s1"
    by (simp add: fixture_defs prim_defs data_defs Let_def)
  from s1 obtain d1 where d1: "sensor_data ?s1 ''car1'' = Some d1" by auto
  have f: "take 3 (events (scenario_car1 demo_env None ?s1)) =
     events ?s1 @ [(1004, [Lit (car_red @ '' Car1 PARKED -> RUNNING'')])]"
    using scenario_car_first_event [OF d1, of demo_env "''Car1''" car_red]
    by (simp add: scenario_car1_def e1 c1 t numeral_3_eq_3)
  show ?thesis using a' e0 b e1 s1 e2 f by blast
qed

text \<open>
  C10. The sample sequences of an entity stay aligned. The server starts with the
  timestamps, smoke, CO2 and fire sequences of each room ('1200400', '1211371') equally
  long and the timestamps and temperature sequences of each vehicle ('car1', 'car2')
  equally long; every action of the server keeps this; so it holds after every sequence
  of actions. A room ingestion (\<^verbatim>\<open>add_room\<close>) appends one element to each of the four room
  sequences, with 0.0 for a value that is missing, and leaves the temperature sequence
  alone; a vehicle ingestion (\<^verbatim>\<open>add_car\<close>) appends one element to the timestamps and to the
  temperature sequence, with 0.0 for a missing temperature, and leaves the three room
  sequences alone. The block of \<^verbatim>\<open>_on_data\<close> for a room whose readings are in the payload
  does one room ingestion of these readings on that room, and the block for a vehicle one
  vehicle ingestion on that vehicle. So does \<^verbatim>\<open>_on_data\<close> as a whole, for each of the four
  entities whose readings are in the payload, when the blocks before that of the entity
  do not raise: the sequences of the entity afterwards are those of one ingestion, at the
  time \<^verbatim>\<open>_on_data\<close> reads the clock, of what the payload holds. An iteration of a fire, CO2
  or vehicle scenario does one ingestion of its computed values on its entity.
\<close>

theorem sequences_stay_aligned:
  "entities_aligned (CloudServer_init env) \<and>
   (entities_aligned st \<longrightarrow> entities_aligned (step env st act)) \<and>
   entities_aligned (run env acts (CloudServer_init env)) \<and>
   smoke (add_room ts None co fi d) = dq_append (smoke d) 0 \<and>
   co2 (add_room ts sm None fi d) = dq_append (co2 d) 0 \<and>
   fire (add_room ts sm co None d) = dq_append (fire d) 0 \<and>
   timestamps (add_room ts sm co fi d) = dq_append (timestamps d) ts \<and>
   car_temp (add_room ts sm co fi d) = car_temp d \<and>
   sequences (add_room ts (Some s) (Some c) (Some f) d) =
     (dq_append (timestamps d) ts, dq_append (smoke d) s, dq_append (co2 d) c,
      dq_append (fire d) f, car_temp d) \<and>
   sequences (add_car ts (Some t) status d) =
     (dq_append (timestamps d) ts, smoke d, co2 d, fire d, dq_append (car_temp d) t) \<and>
   sequences (add_car ts None status d) =
     (dq_append (timestamps d) ts, smoke d, co2 d, fire d, dq_append (car_temp d) 0) \<and>
   (sensor_data sta key = Some da \<and>
    room_sample env sensors ks kc kf = Inr (Some (s, c, f)) \<longrightarrow>
      (\<exists>st'. on_data_room env key ks kc kf sensors ts sta = Inr st' \<and>
         map_option sequences (sensor_data st' key) =
           Some (sequences (add_room ts (Some s) (Some c) (Some f) da)))) \<and>
   (sensor_data stb ck = Some db \<and>
    car_sample env carsens kt kst = Inr (Some (t, status)) \<longrightarrow>
      (\<exists>st'. on_data_car env ck label emoji kt kst carsens ts stb = Inr st' \<and>
         map_option sequences (sensor_data st' ck) =
           Some (sequences (add_car ts (Some t) status db)))) \<and>
   (reaches_blocks msg stm \<and> sensor_data stm ''1200400'' = Some dm \<and>
    room_sample env (dict_get msg ''sensors'' (PDict [])) ''smoke1'' ''co2_1'' ''fire1''
      = Inr (Some (s, c, f)) \<longrightarrow>
      map_option sequences (sensor_data (on_data env msg stm) ''1200400'') =
        Some (sequences (add_room (now env stm) (Some s) (Some c) (Some f) dm))) \<and>
   (reaches_blocks msg stm \<and> sensor_data stm ''1200400'' \<noteq> None \<and>
    room_sample env (dict_get msg ''sensors'' (PDict [])) ''smoke1'' ''co2_1'' ''fire1''
      = Inr ra \<and>
    sensor_data stm ''1211371'' = Some dm \<and>
    room_sample env (dict_get msg ''sensors'' (PDict [])) ''smoke2'' ''co2_2'' ''fire2''
      = Inr (Some (s, c, f)) \<longrightarrow>
      map_option sequences (sensor_data (on_data env msg stm) ''1211371'') =
        Some (sequences (add_room (now env stm) (Some s) (Some c) (Some f) dm))) \<and>
   (reaches_blocks msg stm \<and> sensor_data stm ''1200400'' \<noteq> None \<and>
    sensor_data stm ''1211371'' \<noteq> None \<and>
    room_sample env (dict_get msg ''sensors'' (PDict [])) ''smoke1'' ''co2_1'' ''fire1''
      = Inr ra \<and>
    room_sample env (dict_get msg ''sensors'' (PDict [])) ''smoke2'' ''co2_2'' ''fire2''
      = Inr rb \<and>
    sensor_data stm ''car1'' = Some dm \<and>
    car_sample env (dict_get msg ''sensors'' (PDict [])) ''car1_temp'' ''car1_status''
      = Inr (Some (t, status)) \<longrightarrow>
      map_option sequences (sensor_data (on_data env msg stm) ''car1'') =
        Some (sequences (add_car (now env stm) (Some t) status dm))) \<and>
   (reaches_blocks msg stm \<and> sensor_data stm ''1200400'' \<noteq> None \<and>
    sensor_data stm ''1211371'' \<noteq> None \<and> sensor_data stm ''car1'' \<noteq> None \<and>
    room_sample env (dict_get msg ''sensors'' (PDict [])) ''smoke1'' ''co2_1'' ''fire1''
      = Inr ra \<and>
    room_sample env (dict_get msg ''sensors'' (PDict [])) ''smoke2'' ''co2_2'' ''fire2''
      = Inr rb \<and>
    car_sample env (dict_get msg ''sensors'' (PDict [])) ''car1_temp'' ''car1_status''
      = Inr rc \<and>
    sensor_data stm ''car2'' = Some dm \<and>
    car_sample env (dict_get msg ''sensors'' (PDict [])) ''car2_temp'' ''car2_status''
      = Inr (Some (t, status)) \<longrightarrow>
      map_option sequences (sensor_data (on_data env msg stm) ''car2'') =
        Some (sequences (add_car (now env stm) (Some t) status dm))) \<and>
   (sensor_data stc (room_key first) = Some dc \<longrightarrow>
      map_option sequences
        (sensor_data (step env stc (FireTick first base i)) (room_key first)) =
      Some (sequences
        (add_room (now env stc)
           (Some (round_double env
                    (base + min 25 (round_double env (of_nat i * round_double env (4 / 5))))))
           (Some (round_double env
                    (round_double env
                       (base + min 25 (round_double env (of_nat i * round_double env (4 / 5)))) *
                     10)))
           (Some (round_double env
                    (round_double env
                       (base + min 25 (round_double env (of_nat i * round_double env (4 / 5)))) *
                     round_double env (3 / 5)))) dc)) \<and>
      map_option sequences
        (sensor_data (step env stc (Co2Tick first base i)) (room_key first)) =
      Some (sequences
        (add_room (now env stc) None
           (Some (round_double env (round_double env (base + 50) + of_nat i * 25))) None dc))) \<and>
   (sensor_data std (car_key first) = Some dd \<longrightarrow>
      map_option sequences
        (sensor_data (step env std (CarTick first base i)) (car_key first)) =
      Some (sequences
        (add_car (now env std) (Some (round_double env (base + min 60 (of_nat i * 3))))
           (PStr ''RUNNING'') dd)))"
proof -
  have s: "evolves True st (step env st act)" by (simp add: evolves_step)
  have r: "evolves True (CloudServer_init env) (run env acts (CloudServer_init env))"
    by (rule evolves_run) simp
  have inv: "entities_aligned (CloudServer_init env)"
    "entities_aligned st \<longrightarrow> entities_aligned (step env st act)"
    "entities_aligned (run env acts (CloudServer_init env))"
    using evolves_aligned [OF s] evolves_aligned [OF r aligned_init] aligned_init by simp_all
  have room: "smoke (add_room ts None co fi d) = dq_append (smoke d) 0"
    "co2 (add_room ts sm None fi d) = dq_append (co2 d) 0"
    "fire (add_room ts sm co None d) = dq_append (fire d) 0"
    "timestamps (add_room ts sm co fi d) = dq_append (timestamps d) ts"
    "car_temp (add_room ts sm co fi d) = car_temp d"
    "sequences (add_room ts (Some s) (Some c) (Some f) d) =
     (dq_append (timestamps d) ts, dq_append (smoke d) s, dq_append (co2 d) c,
      dq_append (fire d) f, car_temp d)"
    by (simp_all add: add_room_def or_zero_def sequences_def)
  have car: "sequences (add_car ts (Some t) status d) =
     (dq_append (timestamps d) ts, smoke d, co2 d, fire d, dq_append (car_temp d) t)"
    "sequences (add_car ts None status d) =
     (dq_append (timestamps d) ts, smoke d, co2 d, fire d, dq_append (car_temp d) 0)"
    by (simp_all add: add_car_def or_zero_def sequences_def Let_def)
  have b1: "(sensor_data sta key = Some da \<and>
    room_sample env sensors ks kc kf = Inr (Some (s, c, f)) \<longrightarrow>
      (\<exists>st'. on_data_room env key ks kc kf sensors ts sta = Inr st' \<and>
         map_option sequences (sensor_data st' key) =
           Some (sequences (add_room ts (Some s) (Some c) (Some f) da))))"
    using on_data_room_appends [of sta key da env sensors ks kc kf s c f ts] by blast
  have b2: "(sensor_data stb ck = Some db \<and>
    car_sample env carsens kt kst = Inr (Some (t, status)) \<longrightarrow>
      (\<exists>st'. on_data_car env ck label emoji kt kst carsens ts stb = Inr st' \<and>
         map_option sequences (sensor_data st' ck) =
           Some (sequences (add_car ts (Some t) status db))))"
    using on_data_car_appends [of stb ck db env carsens kt kst t status label emoji ts] by blast
  have m1: "(reaches_blocks msg stm \<and> sensor_data stm ''1200400'' = Some dm \<and>
    room_sample env (dict_get msg ''sensors'' (PDict [])) ''smoke1'' ''co2_1'' ''fire1''
      = Inr (Some (s, c, f)) \<longrightarrow>
      map_option sequences (sensor_data (on_data env msg stm) ''1200400'') =
        Some (sequences (add_room (now env stm) (Some s) (Some c) (Some f) dm)))"
    using on_data_first_room [of msg stm dm env s c f] by blast
  have m2: "(reaches_blocks msg stm \<and> sensor_data stm ''1200400'' \<noteq> None \<and>
    room_sample env (dict_get msg ''sensors'' (PDict [])) ''smoke1'' ''co2_1'' ''fire1''
      = Inr ra \<and>
    sensor_data stm ''1211371'' = Some dm \<and>
    room_sample env (dict_get msg ''sensors'' (PDict [])) ''smoke2'' ''co2_2'' ''fire2''
      = Inr (Some (s, c, f)) \<longrightarrow>
      map_option sequences (sensor_data (on_data env msg stm) ''1211371'') =
        Some (sequences (add_room (now env stm) (Some s) (Some c) (Some f) dm)))"
    using on_data_second_room [of msg stm env ra dm s c f] by blast
  have m3: "(reaches_blocks msg stm \<and> sensor_data stm ''1200400'' \<noteq> None \<and>
    sensor_data stm ''1211371'' \<noteq> None \<and>
    room_sample env (dict_get msg ''sensors'' (PDict [])) ''smoke1'' ''co2_1'' ''fire1''
      = Inr ra \<and>
    room_sample env (dict_get msg ''sensors'' (PDict [])) ''smoke2'' ''co2_2'' ''fire2''
      = Inr rb \<and>
    sensor_data stm ''car1'' = Some dm \<and>
    car_sample env (dict_get msg ''sensors'' (PDict [])) ''car1_temp'' ''car1_status''
      = Inr (Some (t, status)) \<longrightarrow>
      map_option sequences (sensor_data (on_data env msg stm) ''car1'') =
        Some (sequences (add_car (now env stm) (Some t) status dm)))"
    using on_data_first_car [of msg stm env ra rb dm t status] by blast
  have m4: "(reaches_blocks msg stm \<and> sensor_data stm ''1200400'' \<noteq> None \<and>
    sensor_data stm ''1211371'' \<noteq> None \<and> sensor_data stm ''car1'' \<noteq> None \<and>
    room_sample env (dict_get msg ''sensors'' (PDict [])) ''smoke1'' ''co2_1'' ''fire1''
      = Inr ra \<and>
    room_sample env (dict_get msg ''sensors'' (PDict [])) ''smoke2'' ''co2_2'' ''fire2''
      = Inr rb \<and>
    car_sample env (dict_get msg ''sensors'' (PDict [])) ''car1_temp'' ''car1_status''
      = Inr rc \<and>
    sensor_data stm ''car2'' = Some dm \<and>
    car_sample env (dict_get msg ''sensors'' (PDict [])) ''car2_temp'' ''car2_status''
      = Inr (Some (t, status)) \<longrightarrow>
      map_option sequences (sensor_data (on_data env msg stm) ''car2'') =
        Some (sequences (add_car (now env stm) (Some t) status dm)))"
    using on_data_second_car [of msg stm env ra rb rc dm t status] by blast
  have k1: "(sensor_data stc (room_key first) = Some dc \<longrightarrow>
      map_option sequences
        (sensor_data (step env stc (FireTick first base i)) (room_key first)) =
      Some (sequences
        (add_room (now env stc)
           (Some (round_double env
                    (base + min 25 (round_double env (of_nat i * round_double env (4 / 5))))))
           (Some (round_double env
                    (round_double env
                       (base + min 25 (round_double env (of_nat i * round_double env (4 / 5)))) *
                     10)))
           (Some (round_double env
                    (round_double env
                       (base + min 25 (round_double env (of_nat i * round_double env (4 / 5)))) *
                     round_double env (3 / 5)))) dc)) \<and>
      map_option sequences
        (sensor_data (step env stc (Co2Tick first base i)) (room_key first)) =
      Some (sequences
        (add_room (now env stc) None
           (Some (round_double env (round_double env (base + 50) + of_nat i * 25))) None dc)))"
    using fire_tick_appends [of stc first dc env base i]
      co2_tick_appends [of stc first dc env base i] by blast
  have k2: "(sensor_data std (car_key first) = Some dd \<longrightarrow>
      map_option sequences
        (sensor_data (step env std (CarTick first base i)) (car_key first)) =
      Some (sequences
        (add_car (now env std) (Some (round_double env (base + min 60 (of_nat i * 3))))
           (PStr ''RUNNING'') dd)))"
    using car_tick_appends [of std first dd env base i] by blast
  show ?thesis
    using inv room car b1 b2 m1 m2 m3 m4 k1 k2 by (intro conjI) assumption+
qed

theorem sequences_stay_aligned_witness:
  "entities_aligned server1 \<and>
   entities_aligned (step demo_env server1 (Message 1 gw1 smoke_line)) \<and>
   map_option (\<lambda>d. (items (timestamps d), items (smoke d), items (co2 d), items (fire d)))
     (sensor_data (step demo_env server1 (Message 1 gw1 smoke_line)) ''1200400'')
   = Some ([1003], [123 / 2], [0], [0]) \<and>
   entities_aligned (step demo_env server1 (Message 1 gw1 car_line)) \<and>
   map_option (\<lambda>d. (items (timestamps d), items (car_temp d), items (smoke d)))
     (sensor_data (step demo_env server1 (Message 1 gw1 car_line)) ''car1'')
   = Some ([1003], [30], []) \<and>
   (\<exists>st'. on_data_room demo_env ''1200400'' ''smoke1'' ''co2_1'' ''fire1''
             (PDict [(''smoke1'', PFloat (123 / 2))]) 1003 server1 = Inr st' \<and>
          map_option (\<lambda>d. (items (timestamps d), items (smoke d), items (co2 d), items (fire d)))
            (sensor_data st' ''1200400'') = Some ([1003], [123 / 2], [0], [0])) \<and>
   (\<exists>st'. on_data_car demo_env ''car1'' ''Car1'' car_red ''car1_temp'' ''car1_status''
             (PDict [(''car1_temp'', PFloat 30), (''car1_status'', PStr ''RUNNING'')])
             1003 server1 = Inr st' \<and>
          map_option (\<lambda>d. (items (timestamps d), items (car_temp d)))
            (sensor_data st' ''car1'') = Some ([1003], [30])) \<and>
   map_option (\<lambda>d. (items (timestamps d), items (smoke d), items (co2 d), items (fire d)))
     (sensor_data (on_data demo_env smoke_data server1) ''1200400'')
   = Some ([1002], [123 / 2], [0], [0]) \<and>
   map_option (\<lambda>d. (items (timestamps d), items (smoke d), items (co2 d), items (fire d)))
     (sensor_data (on_data demo_env second_data server1) ''1211371'')
   = Some ([1002], [70], [0], [0]) \<and>
   map_option (\<lambda>d. (items (timestamps d), items (car_temp d)))
     (sensor_data (on_data demo_env car_data server1) ''car1'')
   = Some ([1002], [30]) \<and>
   map_option (\<lambda>d. (items (timestamps d), items (car_temp d)))
     (sensor_data (on_data demo_env [(''sensors'', PDict [(''car2_temp'', PFloat 40)])] server1)
        ''car2'')
   = Some ([1002], [40]) \<and>
   map_option (\<lambda>d. (items (timestamps d), items (smoke d), items (co2 d), items (fire d)))
     (sensor_data (step demo_env server1 (Co2Tick True 800 1)) ''1200400'')
   = Some ([1002], [0], [875], [0]) \<and>
   map_option (\<lambda>d. (items (timestamps d), items (car_temp d)))
     (sensor_data (step demo_env server1 (CarTick True 25 1)) ''car1'')
   = Some ([1002], [28])"
proof -
  let ?room = "PDict [(''smoke1'', PFloat (123 / 2))]"
  let ?second = "PDict [(''smoke2'', PFloat 70)]"
  let ?car = "PDict [(''car1_temp'', PFloat 30), (''car1_status'', PStr ''RUNNING'')]"
  let ?other = "[(''sensors'', PDict [(''car2_temp'', PFloat 40)])]"
  let ?d = "SensorData_init 100"
  have a: "entities_aligned server1"
    by (simp add: entities_aligned_def entity_ok_def room_aligned_def car_aligned_def
          fixture_defs prim_defs)
  have b: "map_option (\<lambda>d. (items (timestamps d), items (smoke d), items (co2 d), items (fire d)))
     (sensor_data (step demo_env server1 (Message 1 gw1 smoke_line)) ''1200400'')
   = Some ([1003], [123 / 2], [0], [0])"
    by (simp add: fixture_defs prim_defs data_defs message_defs Let_def)
  have c: "map_option (\<lambda>d. (items (timestamps d), items (car_temp d), items (smoke d)))
     (sensor_data (step demo_env server1 (Message 1 gw1 car_line)) ''car1'')
   = Some ([1003], [30], [])"
    by (simp add: fixture_defs prim_defs data_defs message_defs Let_def)
  have e: "sensor_data server1 ''1200400'' = Some ?d" "sensor_data server1 ''1211371'' = Some ?d"
    "sensor_data server1 ''car1'' = Some ?d" "sensor_data server1 ''car2'' = Some ?d"
    by (simp_all add: fixture_defs prim_defs)
  have tm: "now demo_env server1 = 1002"
    by (simp add: fixture_defs prim_defs)
  have ne: "sensor_data server1 ''1200400'' \<noteq> None" "sensor_data server1 ''1211371'' \<noteq> None"
    "sensor_data server1 ''car1'' \<noteq> None"
    using e by simp_all
  have k: "room_key True = ''1200400''" "car_key True = ''car1''"
    by (simp_all add: room_key_def car_key_def)
  have g: "dict_get smoke_data ''sensors'' (PDict []) = ?room"
    "dict_get second_data ''sensors'' (PDict []) = ?second"
    "dict_get car_data ''sensors'' (PDict []) = ?car"
    "dict_get ?other ''sensors'' (PDict []) = PDict [(''car2_temp'', PFloat 40)]"
    by (simp_all add: dict_get_def smoke_data_def second_data_def car_data_def)
  have rb: "reaches_blocks smoke_data server1" "reaches_blocks second_data server1"
    "reaches_blocks car_data server1" "reaches_blocks ?other server1"
    by (simp_all add: reaches_blocks_def fixture_defs prim_defs py_max_def py_len_def
          dict_get_def)
  have h1: "room_sample demo_env ?room ''smoke1'' ''co2_1'' ''fire1'' = Inr (Some (123 / 2, 0, 0))"
    by (simp add: data_defs)
  have h2: "room_sample demo_env ?second ''smoke1'' ''co2_1'' ''fire1'' = Inr None"
    "room_sample demo_env ?second ''smoke2'' ''co2_2'' ''fire2'' = Inr (Some (70, 0, 0))"
    by (simp_all add: data_defs)
  have h3: "room_sample demo_env ?car ''smoke1'' ''co2_1'' ''fire1'' = Inr None"
    "room_sample demo_env ?car ''smoke2'' ''co2_2'' ''fire2'' = Inr None"
    "car_sample demo_env ?car ''car1_temp'' ''car1_status'' = Inr (Some (30, PStr ''RUNNING''))"
    by (simp_all add: car_sample_def data_defs)
  have h4: "room_sample demo_env (PDict [(''car2_temp'', PFloat 40)]) ''smoke1'' ''co2_1'' ''fire1'' =
       Inr None"
    "room_sample demo_env (PDict [(''car2_temp'', PFloat 40)]) ''smoke2'' ''co2_2'' ''fire2'' =
       Inr None"
    "car_sample demo_env (PDict [(''car2_temp'', PFloat 40)]) ''car1_temp'' ''car1_status'' =
       Inr None"
    "car_sample demo_env (PDict [(''car2_temp'', PFloat 40)]) ''car2_temp'' ''car2_status'' =
       Inr (Some (40, PStr ''UNKNOWN''))"
    by (simp_all add: car_sample_def data_defs)
  have rd: "round_double demo_env r = r" for r by (simp add: demo_env_def)
  have ar: "(25::rat) + min 60 (of_nat 1 * 3) = 28" "(800::rat) + 50 + of_nat 1 * 25 = 875"
    by simp_all
  note base = sequences_stay_aligned [where env = demo_env and st = server1
      and acts = "[]" and ts = 1003 and co = None
      and fi = None and sm = None and d = ?d
      and sta = server1 and key = "''1200400''"
      and da = ?d and sensors = ?room and ks = "''smoke1''" and kc = "''co2_1''"
      and kf = "''fire1''" and stb = server1 and ck = "''car1''" and db = ?d
      and kt = "''car1_temp''" and kst = "''car1_status''" and carsens = ?car
      and label = "''Car1''" and emoji = car_red and stc = server1 and first = True
      and dc = ?d and i = 1 and std = server1 and dd = ?d and stm = server1 and dm = ?d]
  note t1 = base [where act = "Message 1 gw1 smoke_line" and s = "123 / 2" and c = 0 and f = 0
      and t = 30 and status = "PStr ''RUNNING''" and base = 800 and msg = smoke_data
      and ra = None and rb = None and rc = None]
  note t2 = base [where act = "Message 1 gw1 car_line" and s = 70 and c = 0 and f = 0
      and t = 30 and status = "PStr ''RUNNING''" and base = 25 and msg = second_data
      and ra = None and rb = None and rc = None]
  note t3 = base [where act = "Message 1 gw1 car_line" and s = 70 and c = 0 and f = 0
      and t = 30 and status = "PStr ''RUNNING''" and base = 25 and msg = car_data
      and ra = None and rb = None and rc = None]
  note t4 = base [where act = "Message 1 gw1 car_line" and s = 70 and c = 0 and f = 0
      and t = 40 and status = "PStr ''UNKNOWN''" and base = 25 and msg = ?other
      and ra = None and rb = None and rc = None]
  have a1: "entities_aligned (step demo_env server1 (Message 1 gw1 smoke_line))"
    by (rule t1 [THEN conjunct2, THEN conjunct1, THEN mp, OF a])
  have a2: "entities_aligned (step demo_env server1 (Message 1 gw1 car_line))"
    by (rule t2 [THEN conjunct2, THEN conjunct1, THEN mp, OF a])
  have sq: "sequences (add_room 1003 (Some (123 / 2)) (Some 0) (Some 0) ?d) =
      (\<lparr>maxlen = 100, items = [1003]\<rparr>, \<lparr>maxlen = 100, items = [123 / 2]\<rparr>,
       \<lparr>maxlen = 100, items = [0]\<rparr>, \<lparr>maxlen = 100, items = [0]\<rparr>, \<lparr>maxlen = 100, items = []\<rparr>)"
    "sequences (add_car 1003 (Some 30) (PStr ''RUNNING'') ?d) =
      (\<lparr>maxlen = 100, items = [1003]\<rparr>, \<lparr>maxlen = 100, items = []\<rparr>,
       \<lparr>maxlen = 100, items = []\<rparr>, \<lparr>maxlen = 100, items = []\<rparr>, \<lparr>maxlen = 100, items = [30]\<rparr>)"
    "sequences (add_room 1002 None (Some 875) None ?d) =
      (\<lparr>maxlen = 100, items = [1002]\<rparr>, \<lparr>maxlen = 100, items = [0]\<rparr>,
       \<lparr>maxlen = 100, items = [875]\<rparr>, \<lparr>maxlen = 100, items = [0]\<rparr>, \<lparr>maxlen = 100, items = []\<rparr>)"
    "sequences (add_car 1002 (Some 28) (PStr ''RUNNING'') ?d) =
      (\<lparr>maxlen = 100, items = [1002]\<rparr>, \<lparr>maxlen = 100, items = []\<rparr>,
       \<lparr>maxlen = 100, items = []\<rparr>, \<lparr>maxlen = 100, items = []\<rparr>, \<lparr>maxlen = 100, items = [28]\<rparr>)"
    "sequences (add_room 1002 (Some (123 / 2)) (Some 0) (Some 0) ?d) =
      (\<lparr>maxlen = 100, items = [1002]\<rparr>, \<lparr>maxlen = 100, items = [123 / 2]\<rparr>,
       \<lparr>maxlen = 100, items = [0]\<rparr>, \<lparr>maxlen = 100, items = [0]\<rparr>, \<lparr>maxlen = 100, items = []\<rparr>)"
    "sequences (add_room 1002 (Some 70) (Some 0) (Some 0) ?d) =
      (\<lparr>maxlen = 100, items = [1002]\<rparr>, \<lparr>maxlen = 100, items = [70]\<rparr>,
       \<lparr>maxlen = 100, items = [0]\<rparr>, \<lparr>maxlen = 100, items = [0]\<rparr>, \<lparr>maxlen = 100, items = []\<rparr>)"
    "sequences (add_car 1002 (Some 30) (PStr ''RUNNING'') ?d) =
      (\<lparr>maxlen = 100, items = [1002]\<rparr>, \<lparr>maxlen = 100, items = []\<rparr>,
       \<lparr>maxlen = 100, items = []\<rparr>, \<lparr>maxlen = 100, items = []\<rparr>, \<lparr>maxlen = 100, items = [30]\<rparr>)"
    "sequences (add_car 1002 (Some 40) (PStr ''UNKNOWN'') ?d) =
      (\<lparr>maxlen = 100, items = [1002]\<rparr>, \<lparr>maxlen = 100, items = []\<rparr>,
       \<lparr>maxlen = 100, items = []\<rparr>, \<lparr>maxlen = 100, items = []\<rparr>, \<lparr>maxlen = 100, items = [40]\<rparr>)"
    by (simp_all add: sequences_def add_room_def add_car_def or_zero_def dq_append_def
          SensorData_init_def deque_new_def Let_def)
  have pick: "map_option (\<lambda>d. (items (timestamps d), items (smoke d), items (co2 d), items (fire d))) x =
      Some (items q1, items q2, items q3, items q4)"
    "map_option (\<lambda>d. (items (timestamps d), items (car_temp d))) x = Some (items q1, items q5)"
    if "map_option sequences x = Some (q1, q2, q3, q4, q5)" for x q1 q2 q3 q4 q5
    using that by (cases x; auto simp: sequences_def)+
  from t1 [THEN conjunct2, THEN conjunct2, THEN conjunct2, THEN conjunct2, THEN conjunct2,
           THEN conjunct2, THEN conjunct2, THEN conjunct2, THEN conjunct2, THEN conjunct2,
           THEN conjunct2, THEN conjunct1, THEN mp, OF conjI [OF e(1) h1]] obtain st' where
    r1: "on_data_room demo_env ''1200400'' ''smoke1'' ''co2_1'' ''fire1'' ?room 1003 server1 = Inr st'"
    and r2: "map_option sequences (sensor_data st' ''1200400'') =
       Some (sequences (add_room 1003 (Some (123 / 2)) (Some 0) (Some 0) ?d))"
    by blast
  have r: "\<exists>st'. on_data_room demo_env ''1200400'' ''smoke1'' ''co2_1'' ''fire1'' ?room 1003
             server1 = Inr st' \<and>
          map_option (\<lambda>d. (items (timestamps d), items (smoke d), items (co2 d), items (fire d)))
            (sensor_data st' ''1200400'') = Some ([1003], [123 / 2], [0], [0])"
    using r1 pick(1) [OF r2 [unfolded sq]] by auto
  from t1 [THEN conjunct2, THEN conjunct2, THEN conjunct2, THEN conjunct2, THEN conjunct2,
           THEN conjunct2, THEN conjunct2, THEN conjunct2, THEN conjunct2, THEN conjunct2,
           THEN conjunct2, THEN conjunct2, THEN conjunct1, THEN mp, OF conjI [OF e(3) h3(3)]] obtain st'' where
    v1: "on_data_car demo_env ''car1'' ''Car1'' car_red ''car1_temp'' ''car1_status'' ?car 1003
           server1 = Inr st''"
    and v2: "map_option sequences (sensor_data st'' ''car1'') =
       Some (sequences (add_car 1003 (Some 30) (PStr ''RUNNING'') ?d))"
    by blast
  have v: "\<exists>st'. on_data_car demo_env ''car1'' ''Car1'' car_red ''car1_temp'' ''car1_status'' ?car
             1003 server1 = Inr st' \<and>
          map_option (\<lambda>d. (items (timestamps d), items (car_temp d)))
            (sensor_data st' ''car1'') = Some ([1003], [30])"
    using v1 pick(2) [OF v2 [unfolded sq]] by auto
  have "reaches_blocks smoke_data server1 \<and> sensor_data server1 ''1200400'' = Some ?d \<and>
      room_sample demo_env (dict_get smoke_data ''sensors'' (PDict [])) ''smoke1'' ''co2_1'' ''fire1''
        = Inr (Some (123 / 2, 0, 0))"
    unfolding g using rb(1) e(1) h1 by (intro conjI)
  from t1 [THEN conjunct2, THEN conjunct2, THEN conjunct2, THEN conjunct2, THEN conjunct2,
           THEN conjunct2, THEN conjunct2, THEN conjunct2, THEN conjunct2, THEN conjunct2,
           THEN conjunct2, THEN conjunct2, THEN conjunct2, THEN conjunct1, THEN mp, OF this]
  have "map_option sequences (sensor_data (on_data demo_env smoke_data server1) ''1200400'') =
      Some (sequences (add_room 1002 (Some (123 / 2)) (Some 0) (Some 0) ?d))"
    unfolding tm .
  from pick(1) [OF this [unfolded sq]]
  have m1: "map_option (\<lambda>d. (items (timestamps d), items (smoke d), items (co2 d), items (fire d)))
     (sensor_data (on_data demo_env smoke_data server1) ''1200400'')
   = Some ([1002], [123 / 2], [0], [0])" by simp
  have "reaches_blocks second_data server1 \<and> sensor_data server1 ''1200400'' \<noteq> None \<and>
      room_sample demo_env (dict_get second_data ''sensors'' (PDict [])) ''smoke1'' ''co2_1'' ''fire1''
        = Inr None \<and>
      sensor_data server1 ''1211371'' = Some ?d \<and>
      room_sample demo_env (dict_get second_data ''sensors'' (PDict [])) ''smoke2'' ''co2_2'' ''fire2''
        = Inr (Some (70, 0, 0))"
    unfolding g using rb(2) ne(1) h2(1) e(2) h2(2) by (intro conjI)
  from t2 [THEN conjunct2, THEN conjunct2, THEN conjunct2, THEN conjunct2, THEN conjunct2,
           THEN conjunct2, THEN conjunct2, THEN conjunct2, THEN conjunct2, THEN conjunct2,
           THEN conjunct2, THEN conjunct2, THEN conjunct2, THEN conjunct2, THEN conjunct1,
           THEN mp, OF this]
  have "map_option sequences (sensor_data (on_data demo_env second_data server1) ''1211371'') =
      Some (sequences (add_room 1002 (Some 70) (Some 0) (Some 0) ?d))"
    unfolding tm .
  from pick(1) [OF this [unfolded sq]]
  have m2: "map_option (\<lambda>d. (items (timestamps d), items (smoke d), items (co2 d), items (fire d)))
     (sensor_data (on_data demo_env second_data server1) ''1211371'')
   = Some ([1002], [70], [0], [0])" by simp
  have "reaches_blocks car_data server1 \<and> sensor_data server1 ''1200400'' \<noteq> None \<and>
      sensor_data server1 ''1211371'' \<noteq> None \<and>
      room_sample demo_env (dict_get car_data ''sensors'' (PDict [])) ''smoke1'' ''co2_1'' ''fire1''
        = Inr None \<and>
      room_sample demo_env (dict_get car_data ''sensors'' (PDict [])) ''smoke2'' ''co2_2'' ''fire2''
        = Inr None \<and>
      sensor_data server1 ''car1'' = Some ?d \<and>
      car_sample demo_env (dict_get car_data ''sensors'' (PDict [])) ''car1_temp'' ''car1_status''
        = Inr (Some (30, PStr ''RUNNING''))"
    unfolding g using rb(3) ne(1) ne(2) h3(1) h3(2) e(3) h3(3) by (intro conjI)
  from t3 [THEN conjunct2, THEN conjunct2, THEN conjunct2, THEN conjunct2, THEN conjunct2,
           THEN conjunct2, THEN conjunct2, THEN conjunct2, THEN conjunct2, THEN conjunct2,
           THEN conjunct2, THEN conjunct2, THEN conjunct2, THEN conjunct2, THEN conjunct2,
           THEN conjunct1, THEN mp, OF this]
  have "map_option sequences (sensor_data (on_data demo_env car_data server1) ''car1'') =
      Some (sequences (add_car 1002 (Some 30) (PStr ''RUNNING'') ?d))"
    unfolding tm .
  from pick(2) [OF this [unfolded sq]]
  have m3: "map_option (\<lambda>d. (items (timestamps d), items (car_temp d)))
     (sensor_data (on_data demo_env car_data server1) ''car1'')
   = Some ([1002], [30])" by simp
  have "reaches_blocks ?other server1 \<and> sensor_data server1 ''1200400'' \<noteq> None \<and>
      sensor_data server1 ''1211371'' \<noteq> None \<and> sensor_data server1 ''car1'' \<noteq> None \<and>
      room_sample demo_env (dict_get ?other ''sensors'' (PDict [])) ''smoke1'' ''co2_1'' ''fire1''
        = Inr None \<and>
      room_sample demo_env (dict_get ?other ''sensors'' (PDict [])) ''smoke2'' ''co2_2'' ''fire2''
        = Inr None \<and>
      car_sample demo_env (dict_get ?other ''sensors'' (PDict [])) ''car1_temp'' ''car1_status''
        = Inr None \<and>
      sensor_data server1 ''car2'' = Some ?d \<and>
      car_sample demo_env (dict_get ?other ''sensors'' (PDict [])) ''car2_temp'' ''car2_status''
        = Inr (Some (40, PStr ''UNKNOWN''))"
    unfolding g using rb(4) ne(1) ne(2) ne(3) h4(1) h4(2) h4(3) e(4) h4(4) by (intro conjI)
  from t4 [THEN conjunct2, THEN conjunct2, THEN conjunct2, THEN conjunct2, THEN conjunct2,
           THEN conjunct2, THEN conjunct2, THEN conjunct2, THEN conjunct2, THEN conjunct2,
           THEN conjunct2, THEN conjunct2, THEN conjunct2, THEN conjunct2, THEN conjunct2,
           THEN conjunct2, THEN conjunct1, THEN mp, OF this]
  have "map_option sequences (sensor_data (on_data demo_env ?other server1) ''car2'') =
      Some (sequences (add_car 1002 (Some 40) (PStr ''UNKNOWN'') ?d))"
    unfolding tm .
  from pick(2) [OF this [unfolded sq]]
  have m4: "map_option (\<lambda>d. (items (timestamps d), items (car_temp d)))
     (sensor_data (on_data demo_env ?other server1) ''car2'')
   = Some ([1002], [40])" by simp
  have e1': "sensor_data server1 (room_key True) = Some ?d" using e(1) by (simp only: k)
  have e3': "sensor_data server1 (car_key True) = Some ?d" using e(3) by (simp only: k)
  from t1 [THEN conjunct2, THEN conjunct2, THEN conjunct2, THEN conjunct2, THEN conjunct2,
           THEN conjunct2, THEN conjunct2, THEN conjunct2, THEN conjunct2, THEN conjunct2,
           THEN conjunct2, THEN conjunct2, THEN conjunct2, THEN conjunct2, THEN conjunct2,
           THEN conjunct2, THEN conjunct2, THEN conjunct1, THEN mp, OF e1', THEN conjunct2]
  have "map_option sequences (sensor_data (step demo_env server1 (Co2Tick True 800 1)) ''1200400'') =
      Some (sequences (add_room 1002 None (Some 875) None ?d))"
    unfolding k tm rd ar .
  from pick(1) [OF this [unfolded sq]]
  have g1: "map_option (\<lambda>d. (items (timestamps d), items (smoke d), items (co2 d), items (fire d)))
     (sensor_data (step demo_env server1 (Co2Tick True 800 1)) ''1200400'')
   = Some ([1002], [0], [875], [0])" by simp
  from t2 [THEN conjunct2, THEN conjunct2, THEN conjunct2, THEN conjunct2, THEN conjunct2,
           THEN conjunct2, THEN conjunct2, THEN conjunct2, THEN conjunct2, THEN conjunct2,
           THEN conjunct2, THEN conjunct2, THEN conjunct2, THEN conjunct2, THEN conjunct2,
           THEN conjunct2, THEN conjunct2, THEN conjunct2, THEN mp, OF e3']
  have "map_option sequences (sensor_data (step demo_env server1 (CarTick True 25 1)) ''car1'') =
      Some (sequences (add_car 1002 (Some 28) (PStr ''RUNNING'') ?d))"
    unfolding k tm rd ar .
  from pick(2) [OF this [unfolded sq]]
  have g2: "map_option (\<lambda>d. (items (timestamps d), items (car_temp d)))
     (sensor_data (step demo_env server1 (CarTick True 25 1)) ''car1'')
   = Some ([1002], [28])" by simp
  show ?thesis
    using a a1 b a2 c r v m1 m2 m3 m4 g1 g2 by (intro conjI) assumption+
qed

end
